theory Spec2Isabelle
  imports Complex_Main
begin

section \<open>Time\<close>

text \<open>
  A JavaScript \<open>Date\<close> is an instant: a number of milliseconds since the epoch.
  \<open>getTime\<close> reads it, and the comparison of two dates compares the instants.
  The setters \<open>setDate\<close> and \<open>setHours\<close> and the getter \<open>getMinutes\<close> work on
  the wall clock of the zone the process runs in. That zone is not fixed anywhere in
  the repository (no \<open>TZ\<close> in the Dockerfile or the process file), so the offset of
  the host zone from UTC, in milliseconds, is a parameter \<open>tz\<close> of every function that
  uses a local setter or getter. Zones with a fixed offset only (UTC, JST).
\<close>

type_synonym millis = int

definition MINUTE :: millis where
  "MINUTE = 60 * 1000"

definition HOUR :: millis where
  "HOUR = 60 * 60 * 1000"

definition DAY :: millis where
  "DAY = 24 * 60 * 60 * 1000"

definition JST_OFFSET :: millis where
  "JST_OFFSET = 9 * 60 * 60 * 1000"

text \<open>\<open>d.getMinutes()\<close>: the minute of the hour on the host's wall clock.\<close>

definition getMinutes :: "millis \<Rightarrow> millis \<Rightarrow> nat" where
  "getMinutes tz t = nat (((t + tz) div MINUTE) mod 60)"

text \<open>
  \<open>d.setDate(d.getDate() - 1); d.setHours(h, 0, 0, 0)\<close>: the host's wall clock is moved
  to the previous calendar day and its time of day is set to \<open>h\<close> o'clock.
\<close>

definition previousDayAtHour :: "millis \<Rightarrow> int \<Rightarrow> millis \<Rightarrow> millis" where
  "previousDayAtHour tz h t = (((t + tz) div DAY) - 1) * DAY + h * HOUR - tz"

section \<open>The scheduler's data\<close>

record RaceInfo =
  raceInfo_id :: int
  name :: string
  venue :: string
  startTime :: millis
  isGrade :: bool

subsection \<open>The collection-start gate of \<open>scheduleOddsCollection\<close>\<close>

text \<open>
  Supervisor variant: the start instant is shifted by \<open>JST_OFFSET\<close>, moved to 9 o'clock
  of the previous day with the host's setters, and shifted back. A race that is not a
  grade race has no gate (\<open>null\<close>).
\<close>

definition collectionStartTimeUTC :: "millis \<Rightarrow> RaceInfo \<Rightarrow> millis option" where
  "collectionStartTimeUTC tz race =
     (if isGrade race then
        (let raceStartTimeJST = startTime race + JST_OFFSET;
             collectionStartTimeJST = previousDayAtHour tz 9 raceStartTimeJST
         in Some (collectionStartTimeJST - JST_OFFSET))
      else None)"

text \<open>
  Daily variant: the start instant is not shifted, the hour is 19, and \<open>JST_OFFSET\<close> is
  subtracted afterwards.
\<close>

definition collectionStartTime_daily :: "millis \<Rightarrow> RaceInfo \<Rightarrow> millis option" where
  "collectionStartTime_daily tz race =
     (if isGrade race then
        (let raceStartTimeJST = startTime race;
             collectionStartTimeJST = previousDayAtHour tz 19 raceStartTimeJST
         in Some (collectionStartTimeJST - JST_OFFSET))
      else None)"

text \<open>
  The gate as the specification words it: 09:00 on the Japanese calendar day before
  the Japanese calendar day of the race start, as an instant.
\<close>

definition spec_collectionStart :: "millis \<Rightarrow> millis" where
  "spec_collectionStart start =
     (((start + JST_OFFSET) div DAY) - 1) * DAY + 9 * HOUR - JST_OFFSET"

subsection \<open>The cadence decision of a firing\<close>

definition FINAL_ODDS_WINDOW :: millis where
  "FINAL_ODDS_WINDOW = 5 * 60 * 1000"

text \<open>
  The value of \<open>shouldCollect\<close> when the firing reaches \<open>if (shouldCollect)\<close>, from the
  grade flag, \<open>timeToRace\<close> and the minute of the hour of the firing.
\<close>

definition shouldCollect :: "bool \<Rightarrow> millis \<Rightarrow> nat \<Rightarrow> bool" where
  "shouldCollect grade timeToRace minutes =
     (let sc0 =
        (if grade then
           (if timeToRace \<le> 30 * 60 * 1000 then True
            else if timeToRace \<le> 3 * 60 * 60 * 1000 then minutes mod 10 = 0
            else if timeToRace \<le> 12 * 60 * 60 * 1000 then minutes mod 30 = 0
            else minutes = 0)
         else
           (if timeToRace \<le> 30 * 60 * 1000 then minutes mod 10 = 0
            else minutes mod 30 = 0))
      in if timeToRace \<le> 0 then True else sc0)"

text \<open>
  What one firing of a race's timer decides before it touches the store: wait for the
  gate, collect, do nothing, or retire the job. Both variants run the same code after
  the gate, so the gate is a parameter.
\<close>

datatype firing = Waiting | Collect | Skip | Retire

definition gateClosed :: "RaceInfo \<Rightarrow> millis option \<Rightarrow> millis \<Rightarrow> bool" where
  "gateClosed race gate now =
     (case gate of None \<Rightarrow> False | Some g \<Rightarrow> isGrade race \<and> now < g)"

definition firingDecision :: "millis \<Rightarrow> RaceInfo \<Rightarrow> millis option \<Rightarrow> millis \<Rightarrow> firing" where
  "firingDecision tz race gate now =
     (if gateClosed race gate now then Waiting
      else
        (let timeToRace = startTime race - now in
         if timeToRace > - FINAL_ODDS_WINDOW then
           (if shouldCollect (isGrade race) timeToRace (getMinutes tz now) then Collect else Skip)
         else Retire))"

text \<open>
  The immediate collection at registration:
  \<open>!race.isGrade || (collectionStartTimeUTC && nowUTC >= collectionStartTimeUTC)\<close>.
\<close>

definition initialCollection :: "RaceInfo \<Rightarrow> millis option \<Rightarrow> millis \<Rightarrow> bool" where
  "initialCollection race gate now =
     (\<not> isGrade race \<or> (case gate of None \<Rightarrow> False | Some g \<Rightarrow> now \<ge> g))"

subsection \<open>Example races\<close>

text \<open>
  A grade race at 15:40 JST on 2 March 2025 (06:40 UTC), and one at 10:00 JST on the
  same day (01:00 UTC).
\<close>

definition afternoonRace :: RaceInfo where
  "afternoonRace =
     \<lparr>raceInfo_id = 202506020111, name = ''Yayoi Sho G2'', venue = ''Nakayama'',
      startTime = 1740897600000, isGrade = True\<rparr>"

definition morningRace :: RaceInfo where
  "morningRace =
     \<lparr>raceInfo_id = 202506020101, name = ''Maiden'', venue = ''Nakayama'',
      startTime = 1740877200000, isGrade = True\<rparr>"

section \<open>The store\<close>

text \<open>
  Each table is the list of its rows, in insertion order. The \<open>serial\<close> key of a
  new row is one more than the largest key in the table.
\<close>

record race_row =
  r_id :: int
  r_name :: string
  r_venue :: string
  r_startTime :: millis
  r_status :: string

record horse_row =
  h_id :: nat
  h_name :: string
  h_raceId :: int
  h_frame :: int
  h_number :: int
  h_status :: string

text \<open>
  The odds tables share one shape: the participants (\<open>horseId\<close>; \<open>frame1, frame2\<close>;
  \<open>horse1, horse2\<close>; \<open>horse1, horse2, horse3\<close>) are the key \<open>'k\<close>, the odds columns
  (\<open>odds\<close>, or \<open>oddsMin, oddsMax\<close>) the value \<open>'v\<close>. A scraped quote has the same
  fields but the row key.
\<close>

record ('k, 'v) odds_row =
  row_id :: nat
  row_key :: 'k
  row_val :: 'v
  row_timestamp :: millis
  row_raceId :: int

record ('k, 'v) odds_data =
  d_key :: 'k
  d_val :: 'v
  d_timestamp :: millis
  d_raceId :: int

type_synonym WakurenOddsData = "(int \<times> int, real) odds_data"
type_synonym UmarenOddsData = "(int \<times> int, real) odds_data"
type_synonym WideOddsData = "(int \<times> int, real \<times> real) odds_data"
type_synonym UmatanOddsData = "(int \<times> int, real) odds_data"
type_synonym Fuku3OddsData = "(int \<times> int \<times> int, real) odds_data"
type_synonym Tan3OddsData = "(int \<times> int \<times> int, real) odds_data"

record store =
  races :: "race_row list"
  horses :: "horse_row list"
  tanOddsHistory :: "(int, real) odds_row list"
  fukuOdds :: "(int, real \<times> real) odds_row list"
  wakurenOdds :: "(int \<times> int, real) odds_row list"
  umarenOdds :: "(int \<times> int, real) odds_row list"
  wideOdds :: "(int \<times> int, real \<times> real) odds_row list"
  umatanOdds :: "(int \<times> int, real) odds_row list"
  fuku3Odds :: "(int \<times> int \<times> int, real) odds_row list"
  tan3Odds :: "(int \<times> int \<times> int, real) odds_row list"

definition emptyStore :: store where
  "emptyStore =
     \<lparr>races = [], horses = [], tanOddsHistory = [], fukuOdds = [], wakurenOdds = [],
      umarenOdds = [], wideOdds = [], umatanOdds = [], fuku3Odds = [], tan3Odds = []\<rparr>"

definition nextId :: "nat list \<Rightarrow> nat" where
  "nextId ids = Suc (fold max ids 0)"

text \<open>\<open>db.query.races.findFirst({ where: eq(races.id, raceId) })\<close>\<close>

definition findRace :: "int \<Rightarrow> store \<Rightarrow> race_row option" where
  "findRace raceId s = find (\<lambda>r. r_id r = raceId) (races s)"

text \<open>\<open>db.update(races).set({ status: 'done' }).where(eq(races.id, raceId))\<close>\<close>

definition setRaceStatus :: "int \<Rightarrow> string \<Rightarrow> store \<Rightarrow> store" where
  "setRaceStatus raceId st s =
     s\<lparr>races := map (\<lambda>r. if r_id r = raceId then r\<lparr>r_status := st\<rparr> else r) (races s)\<rparr>"

text \<open>\<open>db.query.races.findMany({ where: eq(races.status, 'upcoming') })\<close>\<close>

definition upcomingRaces :: "store \<Rightarrow> race_row list" where
  "upcomingRaces s = filter (\<lambda>r. r_status r = ''upcoming'') (races s)"

subsection \<open>The upsert of the odds tables\<close>

text \<open>
  The six \<open>update...Odds\<close> methods and the place-odds half of \<open>saveOddsHistory\<close> are
  one piece of code up to the table and the key. The rows of the race of the first
  quote are read; a JavaScript \<open>Map\<close> is built from them, keyed by the string made of
  the participants joined with a dash (a later row replaces an earlier one with the
  same key); each quote goes to \<open>updates\<close> with the key of the row found, or to
  \<open>inserts\<close>; the updates set the odds and the timestamp of the row with that key
  (an update whose key is 0 is skipped); the inserts are appended. The decimal
  rendering of integers joined with a dash is one-to-one, so the key string is
  modelled by the tuple it renders. \<open>canon\<close> is what the method does to the
  participants before it builds the key string: nothing, except in
  \<open>updateFuku3Odds\<close>, which sorts them. Reading \<open>oddsDataArray[0].raceId\<close> of an
  empty array throws, which is \<open>None\<close>. The batches are run one after the other and
  the updates of one batch in array order.
\<close>

definition existingFor :: "('k \<Rightarrow> 'k) \<Rightarrow> ('k, 'v) odds_row list \<Rightarrow> 'k \<Rightarrow> ('k, 'v) odds_row option" where
  "existingFor canon existingOdds k = find (\<lambda>r. canon (row_key r) = canon k) (rev existingOdds)"

definition applyUpdate :: "nat \<times> ('k, 'v) odds_data \<Rightarrow> ('k, 'v) odds_row list \<Rightarrow> ('k, 'v) odds_row list" where
  "applyUpdate u table =
     (if fst u = 0 then table
      else map (\<lambda>r. if row_id r = fst u
                     then r\<lparr>row_val := d_val (snd u), row_timestamp := d_timestamp (snd u)\<rparr>
                     else r) table)"

fun insertRows :: "('k \<Rightarrow> 'k) \<Rightarrow> ('k, 'v) odds_data list \<Rightarrow> ('k, 'v) odds_row list \<Rightarrow> ('k, 'v) odds_row list" where
  "insertRows canon [] table = table"
| "insertRows canon (d # ds) table =
     insertRows canon ds
       (table @ [\<lparr>row_id = nextId (map row_id table), row_key = canon (d_key d),
                  row_val = d_val d, row_timestamp = d_timestamp d, row_raceId = d_raceId d\<rparr>])"

definition upsertOdds :: "('k \<Rightarrow> 'k) \<Rightarrow> ('k, 'v) odds_data list \<Rightarrow> ('k, 'v) odds_row list \<Rightarrow> ('k, 'v) odds_row list option" where
  "upsertOdds canon oddsDataArray table =
     (case oddsDataArray of
        [] \<Rightarrow> None
      | first # _ \<Rightarrow>
          (let existingOdds = filter (\<lambda>r. row_raceId r = d_raceId first) table;
               updates = List.map_filter
                 (\<lambda>d. map_option (\<lambda>e. (row_id e, d)) (existingFor canon existingOdds (d_key d)))
                 oddsDataArray;
               inserts = filter (\<lambda>d. existingFor canon existingOdds (d_key d) = None) oddsDataArray
           in Some (insertRows canon inserts (fold applyUpdate updates table))))"

text \<open>\<open>[odds.horse1, odds.horse2, odds.horse3].sort((a, b) => a - b)\<close>\<close>

definition sortHorses :: "int \<times> int \<times> int \<Rightarrow> int \<times> int \<times> int" where
  "sortHorses k =
     (case k of (a, b, c) \<Rightarrow>
        (case sort [a, b, c] of [x, y, z] \<Rightarrow> (x, y, z) | _ \<Rightarrow> (a, b, c)))"

definition updateWakurenOdds :: "WakurenOddsData list \<Rightarrow> store \<Rightarrow> store option" where
  "updateWakurenOdds arr s =
     map_option (\<lambda>t. s\<lparr>wakurenOdds := t\<rparr>) (upsertOdds (\<lambda>k. k) arr (wakurenOdds s))"

definition updateUmarenOdds :: "UmarenOddsData list \<Rightarrow> store \<Rightarrow> store option" where
  "updateUmarenOdds arr s =
     map_option (\<lambda>t. s\<lparr>umarenOdds := t\<rparr>) (upsertOdds (\<lambda>k. k) arr (umarenOdds s))"

definition updateWideOdds :: "WideOddsData list \<Rightarrow> store \<Rightarrow> store option" where
  "updateWideOdds arr s =
     map_option (\<lambda>t. s\<lparr>wideOdds := t\<rparr>) (upsertOdds (\<lambda>k. k) arr (wideOdds s))"

definition updateUmatanOdds :: "UmatanOddsData list \<Rightarrow> store \<Rightarrow> store option" where
  "updateUmatanOdds arr s =
     map_option (\<lambda>t. s\<lparr>umatanOdds := t\<rparr>) (upsertOdds (\<lambda>k. k) arr (umatanOdds s))"

definition updateFuku3Odds :: "Fuku3OddsData list \<Rightarrow> store \<Rightarrow> store option" where
  "updateFuku3Odds arr s =
     map_option (\<lambda>t. s\<lparr>fuku3Odds := t\<rparr>) (upsertOdds sortHorses arr (fuku3Odds s))"

definition updateTan3Odds :: "Tan3OddsData list \<Rightarrow> store \<Rightarrow> store option" where
  "updateTan3Odds arr s =
     map_option (\<lambda>t. s\<lparr>tan3Odds := t\<rparr>) (upsertOdds (\<lambda>k. k) arr (tan3Odds s))"

text \<open>The rows a table holds for one race and one unordered combination.\<close>

definition rowsFor :: "int \<Rightarrow> 'k set \<Rightarrow> ('k, 'v) odds_row list \<Rightarrow> ('k, 'v) odds_row list" where
  "rowsFor raceId ks table = filter (\<lambda>r. row_raceId r = raceId \<and> row_key r \<in> ks) table"

subsection \<open>Example quotes\<close>

text \<open>
  Horses 3 and 5 (frames 3 and 5) of the afternoon race, quoted once in each order;
  horses 3, 5 and 8 in two orders.
\<close>

definition quote35 :: "(int \<times> int, real) odds_data" where
  "quote35 = \<lparr>d_key = (3, 5), d_val = 12.3, d_timestamp = 1000, d_raceId = 202506020111\<rparr>"

definition quote53 :: "(int \<times> int, real) odds_data" where
  "quote53 = \<lparr>d_key = (5, 3), d_val = 12.5, d_timestamp = 2000, d_raceId = 202506020111\<rparr>"

definition wide35 :: WideOddsData where
  "wide35 = \<lparr>d_key = (3, 5), d_val = (2.1, 2.9), d_timestamp = 1000, d_raceId = 202506020111\<rparr>"

definition wide53 :: WideOddsData where
  "wide53 = \<lparr>d_key = (5, 3), d_val = (2.2, 3.0), d_timestamp = 2000, d_raceId = 202506020111\<rparr>"

definition triple358 :: Fuku3OddsData where
  "triple358 = \<lparr>d_key = (3, 5, 8), d_val = 45.6, d_timestamp = 1000, d_raceId = 202506020111\<rparr>"

definition triple853 :: Fuku3OddsData where
  "triple853 = \<lparr>d_key = (8, 5, 3), d_val = 44.0, d_timestamp = 2000, d_raceId = 202506020111\<rparr>"

section \<open>Win and place odds\<close>

record OddsData =
  horseId :: int
  horseName :: string
  frame :: int
  number :: int
  tanOdds :: real
  fukuOddsMin :: real
  fukuOddsMax :: real
  timestamp :: millis
  raceId :: int
  status :: string

text \<open>
  What \<open>parseTanpukuOdds\<close> reads from one table row that has a horse number: the
  number, the frame in force (0 when none was read), the name, whether the row has a
  \<open>td.odds_tan_cancel\<close> cell, and the numbers parsed from the odds cells.
\<close>

record tanpuku_cells =
  c_horseId :: int
  c_frame :: int
  c_horseName :: string
  c_isCanceled :: bool
  c_tanOdds :: real
  c_fukuOddsMin :: real
  c_fukuOddsMax :: real

text \<open>The object literal \<open>horseData\<close> that the parser pushes.\<close>

definition horseData :: "millis \<Rightarrow> int \<Rightarrow> tanpuku_cells \<Rightarrow> OddsData" where
  "horseData now rid c =
     \<lparr>horseId = c_horseId c,
      horseName = c_horseName c,
      frame = c_frame c,
      number = c_horseId c,
      tanOdds = (if c_isCanceled c then - 1 else c_tanOdds c),
      fukuOddsMin = (if c_isCanceled c then 0 else c_fukuOddsMin c),
      fukuOddsMax = (if c_isCanceled c then 0 else c_fukuOddsMax c),
      timestamp = now,
      raceId = rid,
      status = (if c_isCanceled c then ''scratched'' else ''running'')\<rparr>"

text \<open>
  The loop over the rows: a horse number already processed and a row without a frame
  are skipped.
\<close>

fun parseRows :: "millis \<Rightarrow> int \<Rightarrow> int list \<Rightarrow> tanpuku_cells list \<Rightarrow> OddsData list" where
  "parseRows now rid processedHorseIds [] = []"
| "parseRows now rid processedHorseIds (c # cs) =
     (if c_horseId c \<in> set processedHorseIds then parseRows now rid processedHorseIds cs
      else if c_frame c = 0 then parseRows now rid processedHorseIds cs
      else horseData now rid c # parseRows now rid (c_horseId c # processedHorseIds) cs)"

definition parseTanpukuOdds :: "millis \<Rightarrow> int \<Rightarrow> tanpuku_cells list \<Rightarrow> OddsData list" where
  "parseTanpukuOdds now rid cells = parseRows now rid [] cells"

text \<open>
  \<open>handleTanpukuOdds\<close> takes \<open>any[]\<close> and reads \<open>odd.odds\<close>. At run time an element
  is the object the parser built, so the read is a lookup of the key \<open>odds\<close> among
  the keys of that literal; a key that is absent reads as \<open>undefined\<close> (\<open>None\<close>).
\<close>

datatype jsval = JNumber real | JString string | JDate millis

definition horseDataObject :: "OddsData \<Rightarrow> (string \<times> jsval) list" where
  "horseDataObject od =
     [(''horseId'', JNumber (real_of_int (horseId od))),
      (''horseName'', JString (horseName od)),
      (''frame'', JNumber (real_of_int (frame od))),
      (''number'', JNumber (real_of_int (number od))),
      (''tanOdds'', JNumber (tanOdds od)),
      (''fukuOddsMin'', JNumber (fukuOddsMin od)),
      (''fukuOddsMax'', JNumber (fukuOddsMax od)),
      (''timestamp'', JDate (timestamp od)),
      (''raceId'', JNumber (real_of_int (raceId od))),
      (''status'', JString (status od))]"

definition getProp :: "(string \<times> jsval) list \<Rightarrow> string \<Rightarrow> jsval option" where
  "getProp obj key = map_of obj key"

text \<open>The two characters of the word for a scratched horse, as UTF-8.\<close>

definition torikeshi :: string where
  "torikeshi = [CHR 0xE5, CHR 0x8F, CHR 0x96, CHR 0xE6, CHR 0xB6, CHR 0x88]"

definition oddsIsTorikeshi :: "OddsData \<Rightarrow> bool" where
  "oddsIsTorikeshi od = (getProp (horseDataObject od) ''odds'' = Some (JString torikeshi))"

text \<open>The loop of \<open>handleTanpukuOdds\<close> over the horses table.\<close>

fun handleHorses :: "int \<Rightarrow> OddsData list \<Rightarrow> horse_row list \<Rightarrow> horse_row list" where
  "handleHorses rid [] hs = hs"
| "handleHorses rid (od # odds) hs =
     (case find (\<lambda>h. h_name h = horseName od \<and> h_raceId h = rid) hs of
        None \<Rightarrow>
          handleHorses rid odds
            (hs @ [\<lparr>h_id = nextId (map h_id hs), h_name = horseName od, h_raceId = rid,
                    h_frame = frame od, h_number = number od,
                    h_status = (if oddsIsTorikeshi od then ''scratched'' else ''running'')\<rparr>])
      | Some existingHorse \<Rightarrow>
          (if oddsIsTorikeshi od \<and> h_status existingHorse \<noteq> ''scratched'' then
             handleHorses rid odds
               (map (\<lambda>h. if h_name h = horseName od \<and> h_raceId h = rid
                          then h\<lparr>h_status := ''scratched''\<rparr> else h) hs)
           else handleHorses rid odds hs))"

text \<open>
  \<open>saveOddsHistory\<close>: one history row per horse for the win odds, and the upsert of
  the place odds keyed by \<open>horseId\<close>.
\<close>

definition saveOddsHistory :: "OddsData list \<Rightarrow> store \<Rightarrow> store option" where
  "saveOddsHistory oddsData s =
     (let tanOddsInserts =
            map (\<lambda>odds. \<lparr>d_key = horseId odds, d_val = tanOdds odds,
                         d_timestamp = timestamp odds, d_raceId = raceId odds\<rparr>) oddsData;
          fukuOddsUpserts =
            map (\<lambda>odds. \<lparr>d_key = horseId odds, d_val = (fukuOddsMin odds, fukuOddsMax odds),
                         d_timestamp = timestamp odds, d_raceId = raceId odds\<rparr>) oddsData;
          s1 = s\<lparr>tanOddsHistory := insertRows (\<lambda>k. k) tanOddsInserts (tanOddsHistory s)\<rparr>
      in map_option (\<lambda>t. s1\<lparr>fukuOdds := t\<rparr>) (upsertOdds (\<lambda>k. k) fukuOddsUpserts (fukuOdds s1)))"

definition handleTanpukuOdds :: "int \<Rightarrow> OddsData list \<Rightarrow> store \<Rightarrow> store option" where
  "handleTanpukuOdds rid odds s = saveOddsHistory odds (s\<lparr>horses := handleHorses rid odds (horses s)\<rparr>)"

subsection \<open>Example rows\<close>

definition runnerCells :: tanpuku_cells where
  "runnerCells =
     \<lparr>c_horseId = 3, c_frame = 2, c_horseName = ''Equinox'', c_isCanceled = False,
      c_tanOdds = 2.4, c_fukuOddsMin = 1.1, c_fukuOddsMax = 1.3\<rparr>"

definition scratchedCells :: tanpuku_cells where
  "scratchedCells =
     \<lparr>c_horseId = 5, c_frame = 3, c_horseName = ''Panthalassa'', c_isCanceled = True,
      c_tanOdds = 0, c_fukuOddsMin = 0, c_fukuOddsMax = 0\<rparr>"

section \<open>The collaborators of \<open>collectOdds\<close>\<close>

datatype betType = tanpuku | wakuren | umaren | wide | umatan | fuku3 | tan3

definition oddsTypes :: "betType list" where
  "oddsTypes = [tanpuku, wakuren, umaren, wide, umatan, fuku3, tan3]"

definition MAX_RETRIES :: nat where
  "MAX_RETRIES = 3"

definition RETRY_DELAY :: millis where
  "RETRY_DELAY = 5000"

datatype error_kind = TimeoutError | BrowserError | OtherError

text \<open>
  \<open>withDbRetry\<close>: the operation is tried up to \<open>MAX_RETRIES\<close> times; a failed try
  that is not the last is followed by a sleep of \<open>RETRY_DELAY\<close>, the last failed try
  rethrows. \<open>fails i\<close> says whether the try with the loop variable \<open>i\<close> throws. The
  result is whether a try succeeded, and the number of sleeps. The first equation is
  the \<open>throw\<close> after the loop, which no run reaches.
\<close>

fun withDbRetryFrom :: "nat \<Rightarrow> (nat \<Rightarrow> bool) \<Rightarrow> nat \<Rightarrow> bool \<times> nat" where
  "withDbRetryFrom 0 fails i = (False, i)"
| "withDbRetryFrom (Suc left) fails i =
     (if fails i then (if left = 0 then (False, i) else withDbRetryFrom left fails (Suc i))
      else (True, i))"

definition withDbRetry :: "(nat \<Rightarrow> bool) \<Rightarrow> bool \<times> nat" where
  "withDbRetry fails = withDbRetryFrom MAX_RETRIES fails 0"

definition dbFails :: "(nat \<Rightarrow> bool) \<Rightarrow> bool" where
  "dbFails fails = (\<not> fst (withDbRetry fails))"

definition dbSleeps :: "(nat \<Rightarrow> bool) \<Rightarrow> nat" where
  "dbSleeps fails = snd (withDbRetry fails)"

text \<open>
  The scraper, the browser and the database are outside the program. What they do is
  given to the model as data. One pass of the \<open>while\<close> loop calls
  \<open>collectOddsForBetType\<close> once: the call throws, or it returns a list, and then the
  store handler (\<open>handleTanpukuOdds\<close>, \<open>handleOtherOdds\<close>) runs. With \<open>None\<close> no
  statement of the handler fails; with \<open>Some f\<close> statements fail as \<open>f\<close> says.
\<close>

datatype ('a, 'f) attempt =
    Threw error_kind
  | Returned "'a list" "'f option"

text \<open>
  One run of a method that writes in several statements without a transaction (an
  \<open>update...Odds\<close> method, \<open>saveOddsHistory\<close>), when a statement of it fails: the
  error that it throws, and what its statements before the failing one have written.
  No handler has a statement on the races table.
\<close>

type_synonym failure = "error_kind \<times> (store \<Rightarrow> store)"

text \<open>
  The faults that a call of \<open>handleOtherOdds\<close> meets: for the try of \<open>withDbRetry\<close>
  with the loop variable \<open>i\<close>, whether the update method fails in it.
\<close>

type_synonym tries = "nat \<Rightarrow> failure option"

text \<open>
  The faults that a call of \<open>handleTanpukuOdds\<close> meets: for the \<open>j\<close>-th element of the
  list and the try \<open>i\<close> of its \<open>withDbRetry\<close>, whether a statement of the try fails (a
  failed try has written nothing: it reads, and its one write is its last
  statement); and whether \<open>saveOddsHistory\<close> fails.
\<close>

record tanpukuFaults =
  horseTries :: "nat \<Rightarrow> nat \<Rightarrow> error_kind option"
  historyFault :: "failure option"

text \<open>
  The environment of one call of \<open>collectOdds\<close>: for each bet type the outcome of the
  first, second, ... call of the scraper, and for the race lookup and the status
  update, each inside its own \<open>withDbRetry\<close>, which of the tries fail.
\<close>

record env =
  scrapeTanpuku :: "nat \<Rightarrow> (OddsData, tanpukuFaults) attempt"
  scrapeWakuren :: "nat \<Rightarrow> (WakurenOddsData, tries) attempt"
  scrapeUmaren :: "nat \<Rightarrow> (UmarenOddsData, tries) attempt"
  scrapeWide :: "nat \<Rightarrow> (WideOddsData, tries) attempt"
  scrapeUmatan :: "nat \<Rightarrow> (UmatanOddsData, tries) attempt"
  scrapeFuku3 :: "nat \<Rightarrow> (Fuku3OddsData, tries) attempt"
  scrapeTan3 :: "nat \<Rightarrow> (Tan3OddsData, tries) attempt"
  lookupFaults :: "nat \<Rightarrow> bool"
  updateFaults :: "nat \<Rightarrow> bool"

text \<open>The lookup, or the update, fails for good: every try of its \<open>withDbRetry\<close> throws.\<close>

definition lookupFails :: "env \<Rightarrow> bool" where
  "lookupFails e = dbFails (lookupFaults e)"

definition updateFails :: "env \<Rightarrow> bool" where
  "updateFails e = dbFails (updateFaults e)"

text \<open>What the program does to the outside: calls of the scraper and sleeps.\<close>

datatype event = Scrape betType | Sleep millis

subsection \<open>The semaphore\<close>

text \<open>
  \<open>collectingSemaphore\<close>: the counter \<open>running\<close> and the queue of waiting calls (a
  waiting call is named by its race). \<open>acquire\<close> takes a slot at once when the
  counter is below \<open>maxConcurrent\<close> and queues the caller otherwise. \<open>release\<close>
  decrements the counter and, when a caller waits and the counter is below the
  maximum, hands it the slot (the queued closure increments the counter).
\<close>

record semaphore =
  running :: int
  queue :: "int list"

definition maxConcurrent :: int where
  "maxConcurrent = 3"

definition acquire :: "int \<Rightarrow> semaphore \<Rightarrow> bool \<times> semaphore" where
  "acquire caller sem =
     (if running sem < maxConcurrent then (True, sem\<lparr>running := running sem + 1\<rparr>)
      else (False, sem\<lparr>queue := queue sem @ [caller]\<rparr>))"

definition release :: "semaphore \<Rightarrow> semaphore" where
  "release sem =
     (let sem1 = sem\<lparr>running := running sem - 1\<rparr> in
      if length (queue sem1) > 0 \<and> running sem1 < maxConcurrent
      then sem1\<lparr>queue := tl (queue sem1), running := running sem1 + 1\<rparr>
      else sem1)"

subsection \<open>The collector's state\<close>

record collector =
  db :: store
  collectingSemaphore :: semaphore
  events :: "event list"

definition newCollector :: collector where
  "newCollector = \<lparr>db = emptyStore, collectingSemaphore = \<lparr>running = 0, queue = []\<rparr>, events = []\<rparr>"

definition logEvent :: "event \<Rightarrow> collector \<Rightarrow> collector" where
  "logEvent e c = c\<lparr>events := events c @ [e]\<rparr>"

text \<open>\<open>n\<close> sleeps of \<open>RETRY_DELAY\<close> in a row.\<close>

definition sleeps :: "nat \<Rightarrow> collector \<Rightarrow> collector" where
  "sleeps n c = c\<lparr>events := events c @ replicate n (Sleep RETRY_DELAY)\<rparr>"

definition releaseSemaphore :: "collector \<Rightarrow> collector" where
  "releaseSemaphore c = c\<lparr>collectingSemaphore := release (collectingSemaphore c)\<rparr>"

text \<open>
  A run of code with a loop that may not end is cut after \<open>fuel\<close> passes of each
  loop: \<open>Finished\<close> with the result, or \<open>OutOfFuel\<close> with the events so far. A call
  that found the semaphore full has queued itself and waits: \<open>Queued\<close>.
\<close>

datatype 'a run = Finished 'a | OutOfFuel "event list" | Queued semaphore

definition bindRun :: "'a run \<Rightarrow> ('a \<Rightarrow> 'b run) \<Rightarrow> 'b run" where
  "bindRun r f = (case r of Finished a \<Rightarrow> f a | OutOfFuel es \<Rightarrow> OutOfFuel es | Queued q \<Rightarrow> Queued q)"

section \<open>\<open>collectOdds\<close>\<close>

subsection \<open>The store handlers when statements fail\<close>

text \<open>
  What a handler does under faults: the error that it throws, if it throws, the store
  that it leaves, and the number of sleeps of \<open>RETRY_DELAY\<close> that it made.
\<close>

type_synonym outcome = "error_kind option \<times> store \<times> nat"

text \<open>The store after the failed tries \<open>0\<close>, ..., \<open>n - 1\<close>.\<close>

fun landedBy :: "tries \<Rightarrow> nat \<Rightarrow> store \<Rightarrow> store" where
  "landedBy t 0 s = s"
| "landedBy t (Suc i) s =
     (case t i of Some failed \<Rightarrow> snd failed (landedBy t i s) | None \<Rightarrow> landedBy t i s)"

text \<open>
  \<open>handleOtherOdds\<close>: \<open>withDbRetry(() => updateMethod(odds))\<close>. A try that succeeds
  runs the update method on what the failed tries before it have left; when the
  last try fails, its error is thrown. (The update method's own throw on an empty
  list does not occur here: the loop calls the handler with a list that is not
  empty.)
\<close>

definition handleOtherOddsUnder :: "('a list \<Rightarrow> store \<Rightarrow> store option) \<Rightarrow> tries \<Rightarrow> 'a list \<Rightarrow> store
    \<Rightarrow> outcome" where
  "handleOtherOddsUnder updateMethod t odds s =
     (case withDbRetry (\<lambda>i. t i \<noteq> None) of
        (True, n) \<Rightarrow>
          (let s1 = landedBy t n s in
           case updateMethod odds s1 of
             Some s' \<Rightarrow> (None, s', n)
           | None \<Rightarrow> (Some OtherError, s1, n))
      | (False, n) \<Rightarrow> (map_option fst (t n), landedBy t (Suc n) s, n))"

text \<open>
  The loop of \<open>handleTanpukuOdds\<close> over the list, one \<open>withDbRetry\<close> for each element;
  \<open>j\<close> is the index of the element. When the last try for an element fails, its
  error is thrown; the rows of the elements before it stay.
\<close>

fun handleHorsesUnder :: "int \<Rightarrow> (nat \<Rightarrow> nat \<Rightarrow> error_kind option) \<Rightarrow> nat \<Rightarrow> OddsData list
    \<Rightarrow> horse_row list \<Rightarrow> error_kind option \<times> horse_row list \<times> nat" where
  "handleHorsesUnder rid ft j [] hs = (None, hs, 0)"
| "handleHorsesUnder rid ft j (od # odds) hs =
     (case withDbRetry (\<lambda>i. ft j i \<noteq> None) of
        (True, n) \<Rightarrow>
          (case handleHorsesUnder rid ft (Suc j) odds (handleHorses rid [od] hs) of
             (err, hs', m) \<Rightarrow> (err, hs', n + m))
      | (False, n) \<Rightarrow> (ft j n, hs, n))"

text \<open>
  \<open>handleTanpukuOdds\<close>: the loop, and then \<open>saveOddsHistory\<close>, which is not inside a
  \<open>withDbRetry\<close>.
\<close>

definition handleTanpukuOddsUnder :: "int \<Rightarrow> tanpukuFaults \<Rightarrow> OddsData list \<Rightarrow> store \<Rightarrow> outcome" where
  "handleTanpukuOddsUnder rid f odds s =
     (case handleHorsesUnder rid (horseTries f) 0 odds (horses s) of
        (Some e, hs, n) \<Rightarrow> (Some e, s\<lparr>horses := hs\<rparr>, n)
      | (None, hs, n) \<Rightarrow>
          (let s1 = s\<lparr>horses := hs\<rparr> in
           case historyFault f of
             Some failed \<Rightarrow> (Some (fst failed), snd failed s1, n)
           | None \<Rightarrow>
               (case saveOddsHistory odds s1 of
                  Some s' \<Rightarrow> (None, s', n)
                | None \<Rightarrow> (Some OtherError, s1, n))))"

text \<open>An attempt of the environment, with what the handler does under its faults.\<close>

definition under :: "('f \<Rightarrow> 'a list \<Rightarrow> store \<Rightarrow> outcome) \<Rightarrow> ('a, 'f) attempt
    \<Rightarrow> ('a, store \<Rightarrow> outcome) attempt" where
  "under h a =
     (case a of
        Threw e \<Rightarrow> Threw e
      | Returned odds fate \<Rightarrow> Returned odds (map_option (\<lambda>f. h f odds) fate))"

subsection \<open>The retry loop\<close>

text \<open>
  The store handler after a scrape. \<open>handler\<close> is the handler when no statement
  fails (\<open>None\<close> is the \<open>TypeError\<close> of \<open>arr[0].raceId\<close> on an empty list, which the
  loop's test of the length excludes). The races table is as before: no handler
  has a statement on it.
\<close>

definition runHandler :: "('a list \<Rightarrow> store \<Rightarrow> store option) \<Rightarrow> 'a list \<Rightarrow> (store \<Rightarrow> outcome) option
    \<Rightarrow> store \<Rightarrow> outcome" where
  "runHandler handler odds fate s =
     (case fate of
        None \<Rightarrow>
          (case handler odds s of None \<Rightarrow> (Some OtherError, s, 0) | Some s' \<Rightarrow> (None, s', 0))
      | Some run \<Rightarrow>
          (case run s of (err, s', n) \<Rightarrow> (err, s'\<lparr>races := races s\<rparr>, n)))"

text \<open>
  The \<open>while (retryCount < this.MAX_RETRIES)\<close> loop of one bet type. \<open>k\<close> counts the
  passes of the loop, \<open>retryCount\<close> is the variable of the source. The terminal pass
  and the regular pass of both variants have the same loop; the supervisor's
  bookkeeping of browser errors (a counter and a browser reset, which never throws)
  touches neither the loop's control nor the store and is left out.
\<close>

fun retryLoop :: "nat \<Rightarrow> betType \<Rightarrow> (nat \<Rightarrow> ('a, store \<Rightarrow> outcome) attempt)
    \<Rightarrow> ('a list \<Rightarrow> store \<Rightarrow> store option) \<Rightarrow> nat \<Rightarrow> nat \<Rightarrow> collector \<Rightarrow> collector run" where
  "retryLoop 0 betType scraper handler k retryCount c =
     (if retryCount < MAX_RETRIES then OutOfFuel (events c) else Finished c)"
| "retryLoop (Suc fuel) betType scraper handler k retryCount c =
     (if retryCount < MAX_RETRIES then
        (let c1 = logEvent (Scrape betType) c in
         case scraper k of
           Returned odds fate \<Rightarrow>
             (if length odds > 0 then
                (case runHandler handler odds fate (db c1) of
                   (err, s', n) \<Rightarrow>
                     (let c2 = sleeps n (c1\<lparr>db := s'\<rparr>) in
                      case err of
                        None \<Rightarrow> Finished c2
                      | Some error \<Rightarrow>
                          (if error = TimeoutError then Finished c2
                           else if retryCount = MAX_RETRIES - 1 then Finished c2
                           else retryLoop fuel betType scraper handler (Suc k) (retryCount + 1)
                                  (logEvent (Sleep RETRY_DELAY) c2))))
              else retryLoop fuel betType scraper handler (Suc k) retryCount c1)
         | Threw error \<Rightarrow>
             (if retryCount + 1 \<ge> MAX_RETRIES then Finished c1
              else retryLoop fuel betType scraper handler (Suc k) (retryCount + 1)
                     (logEvent (Sleep RETRY_DELAY) c1)))
      else Finished c)"

text \<open>
  The scraper of a bet type as the loop meets it: each attempt of the environment
  with the handler of the bet type under the faults of that attempt.
\<close>

definition tanpukuScraper :: "env \<Rightarrow> int \<Rightarrow> nat \<Rightarrow> (OddsData, store \<Rightarrow> outcome) attempt" where
  "tanpukuScraper e rid = (\<lambda>k. under (handleTanpukuOddsUnder rid) (scrapeTanpuku e k))"

definition otherScraper :: "(nat \<Rightarrow> ('a, tries) attempt) \<Rightarrow> ('a list \<Rightarrow> store \<Rightarrow> store option) \<Rightarrow> nat
    \<Rightarrow> ('a, store \<Rightarrow> outcome) attempt" where
  "otherScraper scraper updateMethod = (\<lambda>k. under (handleOtherOddsUnder updateMethod) (scraper k))"

text \<open>
  \<open>for (const betType of oddsTypes)\<close>: the seven loops in the fixed order, each with
  the scraper of its bet type and the store handler that \<open>handleTanpukuOdds\<close> or
  \<open>handleOtherOdds\<close> selects for it.
\<close>

definition collectAll :: "nat \<Rightarrow> env \<Rightarrow> int \<Rightarrow> collector \<Rightarrow> collector run" where
  "collectAll fuel e rid c =
     bindRun (retryLoop fuel tanpuku (tanpukuScraper e rid) (handleTanpukuOdds rid) 0 0 c) (\<lambda>c.
     bindRun (retryLoop fuel wakuren (otherScraper (scrapeWakuren e) updateWakurenOdds)
                updateWakurenOdds 0 0 c) (\<lambda>c.
     bindRun (retryLoop fuel umaren (otherScraper (scrapeUmaren e) updateUmarenOdds)
                updateUmarenOdds 0 0 c) (\<lambda>c.
     bindRun (retryLoop fuel wide (otherScraper (scrapeWide e) updateWideOdds)
                updateWideOdds 0 0 c) (\<lambda>c.
     bindRun (retryLoop fuel umatan (otherScraper (scrapeUmatan e) updateUmatanOdds)
                updateUmatanOdds 0 0 c) (\<lambda>c.
     bindRun (retryLoop fuel fuku3 (otherScraper (scrapeFuku3 e) updateFuku3Odds)
                updateFuku3Odds 0 0 c) (\<lambda>c.
     retryLoop fuel tan3 (otherScraper (scrapeTan3 e) updateTan3Odds) updateTan3Odds 0 0 c))))))"

datatype completion = Normal | Thrown

text \<open>
  The body of the \<open>try\<close> of \<open>collectOdds\<close>. \<open>rel\<close> is the statement
  \<open>this.collectingSemaphore.release()\<close> that the supervisor variant has before its
  two early \<open>return\<close>s; the daily variant has no semaphore and nothing there. The
  browser checks before the lookup (\<open>checkAndResetBrowserIfNeeded\<close>, \<open>healthCheck\<close>,
  \<open>recoverFromError\<close>) catch whatever they throw and write nothing to the store. The
  lookup and the update run inside \<open>withDbRetry\<close>; one that fails for good throws out
  of the body.
\<close>

definition collectOddsBody :: "(collector \<Rightarrow> collector) \<Rightarrow> nat \<Rightarrow> env \<Rightarrow> millis \<Rightarrow> int \<Rightarrow> collector
    \<Rightarrow> (completion \<times> collector) run" where
  "collectOddsBody rel fuel e now rid c0 =
     (let c = sleeps (dbSleeps (lookupFaults e)) c0 in
      if lookupFails e then Finished (Thrown, c)
      else
        (case findRace rid (db c) of
           None \<Rightarrow> Finished (Normal, rel c)
         | Some race \<Rightarrow>
             (if r_status race = ''done'' then Finished (Normal, rel c)
              else if r_startTime race < now \<and> r_status race = ''upcoming'' then
                bindRun (collectAll fuel e rid c) (\<lambda>c1.
                  let c2 = sleeps (dbSleeps (updateFaults e)) c1 in
                  if updateFails e then Finished (Thrown, c2)
                  else Finished (Normal, rel (c2\<lparr>db := setRaceStatus rid ''done'' (db c2)\<rparr>)))
              else
                bindRun (collectAll fuel e rid c) (\<lambda>c1. Finished (Normal, c1)))))"

text \<open>
  Supervisor variant: \<open>acquire\<close>, the body, and \<open>release\<close> in the \<open>finally\<close>, which
  runs after a \<open>return\<close> of the body and after a throw alike.
\<close>

definition collectOdds :: "nat \<Rightarrow> env \<Rightarrow> millis \<Rightarrow> int \<Rightarrow> collector \<Rightarrow> (completion \<times> collector) run" where
  "collectOdds fuel e now rid c =
     (case acquire rid (collectingSemaphore c) of
        (False, sem) \<Rightarrow> Queued sem
      | (True, sem) \<Rightarrow>
          bindRun (collectOddsBody releaseSemaphore fuel e now rid (c\<lparr>collectingSemaphore := sem\<rparr>))
            (\<lambda>(r, c1). Finished (r, releaseSemaphore c1)))"

text \<open>Daily variant: the body alone.\<close>

definition collectOdds_daily :: "nat \<Rightarrow> env \<Rightarrow> millis \<Rightarrow> int \<Rightarrow> collector \<Rightarrow> (completion \<times> collector) run" where
  "collectOdds_daily fuel e now rid c = collectOddsBody (\<lambda>c. c) fuel e now rid c"

subsection \<open>What a pass did\<close>

text \<open>The bet types of the scraper calls among the events, in order.\<close>

fun scraped :: "event list \<Rightarrow> betType list" where
  "scraped [] = []"
| "scraped (Scrape b # es) = b # scraped es"
| "scraped (Sleep d # es) = scraped es"

text \<open>
  A full pass: the scraper was called for every bet type in the fixed order,
  \<open>ns ! i\<close> times in a row for the \<open>i\<close>-th one.
\<close>

fun attempts :: "nat list \<Rightarrow> betType list \<Rightarrow> betType list" where
  "attempts (n # ns) (b # bs) = replicate n b @ attempts ns bs"
| "attempts ns bs = []"

definition fullPass :: "nat list \<Rightarrow> event list \<Rightarrow> event list \<Rightarrow> bool" where
  "fullPass ns before after =
     (length ns = 7 \<and> (\<exists>new. after = before @ new \<and> scraped new = attempts ns oddsTypes))"

text \<open>An attempt that is not a successful scrape of an empty list.\<close>

definition notEmpty :: "('a, 'f) attempt \<Rightarrow> bool" where
  "notEmpty a = (case a of Threw e \<Rightarrow> True | Returned odds fate \<Rightarrow> odds \<noteq> [])"

definition alwaysNotEmpty :: "(nat \<Rightarrow> ('a, 'f) attempt) \<Rightarrow> bool" where
  "alwaysNotEmpty scraper = (\<forall>k. notEmpty (scraper k))"

definition neverEmpty :: "env \<Rightarrow> bool" where
  "neverEmpty e =
     (alwaysNotEmpty (scrapeTanpuku e) \<and> alwaysNotEmpty (scrapeWakuren e) \<and>
      alwaysNotEmpty (scrapeUmaren e) \<and> alwaysNotEmpty (scrapeWide e) \<and>
      alwaysNotEmpty (scrapeUmatan e) \<and> alwaysNotEmpty (scrapeFuku3 e) \<and>
      alwaysNotEmpty (scrapeTan3 e))"

subsection \<open>Example environments\<close>

text \<open>Every call of the scraper throws an error that is not a timeout.\<close>

definition failingEnv :: env where
  "failingEnv =
     \<lparr>scrapeTanpuku = (\<lambda>k. Threw OtherError), scrapeWakuren = (\<lambda>k. Threw OtherError),
      scrapeUmaren = (\<lambda>k. Threw OtherError), scrapeWide = (\<lambda>k. Threw OtherError),
      scrapeUmatan = (\<lambda>k. Threw OtherError), scrapeFuku3 = (\<lambda>k. Threw OtherError),
      scrapeTan3 = (\<lambda>k. Threw OtherError), lookupFaults = (\<lambda>i. False), updateFaults = (\<lambda>i. False)\<rparr>"

text \<open>
  The win-and-place market answers; the page of every other
  market never shows its table, so the scraper throws a timeout there.
\<close>

definition timeoutEnv :: env where
  "timeoutEnv =
     \<lparr>scrapeTanpuku = (\<lambda>k. Returned [horseData 1000 202506020111 runnerCells] None),
      scrapeWakuren = (\<lambda>k. Threw TimeoutError),
      scrapeUmaren = (\<lambda>k. Threw TimeoutError),
      scrapeWide = (\<lambda>k. Threw TimeoutError),
      scrapeUmatan = (\<lambda>k. Threw TimeoutError),
      scrapeFuku3 = (\<lambda>k. Threw TimeoutError),
      scrapeTan3 = (\<lambda>k. Threw TimeoutError), lookupFaults = (\<lambda>i. False), updateFaults = (\<lambda>i. False)\<rparr>"

text \<open>Every call of the scraper succeeds with an empty list.\<close>

definition emptyEnv :: env where
  "emptyEnv =
     \<lparr>scrapeTanpuku = (\<lambda>k. Returned [] None), scrapeWakuren = (\<lambda>k. Returned [] None),
      scrapeUmaren = (\<lambda>k. Returned [] None), scrapeWide = (\<lambda>k. Returned [] None),
      scrapeUmatan = (\<lambda>k. Returned [] None), scrapeFuku3 = (\<lambda>k. Returned [] None),
      scrapeTan3 = (\<lambda>k. Returned [] None), lookupFaults = (\<lambda>i. False), updateFaults = (\<lambda>i. False)\<rparr>"

text \<open>
  The win-and-place market answers; the scraper finds no row on the page of any other
  market and returns the empty list.
\<close>

definition stuckEnv :: env where
  "stuckEnv =
     \<lparr>scrapeTanpuku = (\<lambda>k. Returned [horseData 1000 202506020111 runnerCells] None),
      scrapeWakuren = (\<lambda>k. Returned [] None), scrapeUmaren = (\<lambda>k. Returned [] None),
      scrapeWide = (\<lambda>k. Returned [] None), scrapeUmatan = (\<lambda>k. Returned [] None),
      scrapeFuku3 = (\<lambda>k. Returned [] None), scrapeTan3 = (\<lambda>k. Returned [] None),
      lookupFaults = (\<lambda>i. False), updateFaults = (\<lambda>i. False)\<rparr>"

text \<open>
  Two faults. In \<open>handleTanpukuOdds\<close> the first statement of \<open>saveOddsHistory\<close> fails.
  In \<open>handleOtherOdds\<close> every try of the update method fails at its first statement,
  the query for the stored rows.
\<close>

definition historyFails :: tanpukuFaults where
  "historyFails = \<lparr>horseTries = (\<lambda>j i. None), historyFault = Some (OtherError, \<lambda>s. s)\<rparr>"

definition updateNeverWorks :: tries where
  "updateNeverWorks = (\<lambda>i. Some (OtherError, \<lambda>s. s))"

text \<open>The afternoon race as a row of the races table, and a store that holds it.\<close>

definition afternoonRow :: race_row where
  "afternoonRow =
     \<lparr>r_id = 202506020111, r_name = ''Yayoi Sho G2'', r_venue = ''Nakayama'',
      r_startTime = 1740897600000, r_status = ''upcoming''\<rparr>"

definition oneRace :: collector where
  "oneRace = newCollector\<lparr>db := emptyStore\<lparr>races := [afternoonRow]\<rparr>\<rparr>"

text \<open>
  Every market answers the first call with one quote, and no statement of a handler
  fails.
\<close>

definition answeringEnv :: env where
  "answeringEnv =
     \<lparr>scrapeTanpuku = (\<lambda>k. Returned [horseData 1000 202506020111 runnerCells] None),
      scrapeWakuren = (\<lambda>k. Returned [quote35] None),
      scrapeUmaren = (\<lambda>k. Returned [quote35] None),
      scrapeWide = (\<lambda>k. Returned [wide35] None),
      scrapeUmatan = (\<lambda>k. Returned [quote53] None),
      scrapeFuku3 = (\<lambda>k. Returned [triple853] None),
      scrapeTan3 = (\<lambda>k. Returned [triple853] None),
      lookupFaults = (\<lambda>i. False), updateFaults = (\<lambda>i. False)\<rparr>"

text \<open>The store with one race and the quotes of \<open>answeringEnv\<close>.\<close>

definition answeredStore :: "race_row \<Rightarrow> store" where
  "answeredStore race =
     \<lparr>races = [race],
      horses = [\<lparr>h_id = 1, h_name = ''Equinox'', h_raceId = 202506020111, h_frame = 2,
                 h_number = 3, h_status = ''running''\<rparr>],
      tanOddsHistory = [\<lparr>row_id = 1, row_key = 3, row_val = 2.4, row_timestamp = 1000,
                         row_raceId = 202506020111\<rparr>],
      fukuOdds = [\<lparr>row_id = 1, row_key = 3, row_val = (1.1, 1.3), row_timestamp = 1000,
                   row_raceId = 202506020111\<rparr>],
      wakurenOdds = [\<lparr>row_id = 1, row_key = (3, 5), row_val = 12.3, row_timestamp = 1000,
                      row_raceId = 202506020111\<rparr>],
      umarenOdds = [\<lparr>row_id = 1, row_key = (3, 5), row_val = 12.3, row_timestamp = 1000,
                     row_raceId = 202506020111\<rparr>],
      wideOdds = [\<lparr>row_id = 1, row_key = (3, 5), row_val = (2.1, 2.9), row_timestamp = 1000,
                   row_raceId = 202506020111\<rparr>],
      umatanOdds = [\<lparr>row_id = 1, row_key = (5, 3), row_val = 12.5, row_timestamp = 2000,
                     row_raceId = 202506020111\<rparr>],
      fuku3Odds = [\<lparr>row_id = 1, row_key = (3, 5, 8), row_val = 44.0, row_timestamp = 2000,
                    row_raceId = 202506020111\<rparr>],
      tan3Odds = [\<lparr>row_id = 1, row_key = (8, 5, 3), row_val = 44.0, row_timestamp = 2000,
                   row_raceId = 202506020111\<rparr>]\<rparr>"

subsection \<open>Predicates of the proofs\<close>

text \<open>A store handler that leaves the races table alone.\<close>

definition keepsRaces :: "('a list \<Rightarrow> store \<Rightarrow> store option) \<Rightarrow> bool" where
  "keepsRaces handler = (\<forall>odds s s'. handler odds s = Some s' \<longrightarrow> races s' = races s)"

text \<open>
  One loop from \<open>c\<close> to \<open>c'\<close>: \<open>n\<close> calls of the scraper for the bet type and
  nothing else but sleeps were added to the events, and the races table and the
  semaphore are as before.
\<close>

definition loopPost :: "betType \<Rightarrow> nat \<Rightarrow> collector \<Rightarrow> collector \<Rightarrow> bool" where
  "loopPost b n c c' =
     ((\<exists>new. events c' = events c @ new \<and> scraped new = replicate n b) \<and>
      races (db c') = races (db c) \<and> collectingSemaphore c' = collectingSemaphore c)"

section \<open>The scheduler\<close>

text \<open>
  The source holds two revisions of \<open>DailyOddsCollector\<close>: the daily one and the
  supervisor one (with the semaphore). Where they differ the model takes the
  revision as a parameter.
\<close>

datatype variant = Daily | Supervisor

definition collectionStartOf :: "variant \<Rightarrow> millis \<Rightarrow> RaceInfo \<Rightarrow> millis option" where
  "collectionStartOf v tz race =
     (case v of Daily \<Rightarrow> collectionStartTime_daily tz race
              | Supervisor \<Rightarrow> collectionStartTimeUTC tz race)"

definition collectOddsOf :: "variant \<Rightarrow> nat \<Rightarrow> env \<Rightarrow> millis \<Rightarrow> int \<Rightarrow> collector \<Rightarrow> (completion \<times> collector) run" where
  "collectOddsOf v = (case v of Daily \<Rightarrow> collectOdds_daily | Supervisor \<Rightarrow> collectOdds)"

text \<open>
  \<open>activeJobs\<close> maps a race to its job. A job is the cron rule, the same for every
  job, and the callback, which closes over the \<open>RaceInfo\<close> it was scheduled with;
  so the job is modelled by that \<open>RaceInfo\<close>. A job leaves the map whenever it is
  cancelled, and the rule always has a next invocation, so \<open>checkAndRestoreJobs\<close>,
  which drops jobs without one, changes nothing.
\<close>

record scheduler =
  collectorOf :: collector
  activeJobs :: "int \<rightharpoonup> RaceInfo"

definition newScheduler :: scheduler where
  "newScheduler = \<lparr>collectorOf = newCollector, activeJobs = Map.empty\<rparr>"

text \<open>
  The outside of the scheduler: the environment that the call of \<open>collectOdds\<close> for
  a race meets, and which tries of the query for the upcoming races, inside its
  \<open>withDbRetry\<close>, fail. The clock does not advance during one operation.
\<close>

record world =
  envOf :: "int \<Rightarrow> env"
  findManyFaults :: "nat \<Rightarrow> bool"

definition findManyFails :: "world \<Rightarrow> bool" where
  "findManyFails w = dbFails (findManyFaults w)"

definition sleepsOf :: "nat \<Rightarrow> scheduler \<Rightarrow> scheduler" where
  "sleepsOf n sch = sch\<lparr>collectorOf := sleeps n (collectorOf sch)\<rparr>"

definition registerRace :: "RaceInfo \<Rightarrow> store \<Rightarrow> store" where
  "registerRace race s =
     (case findRace (raceInfo_id race) s of
        None \<Rightarrow>
          s\<lparr>races := races s @
            [\<lparr>r_id = raceInfo_id race, r_name = name race, r_venue = venue race,
              r_startTime = startTime race, r_status = ''upcoming''\<rparr>]\<rparr>
      | Some existingRace \<Rightarrow> s)"

text \<open>
  The callback of a race's job. A throw inside it is caught by the callback
  (\<open>recoverFromError\<close> resets the browser and writes nothing to the store).
\<close>

definition scheduledJob :: "variant \<Rightarrow> millis \<Rightarrow> env \<Rightarrow> nat \<Rightarrow> millis \<Rightarrow> RaceInfo \<Rightarrow> scheduler \<Rightarrow> scheduler run" where
  "scheduledJob v tz e fuel now race sch =
     (case firingDecision tz race (collectionStartOf v tz race) now of
        Waiting \<Rightarrow> Finished sch
      | Skip \<Rightarrow> Finished sch
      | Collect \<Rightarrow>
          bindRun (collectOddsOf v fuel e now (raceInfo_id race) (collectorOf sch))
            (\<lambda>(r, c). Finished (sch\<lparr>collectorOf := c\<rparr>))
      | Retire \<Rightarrow>
          (let sch1 = sleepsOf (dbSleeps (lookupFaults e))
                        (sch\<lparr>activeJobs := (activeJobs sch)(raceInfo_id race := None)\<rparr>)
           in
           if lookupFails e then Finished sch1
           else
             (case findRace (raceInfo_id race) (db (collectorOf sch1)) of
                None \<Rightarrow> Finished sch1
              | Some currentRace \<Rightarrow>
                  (if r_status currentRace = ''upcoming'' then
                     (let sch2 = sleepsOf (dbSleeps (updateFaults e)) sch1;
                          c = collectorOf sch2 in
                      if updateFails e then Finished sch2
                      else Finished (sch2\<lparr>collectorOf :=
                             c\<lparr>db := setRaceStatus (raceInfo_id race) ''done'' (db c)\<rparr>\<rparr>))
                   else Finished sch1))))"

text \<open>
  \<open>scheduleOddsCollection\<close>: an existing job of the race is cancelled and deleted,
  the new job is stored, and the immediate collection runs unless the gate forbids
  it. A throw of \<open>collectOdds\<close> is caught (the method then returns \<open>false\<close>).
\<close>

definition scheduleOddsCollection :: "variant \<Rightarrow> millis \<Rightarrow> env \<Rightarrow> nat \<Rightarrow> millis \<Rightarrow> RaceInfo \<Rightarrow> scheduler \<Rightarrow> scheduler run" where
  "scheduleOddsCollection v tz e fuel now race sch =
     (let jobs0 = (activeJobs sch)(raceInfo_id race := None);
          sch1 = sch\<lparr>activeJobs := jobs0(raceInfo_id race \<mapsto> race)\<rparr>
      in if initialCollection race (collectionStartOf v tz race) now then
           bindRun (collectOddsOf v fuel e now (raceInfo_id race) (collectorOf sch1))
             (\<lambda>(r, c). Finished (sch1\<lparr>collectorOf := c\<rparr>))
         else Finished sch1)"

text \<open>\<open>s.includes(sub)\<close>\<close>

fun includes_str :: "string \<Rightarrow> string \<Rightarrow> bool" where
  "includes_str [] sub = (sub = [])"
| "includes_str (ch # s) sub = (take (length sub) (ch # s) = sub \<or> includes_str s sub)"

text \<open>The \<open>RaceInfo\<close> that \<open>checkAndRestoreRaceJobs\<close> builds from a stored race.\<close>

definition restoredRaceInfo :: "variant \<Rightarrow> race_row \<Rightarrow> RaceInfo" where
  "restoredRaceInfo v race =
     \<lparr>raceInfo_id = r_id race, name = r_name race, venue = r_venue race,
      startTime = r_startTime race,
      isGrade = (case v of
                   Daily \<Rightarrow> True
                 | Supervisor \<Rightarrow> includes_str (r_name race) ''G1'' \<or> includes_str (r_name race) ''G2''
                     \<or> includes_str (r_name race) ''G3'')\<rparr>"

fun restoreLoop :: "variant \<Rightarrow> millis \<Rightarrow> world \<Rightarrow> nat \<Rightarrow> millis \<Rightarrow> race_row list \<Rightarrow> scheduler \<Rightarrow> scheduler run" where
  "restoreLoop v tz w fuel now [] sch = Finished sch"
| "restoreLoop v tz w fuel now (race # rs) sch =
     (if activeJobs sch (r_id race) \<noteq> None then restoreLoop v tz w fuel now rs sch
      else
        bindRun (scheduleOddsCollection v tz (envOf w (r_id race)) fuel now
                   (restoredRaceInfo v race) sch)
          (restoreLoop v tz w fuel now rs))"

text \<open>
  \<open>checkAndRestoreRaceJobs\<close>: the upcoming races are read once, then the loop runs
  over that list. A query that fails for good is caught and nothing is restored.
\<close>

definition checkAndRestoreRaceJobs :: "variant \<Rightarrow> millis \<Rightarrow> world \<Rightarrow> nat \<Rightarrow> millis \<Rightarrow> scheduler \<Rightarrow> scheduler run" where
  "checkAndRestoreRaceJobs v tz w fuel now sch0 =
     (let sch = sleepsOf (dbSleeps (findManyFaults w)) sch0 in
      if findManyFails w then Finished sch
      else restoreLoop v tz w fuel now (upcomingRaces (db (collectorOf sch))) sch)"

text \<open>
  \<open>getTodayGradeRaces\<close>, for a grade race whose time cell says that the race has
  started: the status is set and the race is not returned.
\<close>

definition raceAlreadyStarted :: "int \<Rightarrow> scheduler \<Rightarrow> scheduler" where
  "raceAlreadyStarted rid sch =
     sch\<lparr>collectorOf := (collectorOf sch)\<lparr>db := setRaceStatus rid ''done'' (db (collectorOf sch))\<rparr>\<rparr>"

text \<open>The semaphore has a free slot and nobody waits.\<close>

definition idle :: "collector \<Rightarrow> bool" where
  "idle c = (running (collectingSemaphore c) < maxConcurrent \<and> queue (collectingSemaphore c) = [])"

text \<open>No call of the scraper for any race returns an empty list.\<close>

definition worldNeverEmpty :: "world \<Rightarrow> bool" where
  "worldNeverEmpty w = (\<forall>rid. neverEmpty (envOf w rid))"

subsection \<open>Example schedulers\<close>

definition failingWorld :: world where
  "failingWorld = \<lparr>envOf = (\<lambda>rid. failingEnv), findManyFaults = (\<lambda>i. False)\<rparr>"

text \<open>A store that holds the morning race, whose name has no grade mark, and no job.\<close>

definition morningRow :: race_row where
  "morningRow =
     \<lparr>r_id = 202506020101, r_name = ''Maiden'', r_venue = ''Nakayama'',
      r_startTime = 1740877200000, r_status = ''upcoming''\<rparr>"

definition afterRestart :: scheduler where
  "afterRestart =
     newScheduler\<lparr>collectorOf := newCollector\<lparr>db := emptyStore\<lparr>races := [morningRow]\<rparr>\<rparr>\<rparr>"

text \<open>
  A scheduler whose store holds the afternoon race: without a job, and with the job
  that registration gave it.
\<close>

definition tracked :: scheduler where
  "tracked = \<lparr>collectorOf = oneRace, activeJobs = Map.empty\<rparr>"

definition scheduled :: scheduler where
  "scheduled = \<lparr>collectorOf = oneRace, activeJobs = [202506020111 \<mapsto> afternoonRace]\<rparr>"

section \<open>Cadence\<close>

lemma shouldCollect_after_post: "T \<le> 0 \<Longrightarrow> shouldCollect g T m"
  by (simp add: shouldCollect_def)

lemma shouldCollect_grade:
  "0 < T \<Longrightarrow> shouldCollect True T m =
     (if T \<le> 30 * MINUTE then True
      else if T \<le> 3 * HOUR then m mod 10 = 0
      else if T \<le> 12 * HOUR then m mod 30 = 0
      else m = 0)"
  by (simp add: shouldCollect_def MINUTE_def HOUR_def)

lemma shouldCollect_plain:
  "0 < T \<Longrightarrow> shouldCollect False T m =
     (if T \<le> 30 * MINUTE then m mod 10 = 0 else m mod 30 = 0)"
  by (simp add: shouldCollect_def MINUTE_def HOUR_def)

text \<open>
  C2. The decision of a firing, by grade flag, time to post \<open>T\<close> and minute of the hour
  \<open>m\<close>. Grade race: always when \<open>T \<le> 30 min\<close>; every tenth minute when
  \<open>30 min < T \<le> 3 h\<close>; every thirtieth minute when \<open>3 h < T \<le> 12 h\<close>; at minute 0
  when \<open>T > 12 h\<close>. Other race: every tenth minute when \<open>T \<le> 30 min\<close>, every
  thirtieth minute otherwise. Whenever \<open>T \<le> 0\<close> the firing collects, whatever the
  minute. A firing whose gate is open and whose race is inside the final-odds window
  calls \<open>collectOdds\<close> exactly when the decision is to collect.
\<close>

theorem cadence_policy:
  "(T \<le> 0 \<longrightarrow> shouldCollect g T m) \<and>
   (T \<le> 30 * MINUTE \<longrightarrow> shouldCollect True T m) \<and>
   (30 * MINUTE < T \<and> T \<le> 3 * HOUR \<longrightarrow> shouldCollect True T m = (m mod 10 = 0)) \<and>
   (3 * HOUR < T \<and> T \<le> 12 * HOUR \<longrightarrow> shouldCollect True T m = (m mod 30 = 0)) \<and>
   (12 * HOUR < T \<longrightarrow> shouldCollect True T m = (m = 0)) \<and>
   (0 < T \<and> T \<le> 30 * MINUTE \<longrightarrow> shouldCollect False T m = (m mod 10 = 0)) \<and>
   (30 * MINUTE < T \<longrightarrow> shouldCollect False T m = (m mod 30 = 0)) \<and>
   (\<not> gateClosed race gate now \<and> - FINAL_ODDS_WINDOW < startTime race - now \<longrightarrow>
      (firingDecision tz race gate now = Collect) =
        shouldCollect (isGrade race) (startTime race - now) (getMinutes tz now))"
proof -
  have a: "T \<le> 0 \<longrightarrow> shouldCollect g T m"
    by (simp add: shouldCollect_after_post)
  have b: "T \<le> 30 * MINUTE \<longrightarrow> shouldCollect True T m"
    by (simp add: shouldCollect_def MINUTE_def)
  have c: "30 * MINUTE < T \<and> T \<le> 3 * HOUR \<longrightarrow> shouldCollect True T m = (m mod 10 = 0)"
    by (simp add: shouldCollect_def MINUTE_def HOUR_def)
  have d: "3 * HOUR < T \<and> T \<le> 12 * HOUR \<longrightarrow> shouldCollect True T m = (m mod 30 = 0)"
    by (simp add: shouldCollect_def MINUTE_def HOUR_def)
  have e: "12 * HOUR < T \<longrightarrow> shouldCollect True T m = (m = 0)"
    by (simp add: shouldCollect_def MINUTE_def HOUR_def)
  have f: "0 < T \<and> T \<le> 30 * MINUTE \<longrightarrow> shouldCollect False T m = (m mod 10 = 0)"
    by (simp add: shouldCollect_def MINUTE_def HOUR_def)
  have g: "30 * MINUTE < T \<longrightarrow> shouldCollect False T m = (m mod 30 = 0)"
    by (simp add: shouldCollect_def MINUTE_def HOUR_def)
  have h: "\<not> gateClosed race gate now \<and> - FINAL_ODDS_WINDOW < startTime race - now \<longrightarrow>
      (firingDecision tz race gate now = Collect) =
        shouldCollect (isGrade race) (startTime race - now) (getMinutes tz now)"
    by (simp add: firingDecision_def Let_def)
  from a b c d e f g h show ?thesis by blast
qed

text \<open>
  Instances: a grade race 20 minutes before post collects at any minute; a grade race
  150 minutes before post collects at minute 40 (40 is a multiple of 10) and not at
  minute 45; a race without grade 45 minutes before post collects at minute 30; any
  race collects once post time is reached.
\<close>

theorem cadence_policy_witness:
  "shouldCollect True (20 * MINUTE) 35 \<and>
   shouldCollect True (150 * MINUTE) 40 \<and>
   \<not> shouldCollect True (150 * MINUTE) 45 \<and>
   shouldCollect True (6 * HOUR) 30 \<and>
   \<not> shouldCollect True (6 * HOUR) 40 \<and>
   shouldCollect True (20 * HOUR) 0 \<and>
   \<not> shouldCollect True (20 * HOUR) 30 \<and>
   shouldCollect False (45 * MINUTE) 30 \<and>
   \<not> shouldCollect False (20 * MINUTE) 35 \<and>
   shouldCollect False (- 2 * MINUTE) 35"
  using cadence_policy [of "20 * MINUTE" True 35]
    cadence_policy [of "150 * MINUTE" True 40]
    cadence_policy [of "150 * MINUTE" True 45]
    cadence_policy [of "6 * HOUR" True 30]
    cadence_policy [of "6 * HOUR" True 40]
    cadence_policy [of "20 * HOUR" True 0]
    cadence_policy [of "20 * HOUR" True 30]
    cadence_policy [of "45 * MINUTE" False 30]
    cadence_policy [of "20 * MINUTE" False 35]
    cadence_policy [of "- 2 * MINUTE" False 35]
  by (simp add: MINUTE_def HOUR_def)

section \<open>Combination keys\<close>

lemmas upsert_eval =
  upsertOdds_def existingFor_def applyUpdate_def rowsFor_def nextId_def emptyStore_def

text \<open>
  C3 at a failing input. The unordered pair of horses 3 and 5 is upserted as (3, 5)
  and then as (5, 3) into an empty store. \<open>updateUmarenOdds\<close>, \<open>updateWideOdds\<close>
  and \<open>updateWakurenOdds\<close> build the key from the pair as given, so the second
  upsert finds no row and inserts one: the table holds two rows for the one
  combination. \<open>updateFuku3Odds\<close> sorts the triple first and keeps one row.
\<close>

theorem pair_upsert_order_rows:
  "map_option (\<lambda>s. length (rowsFor 202506020111 {(3, 5), (5, 3)} (umarenOdds s)))
     (Option.bind (updateUmarenOdds [quote35] emptyStore) (updateUmarenOdds [quote53])) = Some 2 \<and>
   map_option (\<lambda>s. length (rowsFor 202506020111 {(3, 5), (5, 3)} (wideOdds s)))
     (Option.bind (updateWideOdds [wide35] emptyStore) (updateWideOdds [wide53])) = Some 2 \<and>
   map_option (\<lambda>s. length (rowsFor 202506020111 {(3, 5), (5, 3)} (wakurenOdds s)))
     (Option.bind (updateWakurenOdds [quote35] emptyStore) (updateWakurenOdds [quote53])) = Some 2 \<and>
   map_option (\<lambda>s. map row_key (rowsFor 202506020111 UNIV (fuku3Odds s)))
     (Option.bind (updateFuku3Odds [triple358] emptyStore) (updateFuku3Odds [triple853]))
       = Some [(3, 5, 8)]"
  by (simp add: updateUmarenOdds_def updateWideOdds_def updateWakurenOdds_def updateFuku3Odds_def
      sortHorses_def quote35_def quote53_def wide35_def wide53_def triple358_def triple853_def
      upsert_eval)

section \<open>Scratched horses\<close>

lemma odds_key_absent: "getProp (horseDataObject od) ''odds'' = None"
  by (simp add: getProp_def horseDataObject_def)

lemma never_torikeshi: "\<not> oddsIsTorikeshi od"
  by (simp add: oddsIsTorikeshi_def odds_key_absent)

lemma handleHorses_appends:
  "\<exists>new. handleHorses rid odds hs = hs @ new \<and> list_all (\<lambda>h. h_status h = ''running'') new"
proof (induction odds arbitrary: hs)
  case Nil
  show ?case by simp
next
  case (Cons od odds)
  show ?case
  proof (cases "find (\<lambda>h. h_name h = horseName od \<and> h_raceId h = rid) hs")
    case None
    let ?row = "\<lparr>h_id = nextId (map h_id hs), h_name = horseName od, h_raceId = rid,
                 h_frame = frame od, h_number = number od, h_status = ''running''\<rparr>"
    from Cons.IH [of "hs @ [?row]"] obtain new where
      n: "handleHorses rid odds (hs @ [?row]) = (hs @ [?row]) @ new"
        "list_all (\<lambda>h. h_status h = ''running'') new"
      by blast
    have "handleHorses rid (od # odds) hs = hs @ (?row # new)"
      using None n(1) by (simp add: never_torikeshi)
    moreover have "list_all (\<lambda>h. h_status h = ''running'') (?row # new)"
      using n(2) by simp
    ultimately show ?thesis by blast
  next
    case (Some existingHorse)
    then have "handleHorses rid (od # odds) hs = handleHorses rid odds hs"
      by (simp add: never_torikeshi)
    with Cons.IH [of hs] show ?thesis by simp
  qed
qed

lemma find_append:
  "find P (xs @ ys) = (case find P xs of None \<Rightarrow> find P ys | Some x \<Rightarrow> Some x)"
  by (induction xs) simp_all

lemma handleHorses_known:
  "find P hs = Some h \<Longrightarrow> find P (handleHorses rid odds hs) = Some h"
  using handleHorses_appends [of rid odds hs] by (auto simp: find_append)

lemma handleHorses_row:
  "od \<in> set odds \<Longrightarrow> find (\<lambda>h. h_name h = horseName od \<and> h_raceId h = rid) hs = None \<Longrightarrow>
   \<exists>i od1. find (\<lambda>x. horseName x = horseName od) odds = Some od1 \<and>
     find (\<lambda>h. h_name h = horseName od \<and> h_raceId h = rid) (handleHorses rid odds hs)
       = Some \<lparr>h_id = i, h_name = horseName od, h_raceId = rid, h_frame = frame od1,
               h_number = number od1, h_status = ''running''\<rparr>"
proof (induction odds arbitrary: hs)
  case Nil
  then show ?case by simp
next
  case (Cons od0 odds)
  let ?P = "\<lambda>h. h_name h = horseName od \<and> h_raceId h = rid"
  let ?row = "\<lparr>h_id = nextId (map h_id hs), h_name = horseName od0, h_raceId = rid,
               h_frame = frame od0, h_number = number od0, h_status = ''running''\<rparr>"
  show ?case
  proof (cases "horseName od0 = horseName od")
    case True
    with Cons.prems(2) have "handleHorses rid (od0 # odds) hs = handleHorses rid odds (hs @ [?row])"
      by (simp add: never_torikeshi)
    moreover have "find ?P (hs @ [?row]) = Some ?row"
      using Cons.prems(2) True by (simp add: find_append)
    ultimately have "find ?P (handleHorses rid (od0 # odds) hs) = Some ?row"
      by (simp add: handleHorses_known)
    with True show ?thesis by simp
  next
    case False
    with Cons.prems(1) have m: "od \<in> set odds" by auto
    let ?hs' = "case find (\<lambda>h. h_name h = horseName od0 \<and> h_raceId h = rid) hs of
                  None \<Rightarrow> hs @ [?row] | Some existingHorse \<Rightarrow> hs"
    have step: "handleHorses rid (od0 # odds) hs = handleHorses rid odds ?hs'"
      by (simp add: never_torikeshi split: option.splits)
    have "find ?P ?hs' = None"
      using Cons.prems(2) False by (simp add: find_append split: option.splits)
    from Cons.IH [OF m this] False step show ?thesis by simp
  qed
qed

lemma handleHorses_has_row:
  assumes "od \<in> set odds"
  shows "case find (\<lambda>h. h_name h = horseName od \<and> h_raceId h = rid) (handleHorses rid odds hs) of
       None \<Rightarrow> False
     | Some h \<Rightarrow>
         (case find (\<lambda>h. h_name h = horseName od \<and> h_raceId h = rid) hs of
            Some h0 \<Rightarrow> h = h0
          | None \<Rightarrow>
              h_status h = ''running'' \<and>
              map_option (\<lambda>x. (frame x, number x)) (find (\<lambda>x. horseName x = horseName od) odds)
                = Some (h_frame h, h_number h))"
proof (cases "find (\<lambda>h. h_name h = horseName od \<and> h_raceId h = rid) hs")
  case None
  from handleHorses_row [OF assms None] None show ?thesis by auto
next
  case (Some h0)
  from handleHorses_known [OF Some] Some show ?thesis by simp
qed

lemma handleTanpukuOdds_horses:
  "handleTanpukuOdds rid odds s = Some s' \<Longrightarrow> horses s' = handleHorses rid odds (horses s)"
  by (auto simp: handleTanpukuOdds_def saveOddsHistory_def Let_def)

lemma handleTanpukuOdds_some:
  "odds \<noteq> [] \<Longrightarrow> \<exists>s'. handleTanpukuOdds rid odds s = Some s'"
  by (cases odds) (simp_all add: handleTanpukuOdds_def saveOddsHistory_def upsertOdds_def Let_def)

lemma parseRows_canceled:
  "list_all (\<lambda>od. status od = ''scratched'' \<longrightarrow> tanOdds od = - 1) (parseRows now rid seen cells)"
  by (induction cells arbitrary: seen) (simp_all add: horseData_def)

text \<open>
  C10. For the list \<open>odds\<close> that the win-and-place parser produces from any rows, no
  element has the key \<open>odds\<close>, so neither test of \<open>odd.odds\<close> against the word for
  a scratched horse succeeds. The loop of \<open>handleTanpukuOdds\<close> over the horses
  table appends rows and changes none, and every row that it appends has the
  status \<open>running\<close>. After the loop every element of \<open>odds\<close> has a row of its name
  and race: for a horse that the table knew, the row that was there, unchanged;
  for a horse that it did not know, a new row with the status \<open>running\<close> and the
  frame and the number of the first element of that name. The handler, which
  returns for every non-empty list, leaves the horses table as the loop made it.
  The parser marks a scratched horse by the status \<open>scratched\<close> and win odds \<open>-1\<close>
  instead, which the horses table never receives.
\<close>

theorem tanpuku_never_scratched:
  "odds = parseTanpukuOdds now rid cells \<longrightarrow>
     list_all (\<lambda>od. getProp (horseDataObject od) ''odds'' = None) odds \<and>
     list_all (\<lambda>od. status od = ''scratched'' \<longrightarrow> tanOdds od = - 1) odds \<and>
     (\<exists>new. handleHorses rid odds hs = hs @ new \<and>
        list_all (\<lambda>h. h_status h = ''running'') new) \<and>
     list_all (\<lambda>od.
        case find (\<lambda>h. h_name h = horseName od \<and> h_raceId h = rid) (handleHorses rid odds hs) of
          None \<Rightarrow> False
        | Some h \<Rightarrow>
            (case find (\<lambda>h. h_name h = horseName od \<and> h_raceId h = rid) hs of
               Some h0 \<Rightarrow> h = h0
             | None \<Rightarrow>
                 h_status h = ''running'' \<and>
                 map_option (\<lambda>x. (frame x, number x))
                   (find (\<lambda>x. horseName x = horseName od) odds)
                   = Some (h_frame h, h_number h))) odds \<and>
     (odds \<noteq> [] \<longrightarrow> (\<exists>s'. handleTanpukuOdds rid odds s = Some s')) \<and>
     (\<forall>s'. handleTanpukuOdds rid odds s = Some s' \<longrightarrow>
        horses s' = handleHorses rid odds (horses s) \<and>
        (\<exists>new. horses s' = horses s @ new \<and> list_all (\<lambda>h. h_status h = ''running'') new))"
proof
  assume o: "odds = parseTanpukuOdds now rid cells"
  have a: "list_all (\<lambda>od. getProp (horseDataObject od) ''odds'' = None) odds"
    by (simp add: list_all_iff odds_key_absent)
  have b: "list_all (\<lambda>od. status od = ''scratched'' \<longrightarrow> tanOdds od = - 1) odds"
    unfolding o parseTanpukuOdds_def by (rule parseRows_canceled)
  have c: "\<exists>new. handleHorses rid odds hs = hs @ new \<and>
        list_all (\<lambda>h. h_status h = ''running'') new"
    by (rule handleHorses_appends)
  have r: "list_all (\<lambda>od.
        case find (\<lambda>h. h_name h = horseName od \<and> h_raceId h = rid) (handleHorses rid odds hs) of
          None \<Rightarrow> False
        | Some h \<Rightarrow>
            (case find (\<lambda>h. h_name h = horseName od \<and> h_raceId h = rid) hs of
               Some h0 \<Rightarrow> h = h0
             | None \<Rightarrow>
                 h_status h = ''running'' \<and>
                 map_option (\<lambda>x. (frame x, number x))
                   (find (\<lambda>x. horseName x = horseName od) odds)
                   = Some (h_frame h, h_number h))) odds"
    unfolding list_all_iff using handleHorses_has_row [of _ odds rid hs] by blast
  have t: "odds \<noteq> [] \<longrightarrow> (\<exists>s'. handleTanpukuOdds rid odds s = Some s')"
    by (simp add: handleTanpukuOdds_some)
  have d: "\<forall>s'. handleTanpukuOdds rid odds s = Some s' \<longrightarrow>
        horses s' = handleHorses rid odds (horses s) \<and>
        (\<exists>new. horses s' = horses s @ new \<and> list_all (\<lambda>h. h_status h = ''running'') new)"
    using handleHorses_appends [of rid odds "horses s"] by (auto dest: handleTanpukuOdds_horses)
  from a b c r t d show "list_all (\<lambda>od. getProp (horseDataObject od) ''odds'' = None) odds \<and>
     list_all (\<lambda>od. status od = ''scratched'' \<longrightarrow> tanOdds od = - 1) odds \<and>
     (\<exists>new. handleHorses rid odds hs = hs @ new \<and>
        list_all (\<lambda>h. h_status h = ''running'') new) \<and>
     list_all (\<lambda>od.
        case find (\<lambda>h. h_name h = horseName od \<and> h_raceId h = rid) (handleHorses rid odds hs) of
          None \<Rightarrow> False
        | Some h \<Rightarrow>
            (case find (\<lambda>h. h_name h = horseName od \<and> h_raceId h = rid) hs of
               Some h0 \<Rightarrow> h = h0
             | None \<Rightarrow>
                 h_status h = ''running'' \<and>
                 map_option (\<lambda>x. (frame x, number x))
                   (find (\<lambda>x. horseName x = horseName od) odds)
                   = Some (h_frame h, h_number h))) odds \<and>
     (odds \<noteq> [] \<longrightarrow> (\<exists>s'. handleTanpukuOdds rid odds s = Some s')) \<and>
     (\<forall>s'. handleTanpukuOdds rid odds s = Some s' \<longrightarrow>
        horses s' = handleHorses rid odds (horses s) \<and>
        (\<exists>new. horses s' = horses s @ new \<and> list_all (\<lambda>h. h_status h = ''running'') new))"
    by (intro conjI)
qed

text \<open>
  A runner and a scratched horse, parsed and handled on the empty store: the parser's
  element for the scratched horse says \<open>scratched\<close>, and the horses table gets a
  row for each of the two, both \<open>running\<close>, with the parsed frame and number.
\<close>

theorem tanpuku_never_scratched_witness:
  "map status (parseTanpukuOdds 1000 202506020111 [runnerCells, scratchedCells])
     = [''running'', ''scratched''] \<and>
   map_option horses
     (handleTanpukuOdds 202506020111
        (parseTanpukuOdds 1000 202506020111 [runnerCells, scratchedCells]) emptyStore)
     = Some [\<lparr>h_id = 1, h_name = ''Equinox'', h_raceId = 202506020111, h_frame = 2,
              h_number = 3, h_status = ''running''\<rparr>,
             \<lparr>h_id = 2, h_name = ''Panthalassa'', h_raceId = 202506020111, h_frame = 3,
              h_number = 5, h_status = ''running''\<rparr>]"
proof -
  have p: "map status (parseTanpukuOdds 1000 202506020111 [runnerCells, scratchedCells])
     = [''running'', ''scratched'']"
    by (simp add: parseTanpukuOdds_def horseData_def runnerCells_def scratchedCells_def)
  have h: "handleHorses 202506020111
        (parseTanpukuOdds 1000 202506020111 [runnerCells, scratchedCells]) []
     = [\<lparr>h_id = 1, h_name = ''Equinox'', h_raceId = 202506020111, h_frame = 2,
              h_number = 3, h_status = ''running''\<rparr>,
             \<lparr>h_id = 2, h_name = ''Panthalassa'', h_raceId = 202506020111, h_frame = 3,
              h_number = 5, h_status = ''running''\<rparr>]"
    by (simp add: parseTanpukuOdds_def horseData_def runnerCells_def scratchedCells_def
        never_torikeshi nextId_def)
  have e: "parseTanpukuOdds 1000 202506020111 [runnerCells, scratchedCells] \<noteq> []"
    "horses emptyStore = []"
    by (simp_all add: parseTanpukuOdds_def emptyStore_def runnerCells_def scratchedCells_def)
  from tanpuku_never_scratched
    [of "parseTanpukuOdds 1000 202506020111 [runnerCells, scratchedCells]" 1000 202506020111
        "[runnerCells, scratchedCells]" "[]" emptyStore] p h e
  show ?thesis by auto
qed

section \<open>The retry loop\<close>

lemma scraped_append: "scraped (xs @ ys) = scraped xs @ scraped ys"
  by (induction xs rule: scraped.induct) simp_all

lemma withDbRetry_no_fault [simp]:
  "dbSleeps (\<lambda>i. False) = 0" "\<not> dbFails (\<lambda>i. False)"
  by (simp_all add: dbSleeps_def dbFails_def withDbRetry_def MAX_RETRIES_def numeral_3_eq_3)

lemma sleeps_simps [simp]:
  "db (sleeps n c) = db c"
  "collectingSemaphore (sleeps n c) = collectingSemaphore c"
  "events (sleeps n c) = events c @ replicate n (Sleep RETRY_DELAY)"
  by (simp_all add: sleeps_def)

lemma sleeps_0 [simp]: "sleeps 0 c = c"
  by (simp add: sleeps_def)

lemma scraped_sleeps [simp]: "scraped (replicate n (Sleep d)) = []"
  by (induction n) simp_all

lemma runHandler_races:
  assumes "keepsRaces handler"
  shows "runHandler handler odds fate s = (err, s', n) \<Longrightarrow> races s' = races s"
  using assms by (auto simp: runHandler_def keepsRaces_def Let_def split: option.splits prod.splits)

lemma retryLoop_0: "r < 3 \<Longrightarrow> retryLoop 0 b scr h k r c = OutOfFuel (events c)"
  by (simp add: MAX_RETRIES_def)

lemma retryLoop_exit: "\<not> r < 3 \<Longrightarrow> retryLoop fuel b scr h k r c = Finished c"
  by (cases fuel) (simp_all add: MAX_RETRIES_def)

lemma retryLoop_Suc:
  "r < 3 \<Longrightarrow> retryLoop (Suc fuel) b scr h k r c =
     (case scr k of
        Returned odds fate \<Rightarrow>
          (if odds = [] then retryLoop fuel b scr h (Suc k) r (logEvent (Scrape b) c)
           else
             (case runHandler h odds fate (db c) of
                (err, s', n) \<Rightarrow>
                  (if err = None \<or> err = Some TimeoutError \<or> r = 2
                   then Finished (sleeps n ((logEvent (Scrape b) c)\<lparr>db := s'\<rparr>))
                   else retryLoop fuel b scr h (Suc k) (Suc r)
                          (logEvent (Sleep RETRY_DELAY)
                             (sleeps n ((logEvent (Scrape b) c)\<lparr>db := s'\<rparr>))))))
      | Threw e \<Rightarrow>
          (if r = 2 then Finished (logEvent (Scrape b) c)
           else retryLoop fuel b scr h (Suc k) (Suc r)
                  (logEvent (Sleep RETRY_DELAY) (logEvent (Scrape b) c))))"
  by (auto simp: MAX_RETRIES_def Let_def logEvent_def split: attempt.splits option.splits prod.splits)

declare retryLoop.simps [simp del]

lemma loopPost_trans:
  "loopPost b n c c1 \<Longrightarrow> loopPost b m c1 c' \<Longrightarrow> loopPost b (n + m) c c'"
  unfolding loopPost_def
  by (elim conjE exE, intro conjI, rule_tac x = "new @ newa" in exI)
     (simp_all add: scraped_append replicate_add)

lemma loopPost_step:
  "loopPost b n (logEvent (Scrape b) c) c' \<Longrightarrow> loopPost b (Suc n) c c'"
  by (auto simp: loopPost_def logEvent_def)

lemma loopPost_sleep:
  "loopPost b n (logEvent (Sleep d) c) c' \<Longrightarrow> loopPost b n c c'"
  by (auto simp: loopPost_def logEvent_def)

lemma loopPost_now: "loopPost b (Suc 0) c (logEvent (Scrape b) c)"
  by (simp add: loopPost_def logEvent_def)

lemma loopPost_handled:
  "races s' = races (db c) \<Longrightarrow>
   loopPost b (Suc 0) c (sleeps n ((logEvent (Scrape b) c)\<lparr>db := s'\<rparr>))"
  by (simp add: loopPost_def logEvent_def)

lemma loopPost_handled_again:
  assumes "races s' = races (db c)"
    and "loopPost b m (logEvent (Sleep d) (sleeps n ((logEvent (Scrape b) c)\<lparr>db := s'\<rparr>))) c'"
  shows "loopPost b (Suc m) c c'"
  using loopPost_trans [OF loopPost_handled [OF assms(1)] loopPost_sleep [OF assms(2)]]
  by simp

lemma retryLoop_finished:
  assumes hp: "keepsRaces handler"
  shows "retryLoop fuel b scr handler k r c = Finished c' \<Longrightarrow> r < 3 \<Longrightarrow>
     \<exists>n. 1 \<le> n \<and> loopPost b n c c'"
proof (induction fuel arbitrary: k r c)
  case 0
  then show ?case by (simp add: retryLoop_0)
next
  case (Suc fuel)
  let ?c1 = "logEvent (Scrape b) c"
  let ?c2 = "logEvent (Sleep RETRY_DELAY) ?c1"
  note run = Suc.prems(1) [unfolded retryLoop_Suc [OF Suc.prems(2)]]
  have again: "\<exists>n. 1 \<le> n \<and> loopPost b n c c'"
    if "retryLoop fuel b scr handler (Suc k) (Suc r) ?c2 = Finished c'" "r \<noteq> 2"
  proof -
    from that(2) Suc.prems(2) have "Suc r < 3" by simp
    from Suc.IH [OF that(1) this] obtain n where "1 \<le> n" "loopPost b n ?c2 c'" by blast
    then have "loopPost b (Suc n) c c'"
      by (blast intro: loopPost_step loopPost_sleep)
    then show ?thesis by auto
  qed
  have one: "\<exists>n. 1 \<le> n \<and> loopPost b n c ?c1"
    using loopPost_now by auto
  show ?case
  proof (cases "scr k")
    case (Threw e)
    with run one again show ?thesis by (auto split: if_splits)
  next
    case (Returned odds fate)
    show ?thesis
    proof (cases "odds = []")
      case True
      with run Returned have "retryLoop fuel b scr handler (Suc k) r ?c1 = Finished c'" by simp
      from Suc.IH [OF this Suc.prems(2)] obtain n where "1 \<le> n" "loopPost b n ?c1 c'" by blast
      then have "loopPost b (Suc n) c c'" by (blast intro: loopPost_step)
      then show ?thesis by auto
    next
      case False
      obtain err s' n where h: "runHandler handler odds fate (db c) = (err, s', n)"
        by (cases "runHandler handler odds fate (db c)") auto
      have keep: "races s' = races (db c)" using runHandler_races [OF hp h] .
      let ?c3 = "sleeps n (?c1\<lparr>db := s'\<rparr>)"
      show ?thesis
      proof (cases "err = None \<or> err = Some TimeoutError \<or> r = 2")
        case True
        with run Returned False h have "c' = ?c3" by simp
        with loopPost_handled [OF keep, of b n] show ?thesis by auto
      next
        case stay: False
        with run Returned False h
        have "retryLoop fuel b scr handler (Suc k) (Suc r) (logEvent (Sleep RETRY_DELAY) ?c3) = Finished c'"
          by simp
        moreover from stay Suc.prems(2) have "Suc r < 3" by simp
        ultimately obtain m where "1 \<le> m" "loopPost b m (logEvent (Sleep RETRY_DELAY) ?c3) c'"
          using Suc.IH by blast
        with loopPost_handled_again [OF keep] have "loopPost b (Suc m) c c'" by blast
        then show ?thesis by auto
      qed
    qed
  qed
qed

lemma retryLoop_total:
  assumes ne: "alwaysNotEmpty scr"
  shows "r < 3 \<Longrightarrow> 3 \<le> fuel + r \<Longrightarrow>
     \<exists>c'. retryLoop fuel b scr handler k r c = Finished c'"
proof (induction fuel arbitrary: k r c)
  case 0
  then show ?case by simp
next
  case (Suc fuel)
  have again: "\<exists>c'. retryLoop fuel b scr handler (Suc k) (Suc r) c2 = Finished c'" if "r \<noteq> 2" for c2
  proof -
    from that Suc.prems have "Suc r < 3" "3 \<le> fuel + Suc r" by simp_all
    then show ?thesis by (rule Suc.IH)
  qed
  show ?case
  proof (cases "scr k")
    case (Threw e)
    then show ?thesis using again by (simp add: retryLoop_Suc [OF Suc.prems(1)])
  next
    case (Returned odds fate)
    with ne have "odds \<noteq> []" by (auto simp: notEmpty_def alwaysNotEmpty_def dest: spec [of _ k])
    with Returned again show ?thesis
      by (simp add: retryLoop_Suc [OF Suc.prems(1)] split: prod.splits)
  qed
qed

lemma retryLoop_bounded:
  assumes hp: "keepsRaces handler"
    and ne: "alwaysNotEmpty scr"
  shows "retryLoop fuel b scr handler k r c = Finished c' \<Longrightarrow> r < 3 \<Longrightarrow>
     \<exists>n. 1 \<le> n \<and> n + r \<le> 3 \<and> loopPost b n c c'"
proof (induction fuel arbitrary: k r c)
  case 0
  then show ?case by (simp add: retryLoop_0)
next
  case (Suc fuel)
  let ?c1 = "logEvent (Scrape b) c"
  let ?c2 = "logEvent (Sleep RETRY_DELAY) ?c1"
  note run = Suc.prems(1) [unfolded retryLoop_Suc [OF Suc.prems(2)]]
  have again: "\<exists>n. 1 \<le> n \<and> n + r \<le> 3 \<and> loopPost b n c c'"
    if "retryLoop fuel b scr handler (Suc k) (Suc r) ?c2 = Finished c'" "r \<noteq> 2"
  proof -
    from that(2) Suc.prems(2) have "Suc r < 3" by simp
    from Suc.IH [OF that(1) this] obtain n where n: "1 \<le> n" "n + Suc r \<le> 3" "loopPost b n ?c2 c'"
      by blast
    then have "loopPost b (Suc n) c c'"
      by (blast intro: loopPost_step loopPost_sleep)
    with n show ?thesis by (intro exI [of _ "Suc n"]) simp
  qed
  have one: "\<exists>n. 1 \<le> n \<and> n + r \<le> 3 \<and> loopPost b n c ?c1"
    using loopPost_now [of b c] Suc.prems(2) by (intro exI [of _ "Suc 0"]) simp
  show ?case
  proof (cases "scr k")
    case (Threw e)
    with run one again show ?thesis by (auto split: if_splits)
  next
    case (Returned odds fate)
    with ne have False: "odds \<noteq> []" by (auto simp: notEmpty_def alwaysNotEmpty_def dest: spec [of _ k])
    obtain err s' n where h: "runHandler handler odds fate (db c) = (err, s', n)"
      by (cases "runHandler handler odds fate (db c)") auto
    have keep: "races s' = races (db c)" using runHandler_races [OF hp h] .
    let ?c3 = "sleeps n (?c1\<lparr>db := s'\<rparr>)"
    show ?thesis
    proof (cases "err = None \<or> err = Some TimeoutError \<or> r = 2")
      case True
      with run Returned False h have "c' = ?c3" by simp
      with loopPost_handled [OF keep, of b n] Suc.prems(2) show ?thesis
        by (intro exI [of _ "Suc 0"]) simp
    next
      case stay: False
      with run Returned False h
      have "retryLoop fuel b scr handler (Suc k) (Suc r) (logEvent (Sleep RETRY_DELAY) ?c3) = Finished c'"
        by simp
      moreover from stay Suc.prems(2) have "Suc r < 3" by simp
      ultimately obtain m where m: "1 \<le> m" "m + Suc r \<le> 3"
          "loopPost b m (logEvent (Sleep RETRY_DELAY) ?c3) c'"
        using Suc.IH by blast
      with loopPost_handled_again [OF keep] have "loopPost b (Suc m) c c'" by blast
      with m show ?thesis by (intro exI [of _ "Suc m"]) simp
    qed
  qed
qed

subsection \<open>A handler that throws\<close>

text \<open>
  \<open>withDbRetry\<close> on an operation that always fails: three tries, two sleeps, and the
  throw. On one that fails once: one sleep, and the second try succeeds.
\<close>

lemma withDbRetry_examples [simp]:
  "withDbRetry (\<lambda>i. True) = (False, 2)" "withDbRetry (\<lambda>i. i < 1) = (True, 1)"
  "withDbRetry (\<lambda>i. False) = (True, 0)"
  by (simp_all add: withDbRetry_def MAX_RETRIES_def numeral_3_eq_3)

text \<open>
  Without faults the handlers under faults are the handlers.
\<close>

lemma handleHorsesUnder_no_fault:
  "handleHorsesUnder rid (\<lambda>j i. None) j odds hs = (None, handleHorses rid odds hs, 0)"
proof (induction odds arbitrary: j hs)
  case Nil
  show ?case by simp
next
  case (Cons od odds)
  have "handleHorses rid (od # odds) hs = handleHorses rid odds (handleHorses rid [od] hs)"
    by (simp split: option.splits)
  then show ?case by (simp add: Cons.IH del: handleHorses.simps)
qed

lemma handlers_no_fault:
  "handleTanpukuOddsUnder rid \<lparr>horseTries = (\<lambda>j i. None), historyFault = None\<rparr> odds s =
     (case handleTanpukuOdds rid odds s of
        Some s' \<Rightarrow> (None, s', 0)
      | None \<Rightarrow> (Some OtherError, s\<lparr>horses := handleHorses rid odds (horses s)\<rparr>, 0))"
  "handleOtherOddsUnder updateMethod (\<lambda>i. None) odds s =
     (case updateMethod odds s of Some s' \<Rightarrow> (None, s', 0) | None \<Rightarrow> (Some OtherError, s, 0))"
  by (simp_all add: handleTanpukuOddsUnder_def handleOtherOddsUnder_def handleHorsesUnder_no_fault
      handleTanpukuOdds_def Let_def split: option.splits)

text \<open>
  \<open>saveOddsHistory\<close> throws on each of the three passes: the horse that the first
  pass inserted is in the table afterwards, without odds.
\<close>

lemma handler_throws_after_writes:
  "retryLoop 3 tanpuku
     (\<lambda>k. under (handleTanpukuOddsUnder 202506020111)
        (Returned [horseData 1000 202506020111 runnerCells] (Some historyFails)))
     (handleTanpukuOdds 202506020111) 0 0 oneRace
   = Finished (oneRace
       \<lparr>db := (db oneRace)
          \<lparr>horses := [\<lparr>h_id = 1, h_name = ''Equinox'', h_raceId = 202506020111, h_frame = 2,
                        h_number = 3, h_status = ''running''\<rparr>]\<rparr>,
        events := [Scrape tanpuku, Sleep 5000, Scrape tanpuku, Sleep 5000, Scrape tanpuku]\<rparr>)"
  unfolding numeral_3_eq_3
  by (simp add: retryLoop_Suc runHandler_def under_def handleTanpukuOddsUnder_def historyFails_def
      logEvent_def sleeps_def horseData_def runnerCells_def never_torikeshi nextId_def
      oneRace_def newCollector_def emptyStore_def RETRY_DELAY_def Let_def)

text \<open>
  The update of a pair market throws on each of the three passes: each pass sleeps
  twice inside \<open>withDbRetry\<close>, and the loop sleeps once more before the next pass.
\<close>

lemma handler_throws_after_sleeps:
  "retryLoop 3 umaren
     (\<lambda>k. under (handleOtherOddsUnder updateUmarenOdds) (Returned [quote35] (Some updateNeverWorks)))
     updateUmarenOdds 0 0 c
   = Finished (c\<lparr>events := events c @
       [Scrape umaren, Sleep 5000, Sleep 5000, Sleep 5000,
        Scrape umaren, Sleep 5000, Sleep 5000, Sleep 5000,
        Scrape umaren, Sleep 5000, Sleep 5000]\<rparr>)"
  unfolding numeral_3_eq_3
  by (simp add: retryLoop_Suc runHandler_def under_def handleOtherOddsUnder_def
      updateNeverWorks_def logEvent_def sleeps_def RETRY_DELAY_def Let_def numeral_2_eq_2)

subsection \<open>The seven loops\<close>

lemma bindRun_Finished:
  "bindRun r f = Finished x \<Longrightarrow> \<exists>a. r = Finished a \<and> f a = Finished x"
  by (cases r) (simp_all add: bindRun_def)

lemma bindRun_simp [simp]: "bindRun (Finished a) f = f a"
  by (simp add: bindRun_def)

lemma chain7:
  assumes "P n1 \<and> loopPost tanpuku n1 c0 c1" "P n2 \<and> loopPost wakuren n2 c1 c2"
    "P n3 \<and> loopPost umaren n3 c2 c3" "P n4 \<and> loopPost wide n4 c3 c4"
    "P n5 \<and> loopPost umatan n5 c4 c5" "P n6 \<and> loopPost fuku3 n6 c5 c6"
    "P n7 \<and> loopPost tan3 n7 c6 c7"
  shows "fullPass [n1, n2, n3, n4, n5, n6, n7] (events c0) (events c7) \<and>
    list_all P [n1, n2, n3, n4, n5, n6, n7] \<and>
    races (db c7) = races (db c0) \<and> collectingSemaphore c7 = collectingSemaphore c0"
proof -
  from assms obtain e1 e2 e3 e4 e5 e6 e7 where
    e: "events c1 = events c0 @ e1" "scraped e1 = replicate n1 tanpuku"
       "events c2 = events c1 @ e2" "scraped e2 = replicate n2 wakuren"
       "events c3 = events c2 @ e3" "scraped e3 = replicate n3 umaren"
       "events c4 = events c3 @ e4" "scraped e4 = replicate n4 wide"
       "events c5 = events c4 @ e5" "scraped e5 = replicate n5 umatan"
       "events c6 = events c5 @ e6" "scraped e6 = replicate n6 fuku3"
       "events c7 = events c6 @ e7" "scraped e7 = replicate n7 tan3"
    unfolding loopPost_def by blast
  have "events c7 = events c0 @ (e1 @ e2 @ e3 @ e4 @ e5 @ e6 @ e7)"
    using e by simp
  moreover have "scraped (e1 @ e2 @ e3 @ e4 @ e5 @ e6 @ e7)
      = attempts [n1, n2, n3, n4, n5, n6, n7] oddsTypes"
    using e by (simp add: scraped_append oddsTypes_def)
  ultimately have "fullPass [n1, n2, n3, n4, n5, n6, n7] (events c0) (events c7)"
    unfolding fullPass_def by (intro conjI exI [of _ "e1 @ e2 @ e3 @ e4 @ e5 @ e6 @ e7"]) simp_all
  moreover have "list_all P [n1, n2, n3, n4, n5, n6, n7]"
    using assms by simp
  moreover have "races (db c7) = races (db c0)" "collectingSemaphore c7 = collectingSemaphore c0"
    using assms by (simp_all add: loopPost_def)
  ultimately show ?thesis by blast
qed

lemma handleTanpukuOdds_races: "keepsRaces (handleTanpukuOdds rid)"
  by (auto simp: keepsRaces_def handleTanpukuOdds_def saveOddsHistory_def Let_def)

lemma update_races:
  "keepsRaces updateWakurenOdds"
  "keepsRaces updateUmarenOdds"
  "keepsRaces updateWideOdds"
  "keepsRaces updateUmatanOdds"
  "keepsRaces updateFuku3Odds"
  "keepsRaces updateTan3Odds"
  by (auto simp: keepsRaces_def updateWakurenOdds_def updateUmarenOdds_def updateWideOdds_def
      updateUmatanOdds_def updateFuku3Odds_def updateTan3Odds_def)

lemma under_notEmpty: "notEmpty (under h a) = notEmpty a"
  by (cases a) (simp_all add: under_def notEmpty_def)

lemma scrapers_notEmpty:
  "alwaysNotEmpty (scrapeTanpuku e) \<Longrightarrow> alwaysNotEmpty (tanpukuScraper e rid)"
  "alwaysNotEmpty scr \<Longrightarrow> alwaysNotEmpty (otherScraper scr updateMethod)"
  by (simp_all add: alwaysNotEmpty_def tanpukuScraper_def otherScraper_def under_notEmpty)

text \<open>The scrapers of the loops when the environment's attempts carry no fault.\<close>

lemma under_simps [simp]:
  "under h (Threw e) = Threw e" "under h (Returned odds None) = Returned odds None"
  by (simp_all add: under_def)

lemma scraper_const:
  "scrapeTanpuku e = (\<lambda>k. a) \<Longrightarrow> tanpukuScraper e rid = (\<lambda>k. under (handleTanpukuOddsUnder rid) a)"
  "scr = (\<lambda>k. b) \<Longrightarrow> otherScraper scr updateMethod = (\<lambda>k. under (handleOtherOddsUnder updateMethod) b)"
  by (auto simp: tanpukuScraper_def otherScraper_def)

lemma collectAll_finished:
  assumes "collectAll fuel e rid c = Finished c'"
  shows "\<exists>ns. fullPass ns (events c) (events c') \<and> list_all (\<lambda>n. 1 \<le> n) ns \<and>
    races (db c') = races (db c) \<and> collectingSemaphore c' = collectingSemaphore c"
proof -
  from assms obtain c1 c2 c3 c4 c5 c6 where
    r: "retryLoop fuel tanpuku (tanpukuScraper e rid) (handleTanpukuOdds rid) 0 0 c = Finished c1"
       "retryLoop fuel wakuren (otherScraper (scrapeWakuren e) updateWakurenOdds) updateWakurenOdds 0 0 c1 = Finished c2"
       "retryLoop fuel umaren (otherScraper (scrapeUmaren e) updateUmarenOdds) updateUmarenOdds 0 0 c2 = Finished c3"
       "retryLoop fuel wide (otherScraper (scrapeWide e) updateWideOdds) updateWideOdds 0 0 c3 = Finished c4"
       "retryLoop fuel umatan (otherScraper (scrapeUmatan e) updateUmatanOdds) updateUmatanOdds 0 0 c4 = Finished c5"
       "retryLoop fuel fuku3 (otherScraper (scrapeFuku3 e) updateFuku3Odds) updateFuku3Odds 0 0 c5 = Finished c6"
       "retryLoop fuel tan3 (otherScraper (scrapeTan3 e) updateTan3Odds) updateTan3Odds 0 0 c6 = Finished c'"
    unfolding collectAll_def by (blast dest!: bindRun_Finished)
  have z: "(0::nat) < 3" by simp
  from retryLoop_finished [OF handleTanpukuOdds_races r(1) z]
    retryLoop_finished [OF update_races(1) r(2) z]
    retryLoop_finished [OF update_races(2) r(3) z]
    retryLoop_finished [OF update_races(3) r(4) z]
    retryLoop_finished [OF update_races(4) r(5) z]
    retryLoop_finished [OF update_races(5) r(6) z]
    retryLoop_finished [OF update_races(6) r(7) z]
  obtain n1 n2 n3 n4 n5 n6 n7 where
    "1 \<le> n1 \<and> loopPost tanpuku n1 c c1" "1 \<le> n2 \<and> loopPost wakuren n2 c1 c2"
    "1 \<le> n3 \<and> loopPost umaren n3 c2 c3" "1 \<le> n4 \<and> loopPost wide n4 c3 c4"
    "1 \<le> n5 \<and> loopPost umatan n5 c4 c5" "1 \<le> n6 \<and> loopPost fuku3 n6 c5 c6"
    "1 \<le> n7 \<and> loopPost tan3 n7 c6 c'"
    by blast
  from chain7 [of "\<lambda>n. 1 \<le> n", OF this] show ?thesis by blast
qed

lemma collectAll_total:
  assumes ne: "neverEmpty e" and fuel: "3 \<le> fuel"
  shows "\<exists>c' ns. collectAll fuel e rid c = Finished c' \<and> fullPass ns (events c) (events c') \<and>
    list_all (\<lambda>n. 1 \<le> n \<and> n \<le> 3) ns \<and>
    races (db c') = races (db c) \<and> collectingSemaphore c' = collectingSemaphore c"
proof -
  have z: "(0::nat) < 3" and f: "3 \<le> fuel + 0" using fuel by simp_all
  from ne have n: "alwaysNotEmpty (tanpukuScraper e rid)"
    "alwaysNotEmpty (otherScraper (scrapeWakuren e) updateWakurenOdds)"
    "alwaysNotEmpty (otherScraper (scrapeUmaren e) updateUmarenOdds)"
    "alwaysNotEmpty (otherScraper (scrapeWide e) updateWideOdds)"
    "alwaysNotEmpty (otherScraper (scrapeUmatan e) updateUmatanOdds)"
    "alwaysNotEmpty (otherScraper (scrapeFuku3 e) updateFuku3Odds)"
    "alwaysNotEmpty (otherScraper (scrapeTan3 e) updateTan3Odds)"
    by (simp_all add: neverEmpty_def scrapers_notEmpty)
  obtain c1 where r1: "retryLoop fuel tanpuku (tanpukuScraper e rid) (handleTanpukuOdds rid) 0 0 c = Finished c1"
    using retryLoop_total [OF n(1) z f] by blast
  obtain c2 where r2: "retryLoop fuel wakuren (otherScraper (scrapeWakuren e) updateWakurenOdds) updateWakurenOdds 0 0 c1 = Finished c2"
    using retryLoop_total [OF n(2) z f] by blast
  obtain c3 where r3: "retryLoop fuel umaren (otherScraper (scrapeUmaren e) updateUmarenOdds) updateUmarenOdds 0 0 c2 = Finished c3"
    using retryLoop_total [OF n(3) z f] by blast
  obtain c4 where r4: "retryLoop fuel wide (otherScraper (scrapeWide e) updateWideOdds) updateWideOdds 0 0 c3 = Finished c4"
    using retryLoop_total [OF n(4) z f] by blast
  obtain c5 where r5: "retryLoop fuel umatan (otherScraper (scrapeUmatan e) updateUmatanOdds) updateUmatanOdds 0 0 c4 = Finished c5"
    using retryLoop_total [OF n(5) z f] by blast
  obtain c6 where r6: "retryLoop fuel fuku3 (otherScraper (scrapeFuku3 e) updateFuku3Odds) updateFuku3Odds 0 0 c5 = Finished c6"
    using retryLoop_total [OF n(6) z f] by blast
  obtain c7 where r7: "retryLoop fuel tan3 (otherScraper (scrapeTan3 e) updateTan3Odds) updateTan3Odds 0 0 c6 = Finished c7"
    using retryLoop_total [OF n(7) z f] by blast
  have all: "collectAll fuel e rid c = Finished c7"
    by (simp add: collectAll_def r1 r2 r3 r4 r5 r6 r7)
  from retryLoop_bounded [OF handleTanpukuOdds_races n(1) r1 z]
    retryLoop_bounded [OF update_races(1) n(2) r2 z]
    retryLoop_bounded [OF update_races(2) n(3) r3 z]
    retryLoop_bounded [OF update_races(3) n(4) r4 z]
    retryLoop_bounded [OF update_races(4) n(5) r5 z]
    retryLoop_bounded [OF update_races(5) n(6) r6 z]
    retryLoop_bounded [OF update_races(6) n(7) r7 z]
  obtain n1 n2 n3 n4 n5 n6 n7 where
    "(1 \<le> n1 \<and> n1 \<le> 3) \<and> loopPost tanpuku n1 c c1" "(1 \<le> n2 \<and> n2 \<le> 3) \<and> loopPost wakuren n2 c1 c2"
    "(1 \<le> n3 \<and> n3 \<le> 3) \<and> loopPost umaren n3 c2 c3" "(1 \<le> n4 \<and> n4 \<le> 3) \<and> loopPost wide n4 c3 c4"
    "(1 \<le> n5 \<and> n5 \<le> 3) \<and> loopPost umatan n5 c4 c5" "(1 \<le> n6 \<and> n6 \<le> 3) \<and> loopPost fuku3 n6 c5 c6"
    "(1 \<le> n7 \<and> n7 \<le> 3) \<and> loopPost tan3 n7 c6 c7"
    by auto
  from chain7 [of "\<lambda>n. 1 \<le> n \<and> n \<le> 3", OF this] all show ?thesis by blast
qed

section \<open>What \<open>collectOdds\<close> does when it returns\<close>

lemma find_setStatus:
  "find (\<lambda>r. r_id r = rid) rs = Some race \<Longrightarrow>
   find (\<lambda>r. r_id r = rid) (map (\<lambda>r. if r_id r = rid then r\<lparr>r_status := st\<rparr> else r) rs)
     = Some (race\<lparr>r_status := st\<rparr>)"
  by (induction rs) (auto split: if_splits)

lemma findRace_setRaceStatus:
  "findRace rid s = Some race \<Longrightarrow>
   findRace rid (setRaceStatus rid st s) = Some (race\<lparr>r_status := st\<rparr>)"
  by (simp add: findRace_def setRaceStatus_def find_setStatus)

lemma acquire_free:
  "running sem < maxConcurrent \<Longrightarrow> acquire rid sem = (True, sem\<lparr>running := running sem + 1\<rparr>)"
  by (simp add: acquire_def)

lemma releaseSemaphore_keeps [simp]:
  "db (releaseSemaphore c) = db c" "events (releaseSemaphore c) = events c"
  by (simp_all add: releaseSemaphore_def)

lemma fullPass_after_sleeps:
  "fullPass ns (es @ replicate n (Sleep d)) es' \<Longrightarrow> fullPass ns es es'"
  unfolding fullPass_def
  by (elim conjE exE, intro conjI, assumption, rule_tac x = "replicate n (Sleep d) @ new" in exI)
     (simp add: scraped_append)

lemma fullPass_before_sleeps:
  "fullPass ns es es' \<Longrightarrow> fullPass ns es (es' @ replicate n (Sleep d))"
  unfolding fullPass_def
  by (elim conjE exE, intro conjI, assumption, rule_tac x = "new @ replicate n (Sleep d)" in exI)
     (simp add: scraped_append)

text \<open>
  The race is absent or \<open>done\<close>: the call returns, the store is as before and the
  scraper was not called (the events added are the sleeps of the lookup).
\<close>

lemma collectOdds_noop:
  assumes free: "running (collectingSemaphore c) < maxConcurrent" and ok: "\<not> lookupFails e"
    and gone: "findRace rid (db c) = None \<or> (\<exists>race. findRace rid (db c) = Some race \<and> r_status race = ''done'')"
  shows "\<exists>c'. collectOdds fuel e now rid c = Finished (Normal, c') \<and> db c' = db c \<and>
    events c' = events c @ replicate (dbSleeps (lookupFaults e)) (Sleep RETRY_DELAY)"
  using gone ok by (auto simp: collectOdds_def acquire_free [OF free] collectOddsBody_def Let_def)

text \<open>
  The race is \<open>upcoming\<close> and has started, no scraper call returns an empty list:
  the call returns after one pass over the seven bet types, one to three scraper
  calls each, and the race is \<open>done\<close>.
\<close>

lemma collectOdds_terminal:
  assumes free: "running (collectingSemaphore c) < maxConcurrent" and ok: "\<not> lookupFails e" "\<not> updateFails e"
    and race: "findRace rid (db c) = Some race" "r_status race = ''upcoming''" "r_startTime race < now"
    and ne: "neverEmpty e" and fuel: "3 \<le> fuel"
  shows "\<exists>c' ns. collectOdds fuel e now rid c = Finished (Normal, c') \<and>
      fullPass ns (events c) (events c') \<and> list_all (\<lambda>n. 1 \<le> n \<and> n \<le> 3) ns \<and>
      races (db c') = races (setRaceStatus rid ''done'' (db c)) \<and>
      map_option r_status (findRace rid (db c')) = Some ''done''"
proof -
  let ?c0 = "sleeps (dbSleeps (lookupFaults e))
    (c\<lparr>collectingSemaphore := (collectingSemaphore c)\<lparr>running := running (collectingSemaphore c) + 1\<rparr>\<rparr>)"
  from collectAll_total [OF ne fuel, of rid ?c0] obtain c1 ns where
    p: "collectAll fuel e rid ?c0 = Finished c1" "fullPass ns (events ?c0) (events c1)"
       "list_all (\<lambda>n. 1 \<le> n \<and> n \<le> 3) ns" "races (db c1) = races (db ?c0)"
    by blast
  let ?c2 = "sleeps (dbSleeps (updateFaults e)) c1"
  let ?c' = "releaseSemaphore (releaseSemaphore (?c2\<lparr>db := setRaceStatus rid ''done'' (db ?c2)\<rparr>))"
  have run: "collectOdds fuel e now rid c = Finished (Normal, ?c')"
    using ok race p(1) by (simp add: collectOdds_def acquire_free [OF free] collectOddsBody_def Let_def)
  have r: "races (db ?c') = races (setRaceStatus rid ''done'' (db c))"
    using p(4) by (simp add: setRaceStatus_def)
  have "findRace rid (db ?c') = findRace rid (setRaceStatus rid ''done'' (db c))"
    using r by (simp add: findRace_def)
  then have st: "map_option r_status (findRace rid (db ?c')) = Some ''done''"
    using findRace_setRaceStatus [OF race(1)] by simp
  have "fullPass ns (events c) (events c1)"
    using p(2) by (simp add: fullPass_after_sleeps)
  then have fp: "fullPass ns (events c) (events ?c')"
    by (simp add: fullPass_before_sleeps)
  from run fp p(3) r st show ?thesis
    by (intro exI [of _ ?c'] exI [of _ ns]) simp
qed

text \<open>The race has not started (and is not \<open>done\<close>): one pass, the races table as before.\<close>

lemma collectOdds_regular:
  assumes free: "running (collectingSemaphore c) < maxConcurrent" and ok: "\<not> lookupFails e"
    and race: "findRace rid (db c) = Some race" "r_status race \<noteq> ''done''"
      "\<not> (r_startTime race < now \<and> r_status race = ''upcoming'')"
    and ne: "neverEmpty e" and fuel: "3 \<le> fuel"
  shows "\<exists>c' ns. collectOdds fuel e now rid c = Finished (Normal, c') \<and>
      fullPass ns (events c) (events c') \<and> list_all (\<lambda>n. 1 \<le> n \<and> n \<le> 3) ns \<and>
      races (db c') = races (db c)"
proof -
  let ?c0 = "sleeps (dbSleeps (lookupFaults e))
    (c\<lparr>collectingSemaphore := (collectingSemaphore c)\<lparr>running := running (collectingSemaphore c) + 1\<rparr>\<rparr>)"
  from collectAll_total [OF ne fuel, of rid ?c0] obtain c1 ns where
    p: "collectAll fuel e rid ?c0 = Finished c1" "fullPass ns (events ?c0) (events c1)"
       "list_all (\<lambda>n. 1 \<le> n \<and> n \<le> 3) ns" "races (db c1) = races (db ?c0)"
    by blast
  have run: "collectOdds fuel e now rid c = Finished (Normal, releaseSemaphore c1)"
    using ok race p(1) by (auto simp: collectOdds_def acquire_free [OF free] collectOddsBody_def Let_def)
  have "fullPass ns (events c) (events c1)"
    using p(2) by (simp add: fullPass_after_sleeps)
  with run p(3,4) show ?thesis
    by (intro exI [of _ "releaseSemaphore c1"] exI [of _ ns]) simp
qed

text \<open>
  The same two cases for any call that returns, whatever the scraper does: the pass
  was made, each bet type scraped at least once; after the terminal pass the race
  is \<open>done\<close>, unless the update failed for good, which throws.
\<close>

lemma collectOdds_when_terminal:
  assumes free: "running (collectingSemaphore c) < maxConcurrent" and ok: "\<not> lookupFails e"
    and race: "findRace rid (db c) = Some race" "r_status race = ''upcoming''" "r_startTime race < now"
    and run: "collectOdds fuel e now rid c = Finished (r, c')"
  shows "(\<exists>ns. fullPass ns (events c) (events c') \<and> list_all (\<lambda>n. 1 \<le> n) ns) \<and>
     (if updateFails e then r = Thrown \<and> races (db c') = races (db c)
      else r = Normal \<and> races (db c') = races (setRaceStatus rid ''done'' (db c)) \<and>
           map_option r_status (findRace rid (db c')) = Some ''done'')"
proof -
  let ?c0 = "sleeps (dbSleeps (lookupFaults e))
    (c\<lparr>collectingSemaphore := (collectingSemaphore c)\<lparr>running := running (collectingSemaphore c) + 1\<rparr>\<rparr>)"
  from run ok race obtain c1 where
    p: "collectAll fuel e rid ?c0 = Finished c1"
    by (auto simp: collectOdds_def acquire_free [OF free] collectOddsBody_def Let_def
        dest!: bindRun_Finished split: if_splits)
  let ?c2 = "sleeps (dbSleeps (updateFaults e)) c1"
  from collectAll_finished [OF p] obtain ns where
    q0: "fullPass ns (events ?c0) (events c1)" "list_all (\<lambda>n. 1 \<le> n) ns" "races (db c1) = races (db c)"
    by auto
  have "fullPass ns (events c) (events c1)"
    using q0(1) by (simp add: fullPass_after_sleeps)
  then have q: "fullPass ns (events c) (events ?c2)"
    by (simp add: fullPass_before_sleeps)
  show ?thesis
  proof (cases "updateFails e")
    case True
    with run ok race p have "r = Thrown" "c' = releaseSemaphore ?c2"
      by (simp_all add: collectOdds_def acquire_free [OF free] collectOddsBody_def Let_def)
    with q q0 True show ?thesis by auto
  next
    case False
    let ?c' = "releaseSemaphore (releaseSemaphore (?c2\<lparr>db := setRaceStatus rid ''done'' (db ?c2)\<rparr>))"
    from False run ok race p have rc: "r = Normal" "c' = ?c'"
      by (simp_all add: collectOdds_def acquire_free [OF free] collectOddsBody_def Let_def)
    have rr: "races (db ?c') = races (setRaceStatus rid ''done'' (db c))"
      using q0(3) by (simp add: setRaceStatus_def)
    have "findRace rid (db ?c') = findRace rid (setRaceStatus rid ''done'' (db c))"
      using rr by (simp add: findRace_def)
    then have st: "map_option r_status (findRace rid (db ?c')) = Some ''done''"
      using findRace_setRaceStatus [OF race(1)] by simp
    from q q0 rc rr st False show ?thesis by auto
  qed
qed

lemma collectOdds_when_regular:
  assumes free: "running (collectingSemaphore c) < maxConcurrent" and ok: "\<not> lookupFails e"
    and race: "findRace rid (db c) = Some race" "r_status race \<noteq> ''done''"
      "\<not> (r_startTime race < now \<and> r_status race = ''upcoming'')"
    and run: "collectOdds fuel e now rid c = Finished (r, c')"
  shows "(\<exists>ns. fullPass ns (events c) (events c') \<and> list_all (\<lambda>n. 1 \<le> n) ns) \<and>
     r = Normal \<and> races (db c') = races (db c)"
proof -
  let ?c0 = "sleeps (dbSleeps (lookupFaults e))
    (c\<lparr>collectingSemaphore := (collectingSemaphore c)\<lparr>running := running (collectingSemaphore c) + 1\<rparr>\<rparr>)"
  from run ok race obtain c1 where
    p: "collectAll fuel e rid ?c0 = Finished c1"
    by (auto simp: collectOdds_def acquire_free [OF free] collectOddsBody_def Let_def
        dest!: bindRun_Finished split: if_splits)
  from collectAll_finished [OF p] obtain ns where
    q0: "fullPass ns (events ?c0) (events c1)" "list_all (\<lambda>n. 1 \<le> n) ns" "races (db c1) = races (db c)"
    by auto
  have q: "fullPass ns (events c) (events c1)"
    using q0(1) by (simp add: fullPass_after_sleeps)
  from run ok race p have "r = Normal" "c' = releaseSemaphore c1"
    by (auto simp: collectOdds_def acquire_free [OF free] collectOddsBody_def Let_def)
  with q q0 show ?thesis by auto
qed

section \<open>The retry loop at its limits\<close>

lemma no_faults:
  "\<not> lookupFails failingEnv" "\<not> updateFails failingEnv"
  "dbSleeps (lookupFaults failingEnv) = 0" "dbSleeps (updateFaults failingEnv) = 0"
  "\<not> lookupFails timeoutEnv" "\<not> updateFails timeoutEnv"
  "dbSleeps (lookupFaults timeoutEnv) = 0" "dbSleeps (updateFaults timeoutEnv) = 0"
  "\<not> lookupFails emptyEnv" "\<not> updateFails emptyEnv"
  "dbSleeps (lookupFaults emptyEnv) = 0" "dbSleeps (updateFaults emptyEnv) = 0"
  by (simp_all add: lookupFails_def updateFails_def failingEnv_def timeoutEnv_def emptyEnv_def)

lemma empty_results_loop:
  "retryLoop n b (\<lambda>k. Returned [] fate) handler k 0 c
     = OutOfFuel (events c @ replicate n (Scrape b))"
proof (induction n arbitrary: k c)
  case 0
  show ?case by (simp add: retryLoop_0)
next
  case (Suc n)
  show ?case
    by (simp add: retryLoop_Suc Suc.IH logEvent_def replicate_app_Cons_same)
qed

lemma always_thrown_loop:
  "retryLoop (Suc (Suc (Suc n))) b (\<lambda>k. Threw e) handler k 0 c
     = Finished (c\<lparr>events := events c @
         [Scrape b, Sleep RETRY_DELAY, Scrape b, Sleep RETRY_DELAY, Scrape b]\<rparr>)"
  by (simp add: retryLoop_Suc logEvent_def)

lemma three_Suc: "(3::nat) = Suc (Suc (Suc 0))"
  by simp

text \<open>
  C6 at a failing input: a scraper that succeeds with an empty list on every call.
  No branch of the loop body counts such a pass or leaves the loop, so after any
  number \<open>n\<close> of passes the loop is still running and has called the scraper \<open>n\<close>
  times, without a sleep. The same holds for the loop of the daily variant, which is
  the same code. A call of \<open>collectOdds\<close> after the start of the race then never
  gets beyond the first bet type and never marks the race \<open>done\<close>.
\<close>

theorem empty_results_never_end:
  "retryLoop n b (\<lambda>k. Returned [] None) handler 0 0 c
     = OutOfFuel (events c @ replicate n (Scrape b)) \<and>
   collectOdds n emptyEnv 1740898200000 202506020111 oneRace
     = OutOfFuel (replicate n (Scrape tanpuku))"
proof -
  have "collectAll n emptyEnv 202506020111 c0 = OutOfFuel (events c0 @ replicate n (Scrape tanpuku))" for c0
    by (simp add: collectAll_def tanpukuScraper_def otherScraper_def emptyEnv_def
        empty_results_loop bindRun_def)
  then have "collectOdds n emptyEnv 1740898200000 202506020111 oneRace
     = OutOfFuel (replicate n (Scrape tanpuku))"
    by (simp add: collectOdds_def collectOddsBody_def acquire_def maxConcurrent_def oneRace_def
        newCollector_def no_faults findRace_def emptyStore_def afternoonRow_def bindRun_def)
  then show ?thesis by (simp add: empty_results_loop)
qed

text \<open>
  C5 at a failing input: the scraper throws \<open>TimeoutError\<close> on every call for the
  third bet type. The \<open>TimeoutError\<close> test of the source sits in the \<open>catch\<close> around
  the store handler; an error of the scraper reaches the outer \<open>catch\<close>, which
  counts a timeout like any other error: three calls with two sleeps of five
  seconds. In a regular pass where every market but the first times out, each of
  those six is scraped three times; all seven are attempted.
\<close>

theorem scraper_timeout_retried:
  "retryLoop 3 umaren (\<lambda>k. Threw TimeoutError) updateUmarenOdds 0 0 c
     = Finished (c\<lparr>events := events c @
         [Scrape umaren, Sleep 5000, Scrape umaren, Sleep 5000, Scrape umaren]\<rparr>) \<and>
   (case collectOdds 3 timeoutEnv 1740894000000 202506020111 oneRace of
      Finished (r, c') \<Rightarrow> r = Normal \<and> scraped (events c') =
        [tanpuku, wakuren, wakuren, wakuren, umaren, umaren, umaren, wide, wide, wide,
         umatan, umatan, umatan, fuku3, fuku3, fuku3, tan3, tan3, tan3]
    | OutOfFuel es \<Rightarrow> False
    | Queued q \<Rightarrow> False)"
proof -
  have a: "retryLoop 3 b (\<lambda>k. Threw TimeoutError) h 0 0 c0
     = Finished (c0\<lparr>events := events c0 @
         [Scrape b, Sleep 5000, Scrape b, Sleep 5000, Scrape b]\<rparr>)"
    for b c0 and h :: "'a list \<Rightarrow> store \<Rightarrow> store option"
    unfolding three_Suc by (simp add: always_thrown_loop RETRY_DELAY_def)
  have b: "\<exists>s'. retryLoop 3 tanpuku (tanpukuScraper timeoutEnv 202506020111) (handleTanpukuOdds 202506020111) 0 0 c0
     = Finished (c0\<lparr>events := events c0 @ [Scrape tanpuku], db := s'\<rparr>)" for c0
  proof -
    obtain s' where
      "handleTanpukuOdds 202506020111 [horseData 1000 202506020111 runnerCells] (db c0) = Some s'"
      using handleTanpukuOdds_some [of "[horseData 1000 202506020111 runnerCells]"] by auto
    then have "retryLoop 3 tanpuku (tanpukuScraper timeoutEnv 202506020111) (handleTanpukuOdds 202506020111) 0 0 c0
       = Finished (c0\<lparr>events := events c0 @ [Scrape tanpuku], db := s'\<rparr>)"
      unfolding three_Suc
      by (simp add: retryLoop_Suc tanpukuScraper_def timeoutEnv_def runHandler_def logEvent_def)
    then show ?thesis by blast
  qed
  have c: "otherScraper (scrapeWakuren timeoutEnv) updateWakurenOdds = (\<lambda>k. Threw TimeoutError)"
    "otherScraper (scrapeUmaren timeoutEnv) updateUmarenOdds = (\<lambda>k. Threw TimeoutError)"
    "otherScraper (scrapeWide timeoutEnv) updateWideOdds = (\<lambda>k. Threw TimeoutError)"
    "otherScraper (scrapeUmatan timeoutEnv) updateUmatanOdds = (\<lambda>k. Threw TimeoutError)"
    "otherScraper (scrapeFuku3 timeoutEnv) updateFuku3Odds = (\<lambda>k. Threw TimeoutError)"
    "otherScraper (scrapeTan3 timeoutEnv) updateTan3Odds = (\<lambda>k. Threw TimeoutError)"
    by (simp_all add: otherScraper_def timeoutEnv_def)
  show ?thesis
    using b [of "oneRace\<lparr>collectingSemaphore := \<lparr>running = 1, queue = []\<rparr>\<rparr>"]
    by (auto simp: a c collectOdds_def collectOddsBody_def collectAll_def acquire_def maxConcurrent_def
        oneRace_def newCollector_def no_faults findRace_def emptyStore_def afternoonRow_def)
qed

section \<open>One call of \<open>collectOdds\<close>\<close>

lemma answering_faults:
  "\<not> lookupFails answeringEnv" "\<not> updateFails answeringEnv"
  "dbSleeps (lookupFaults answeringEnv) = 0" "dbSleeps (updateFaults answeringEnv) = 0"
  by (simp_all add: lookupFails_def updateFails_def answeringEnv_def)

lemma upsert_into_empty:
  "upsertOdds canon [q] [] =
     Some [\<lparr>row_id = 1, row_key = canon (d_key q), row_val = d_val q,
            row_timestamp = d_timestamp q, row_raceId = d_raceId q\<rparr>]"
  by (simp add: upsertOdds_def existingFor_def nextId_def List.map_filter_simps)

lemma retryLoop_first:
  "handler odds (db c) = Some s' \<Longrightarrow> odds \<noteq> [] \<Longrightarrow>
   retryLoop 3 b (\<lambda>k. Returned odds None) handler 0 0 c
     = Finished (c\<lparr>events := events c @ [Scrape b], db := s'\<rparr>)"
  unfolding numeral_3_eq_3 by (simp add: retryLoop_Suc runHandler_def logEvent_def)

lemma answering_scrapers:
  "tanpukuScraper answeringEnv rid = (\<lambda>k. Returned [horseData 1000 202506020111 runnerCells] None)"
  "otherScraper (scrapeWakuren answeringEnv) updateWakurenOdds = (\<lambda>k. Returned [quote35] None)"
  "otherScraper (scrapeUmaren answeringEnv) updateUmarenOdds = (\<lambda>k. Returned [quote35] None)"
  "otherScraper (scrapeWide answeringEnv) updateWideOdds = (\<lambda>k. Returned [wide35] None)"
  "otherScraper (scrapeUmatan answeringEnv) updateUmatanOdds = (\<lambda>k. Returned [quote53] None)"
  "otherScraper (scrapeFuku3 answeringEnv) updateFuku3Odds = (\<lambda>k. Returned [triple853] None)"
  "otherScraper (scrapeTan3 answeringEnv) updateTan3Odds = (\<lambda>k. Returned [triple853] None)"
  by (simp_all add: tanpukuScraper_def otherScraper_def answeringEnv_def)

lemma answering_handlers:
  "horses s = [] \<Longrightarrow> tanOddsHistory s = [] \<Longrightarrow> fukuOdds s = [] \<Longrightarrow>
   handleTanpukuOdds 202506020111 [horseData 1000 202506020111 runnerCells] s
     = Some (s\<lparr>horses := horses (answeredStore r), tanOddsHistory := tanOddsHistory (answeredStore r),
               fukuOdds := fukuOdds (answeredStore r)\<rparr>)"
  "wakurenOdds s = [] \<Longrightarrow>
   updateWakurenOdds [quote35] s = Some (s\<lparr>wakurenOdds := wakurenOdds (answeredStore r)\<rparr>)"
  "umarenOdds s = [] \<Longrightarrow>
   updateUmarenOdds [quote35] s = Some (s\<lparr>umarenOdds := umarenOdds (answeredStore r)\<rparr>)"
  "wideOdds s = [] \<Longrightarrow>
   updateWideOdds [wide35] s = Some (s\<lparr>wideOdds := wideOdds (answeredStore r)\<rparr>)"
  "umatanOdds s = [] \<Longrightarrow>
   updateUmatanOdds [quote53] s = Some (s\<lparr>umatanOdds := umatanOdds (answeredStore r)\<rparr>)"
  "fuku3Odds s = [] \<Longrightarrow>
   updateFuku3Odds [triple853] s = Some (s\<lparr>fuku3Odds := fuku3Odds (answeredStore r)\<rparr>)"
  "tan3Odds s = [] \<Longrightarrow>
   updateTan3Odds [triple853] s = Some (s\<lparr>tan3Odds := tan3Odds (answeredStore r)\<rparr>)"
  by (simp_all add: handleTanpukuOdds_def saveOddsHistory_def never_torikeshi horseData_def
      runnerCells_def nextId_def updateWakurenOdds_def updateUmarenOdds_def updateWideOdds_def
      updateUmatanOdds_def updateFuku3Odds_def updateTan3Odds_def sortHorses_def quote35_def
      quote53_def wide35_def triple853_def upsert_into_empty answeredStore_def Let_def)


lemma answering_pass:
  "collectAll 3 answeringEnv 202506020111 (oneRace\<lparr>collectingSemaphore := sem\<rparr>)
     = Finished \<lparr>db = answeredStore afternoonRow, collectingSemaphore = sem,
         events = [Scrape tanpuku, Scrape wakuren, Scrape umaren, Scrape wide, Scrape umatan,
                   Scrape fuku3, Scrape tan3]\<rparr>"
proof -
  let ?r = afternoonRow
  let ?c0 = "oneRace\<lparr>collectingSemaphore := sem\<rparr>"
  let ?s1 = "(db ?c0)\<lparr>horses := horses (answeredStore ?r),
     tanOddsHistory := tanOddsHistory (answeredStore ?r), fukuOdds := fukuOdds (answeredStore ?r)\<rparr>"
  let ?c1 = "?c0\<lparr>events := events ?c0 @ [Scrape tanpuku], db := ?s1\<rparr>"
  let ?s2 = "?s1\<lparr>wakurenOdds := wakurenOdds (answeredStore ?r)\<rparr>"
  let ?c2 = "?c1\<lparr>events := events ?c1 @ [Scrape wakuren], db := ?s2\<rparr>"
  let ?s3 = "?s2\<lparr>umarenOdds := umarenOdds (answeredStore ?r)\<rparr>"
  let ?c3 = "?c2\<lparr>events := events ?c2 @ [Scrape umaren], db := ?s3\<rparr>"
  let ?s4 = "?s3\<lparr>wideOdds := wideOdds (answeredStore ?r)\<rparr>"
  let ?c4 = "?c3\<lparr>events := events ?c3 @ [Scrape wide], db := ?s4\<rparr>"
  let ?s5 = "?s4\<lparr>umatanOdds := umatanOdds (answeredStore ?r)\<rparr>"
  let ?c5 = "?c4\<lparr>events := events ?c4 @ [Scrape umatan], db := ?s5\<rparr>"
  let ?s6 = "?s5\<lparr>fuku3Odds := fuku3Odds (answeredStore ?r)\<rparr>"
  let ?c6 = "?c5\<lparr>events := events ?c5 @ [Scrape fuku3], db := ?s6\<rparr>"
  let ?s7 = "?s6\<lparr>tan3Odds := tan3Odds (answeredStore ?r)\<rparr>"
  let ?c7 = "?c6\<lparr>events := events ?c6 @ [Scrape tan3], db := ?s7\<rparr>"
  have e: "horses (db oneRace) = []" "tanOddsHistory (db oneRace) = []" "fukuOdds (db oneRace) = []"
    "wakurenOdds (db oneRace) = []" "umarenOdds (db oneRace) = []" "wideOdds (db oneRace) = []"
    "umatanOdds (db oneRace) = []" "fuku3Odds (db oneRace) = []" "tan3Odds (db oneRace) = []"
    by (simp_all add: oneRace_def newCollector_def emptyStore_def)
  have 1: "retryLoop 3 tanpuku (tanpukuScraper answeringEnv 202506020111) (handleTanpukuOdds 202506020111) 0 0 ?c0
      = Finished ?c1"
    unfolding answering_scrapers
    by (rule retryLoop_first, rule answering_handlers(1)) (simp_all add: e)
  have 2: "retryLoop 3 wakuren (otherScraper (scrapeWakuren answeringEnv) updateWakurenOdds) updateWakurenOdds 0 0 ?c1 = Finished ?c2"
    unfolding answering_scrapers
    by (rule retryLoop_first) (simp_all add: answering_handlers(2) e)
  have 3: "retryLoop 3 umaren (otherScraper (scrapeUmaren answeringEnv) updateUmarenOdds) updateUmarenOdds 0 0 ?c2 = Finished ?c3"
    unfolding answering_scrapers
    by (rule retryLoop_first) (simp_all add: answering_handlers(3) e)
  have 4: "retryLoop 3 wide (otherScraper (scrapeWide answeringEnv) updateWideOdds) updateWideOdds 0 0 ?c3 = Finished ?c4"
    unfolding answering_scrapers
    by (rule retryLoop_first) (simp_all add: answering_handlers(4) e)
  have 5: "retryLoop 3 umatan (otherScraper (scrapeUmatan answeringEnv) updateUmatanOdds) updateUmatanOdds 0 0 ?c4 = Finished ?c5"
    unfolding answering_scrapers
    by (rule retryLoop_first) (simp_all add: answering_handlers(5) e)
  have 6: "retryLoop 3 fuku3 (otherScraper (scrapeFuku3 answeringEnv) updateFuku3Odds) updateFuku3Odds 0 0 ?c5 = Finished ?c6"
    unfolding answering_scrapers
    by (rule retryLoop_first) (simp_all add: answering_handlers(6) e)
  have 7: "retryLoop 3 tan3 (otherScraper (scrapeTan3 answeringEnv) updateTan3Odds) updateTan3Odds 0 0 ?c6 = Finished ?c7"
    unfolding answering_scrapers
    by (rule retryLoop_first) (simp_all add: answering_handlers(7) e)
  have "collectAll 3 answeringEnv 202506020111 ?c0 = Finished ?c7"
    unfolding collectAll_def by (simp only: 1 2 3 4 5 6 7 bindRun_simp)
  moreover have "?c7 = \<lparr>db = answeredStore afternoonRow, collectingSemaphore = sem,
         events = [Scrape tanpuku, Scrape wakuren, Scrape umaren, Scrape wide, Scrape umatan,
                   Scrape fuku3, Scrape tan3]\<rparr>"
    by (simp add: oneRace_def newCollector_def emptyStore_def answeredStore_def)
  ultimately show ?thesis by simp
qed

lemma stuck_faults:
  "\<not> lookupFails stuckEnv" "\<not> updateFails stuckEnv"
  "dbSleeps (lookupFaults stuckEnv) = 0" "dbSleeps (updateFaults stuckEnv) = 0"
  "tanpukuScraper stuckEnv rid = (\<lambda>k. Returned [horseData 1000 202506020111 runnerCells] None)"
  "otherScraper (scrapeWakuren stuckEnv) updateWakurenOdds = (\<lambda>k. Returned [] None)"
  by (simp_all add: lookupFails_def updateFails_def tanpukuScraper_def otherScraper_def stuckEnv_def)

lemma stuck_pass:
  "collectAll (Suc n) stuckEnv 202506020111 c
     = OutOfFuel (events c @ Scrape tanpuku # replicate (Suc n) (Scrape wakuren))"
proof -
  obtain s' where
    "handleTanpukuOdds 202506020111 [horseData 1000 202506020111 runnerCells] (db c) = Some s'"
    using handleTanpukuOdds_some [of "[horseData 1000 202506020111 runnerCells]"] by auto
  then have "retryLoop (Suc n) tanpuku (tanpukuScraper stuckEnv 202506020111) (handleTanpukuOdds 202506020111) 0 0 c
       = Finished (c\<lparr>events := events c @ [Scrape tanpuku], db := s'\<rparr>)"
    by (simp add: retryLoop_Suc stuck_faults runHandler_def logEvent_def)
  then show ?thesis
    by (simp add: collectAll_def stuck_faults empty_results_loop bindRun_def)
qed

lemma stuck_pass_any:
  "\<exists>es. collectAll fuel stuckEnv 202506020111 c = OutOfFuel es"
proof (cases fuel)
  case 0
  then show ?thesis by (simp add: collectAll_def retryLoop_0 bindRun_def)
next
  case (Suc n)
  then show ?thesis by (simp add: stuck_pass)
qed

text \<open>
  C1 at a failing input, after the inputs at which the code does what the claim
  says. The store holds the afternoon race as \<open>upcoming\<close>, the semaphore is free, the
  lookup and the update work. When every market answers, the call ten minutes after
  the start scrapes each of the seven bet types once, in the fixed order, stores
  their quotes, and leaves the race \<open>done\<close>; the call an hour before the start does
  the same and leaves the race \<open>upcoming\<close>; the call for a race that is not in the
  store leaves the store as it was and scrapes nothing. At the failing input the
  scraper answers for the first bet type and returns the empty list for the second,
  ten minutes after the start: after any number of passes of the retry loop the call
  has scraped the first bet type once and the second on every further pass, and it
  is still in the loop of the second. For no amount of fuel does it return, so the
  status is never set: the retry loop has no branch for an empty list.
\<close>

theorem terminal_pass_stuck:
  "running (collectingSemaphore oneRace) < maxConcurrent \<and>
   findRace 202506020111 (db oneRace) = Some afternoonRow \<and>
   r_status afternoonRow = ''upcoming'' \<and> r_startTime afternoonRow < 1740898200000 \<and>
   \<not> lookupFails answeringEnv \<and> \<not> updateFails answeringEnv \<and>
   (case collectOdds 3 answeringEnv 1740898200000 202506020111 oneRace of
      Finished (r, c') \<Rightarrow>
        r = Normal \<and> db c' = answeredStore (afternoonRow\<lparr>r_status := ''done''\<rparr>) \<and>
        events c' = [Scrape tanpuku, Scrape wakuren, Scrape umaren, Scrape wide, Scrape umatan,
                     Scrape fuku3, Scrape tan3]
    | OutOfFuel es \<Rightarrow> False
    | Queued q \<Rightarrow> False) \<and>
   (case collectOdds 3 answeringEnv 1740894000000 202506020111 oneRace of
      Finished (r, c') \<Rightarrow>
        r = Normal \<and> db c' = answeredStore afternoonRow \<and>
        events c' = [Scrape tanpuku, Scrape wakuren, Scrape umaren, Scrape wide, Scrape umatan,
                     Scrape fuku3, Scrape tan3]
    | OutOfFuel es \<Rightarrow> False
    | Queued q \<Rightarrow> False) \<and>
   (case collectOdds 3 answeringEnv 1740898200000 7 oneRace of
      Finished (r, c') \<Rightarrow> r = Normal \<and> db c' = db oneRace \<and> events c' = []
    | OutOfFuel es \<Rightarrow> False
    | Queued q \<Rightarrow> False) \<and>
   \<not> lookupFails stuckEnv \<and> \<not> updateFails stuckEnv \<and>
   collectOdds (Suc n) stuckEnv 1740898200000 202506020111 oneRace
     = OutOfFuel (Scrape tanpuku # replicate (Suc n) (Scrape wakuren)) \<and>
   collectOdds fuel stuckEnv 1740898200000 202506020111 oneRace \<noteq> Finished (r, c')"
proof -
  have a: "running (collectingSemaphore oneRace) < maxConcurrent"
    "findRace 202506020111 (db oneRace) = Some afternoonRow"
    "r_status afternoonRow = ''upcoming''" "r_startTime afternoonRow < 1740898200000"
    by (simp_all add: oneRace_def newCollector_def maxConcurrent_def findRace_def emptyStore_def
        afternoonRow_def)
  let ?c0 = "oneRace\<lparr>collectingSemaphore := \<lparr>running = 1, queue = []\<rparr>\<rparr>"
  have acq: "acquire rid (collectingSemaphore oneRace) = (True, \<lparr>running = 1, queue = []\<rparr>)" for rid
    by (simp add: acquire_def maxConcurrent_def oneRace_def newCollector_def)
  have c0: "oneRace\<lparr>collectingSemaphore := \<lparr>running = 1, queue = []\<rparr>\<rparr> = ?c0" ..
  have row: "findRace 202506020111 (db oneRace) = Some afternoonRow" "findRace 7 (db oneRace) = None"
    "r_status afternoonRow \<noteq> ''done''" "\<not> r_startTime afternoonRow < 1740894000000"
    by (simp_all add: oneRace_def newCollector_def findRace_def emptyStore_def afternoonRow_def)
  have g1: "case collectOdds 3 answeringEnv 1740898200000 202506020111 oneRace of
      Finished (r, c') \<Rightarrow>
        r = Normal \<and> db c' = answeredStore (afternoonRow\<lparr>r_status := ''done''\<rparr>) \<and>
        events c' = [Scrape tanpuku, Scrape wakuren, Scrape umaren, Scrape wide, Scrape umatan,
                     Scrape fuku3, Scrape tan3]
    | OutOfFuel es \<Rightarrow> False
    | Queued q \<Rightarrow> False"
    by (simp add: collectOdds_def collectOddsBody_def acq answering_faults row a(3,4)
        answering_pass setRaceStatus_def answeredStore_def afternoonRow_def Let_def)
  have g2: "case collectOdds 3 answeringEnv 1740894000000 202506020111 oneRace of
      Finished (r, c') \<Rightarrow>
        r = Normal \<and> db c' = answeredStore afternoonRow \<and>
        events c' = [Scrape tanpuku, Scrape wakuren, Scrape umaren, Scrape wide, Scrape umatan,
                     Scrape fuku3, Scrape tan3]
    | OutOfFuel es \<Rightarrow> False
    | Queued q \<Rightarrow> False"
    by (simp add: collectOdds_def collectOddsBody_def acq answering_faults row a(3)
        answering_pass Let_def)
  have g3: "case collectOdds 3 answeringEnv 1740898200000 7 oneRace of
      Finished (r, c') \<Rightarrow> r = Normal \<and> db c' = db oneRace \<and> events c' = []
    | OutOfFuel es \<Rightarrow> False
    | Queued q \<Rightarrow> False"
  proof -
    have "events oneRace = []" by (simp add: oneRace_def newCollector_def)
    then show ?thesis
      by (simp add: collectOdds_def collectOddsBody_def acq answering_faults row Let_def)
  qed
  have body: "collectOdds k stuckEnv 1740898200000 202506020111 oneRace
      = bindRun (bindRun (collectAll k stuckEnv 202506020111 ?c0)
          (\<lambda>c1. Finished (Normal, releaseSemaphore
             (c1\<lparr>db := setRaceStatus 202506020111 ''done'' (db c1)\<rparr>))))
          (\<lambda>(r, c1). Finished (r, releaseSemaphore c1))" for k
    by (simp add: collectOdds_def collectOddsBody_def acq stuck_faults row a(3,4) Let_def)
  have b: "collectOdds (Suc n) stuckEnv 1740898200000 202506020111 oneRace
     = OutOfFuel (Scrape tanpuku # replicate (Suc n) (Scrape wakuren))"
    unfolding body by (simp add: stuck_pass bindRun_def oneRace_def newCollector_def)
  have c: "collectOdds fuel stuckEnv 1740898200000 202506020111 oneRace \<noteq> Finished (r, c')"
    unfolding body using stuck_pass_any [of fuel ?c0]
    by (auto simp: bindRun_def)
  from a g1 g2 g3 b c stuck_faults(1,2) answering_faults(1,2) show ?thesis by simp
qed

section \<open>The semaphore\<close>

lemma failing_pass:
  "collectAll 3 failingEnv rid c = Finished (c\<lparr>events := events c @
     [Scrape tanpuku, Sleep RETRY_DELAY, Scrape tanpuku, Sleep RETRY_DELAY, Scrape tanpuku,
      Scrape wakuren, Sleep RETRY_DELAY, Scrape wakuren, Sleep RETRY_DELAY, Scrape wakuren,
      Scrape umaren, Sleep RETRY_DELAY, Scrape umaren, Sleep RETRY_DELAY, Scrape umaren,
      Scrape wide, Sleep RETRY_DELAY, Scrape wide, Sleep RETRY_DELAY, Scrape wide,
      Scrape umatan, Sleep RETRY_DELAY, Scrape umatan, Sleep RETRY_DELAY, Scrape umatan,
      Scrape fuku3, Sleep RETRY_DELAY, Scrape fuku3, Sleep RETRY_DELAY, Scrape fuku3,
      Scrape tan3, Sleep RETRY_DELAY, Scrape tan3, Sleep RETRY_DELAY, Scrape tan3]\<rparr>)"
  unfolding three_Suc
  by (simp add: collectAll_def tanpukuScraper_def otherScraper_def failingEnv_def always_thrown_loop)

text \<open>
  C4 at a failing input: a call for a race that is not in the store, on an idle
  semaphore. The early \<open>return\<close> releases the semaphore and the \<open>finally\<close> releases
  it again, so the counter ends at \<open>-1\<close>; the same after a terminal pass. The one
  path that releases once is the regular pass. From \<open>-1\<close> four callers take a slot
  without waiting.
\<close>

theorem semaphore_released_twice:
  "collectOdds 3 failingEnv 1740898200000 7 newCollector
     = Finished (Normal, newCollector\<lparr>collectingSemaphore := \<lparr>running = - 1, queue = []\<rparr>\<rparr>) \<and>
   (case collectOdds 3 failingEnv 1740898200000 202506020111 oneRace of
      Finished (r, c') \<Rightarrow> r = Normal \<and> collectingSemaphore c' = \<lparr>running = - 1, queue = []\<rparr>
    | OutOfFuel es \<Rightarrow> False
    | Queued q \<Rightarrow> False) \<and>
   (case collectOdds 3 failingEnv 1740894000000 202506020111 oneRace of
      Finished (r, c') \<Rightarrow> r = Normal \<and> collectingSemaphore c' = \<lparr>running = 0, queue = []\<rparr>
    | OutOfFuel es \<Rightarrow> False
    | Queued q \<Rightarrow> False) \<and>
   (let s0 = \<lparr>running = - 1, queue = []\<rparr>;
        (g1, s1) = acquire 1 s0; (g2, s2) = acquire 2 s1;
        (g3, s3) = acquire 3 s2; (g4, s4) = acquire 4 s3
    in (g1, g2, g3, g4, s4)) = (True, True, True, True, \<lparr>running = 3, queue = []\<rparr>)"
proof -
  show ?thesis
    by (simp add: collectOdds_def collectOddsBody_def failing_pass no_faults acquire_def release_def
        releaseSemaphore_def maxConcurrent_def newCollector_def oneRace_def findRace_def
        emptyStore_def afternoonRow_def Let_def)
qed

section \<open>Restoring jobs\<close>

lemma release_idle:
  "queue sem = [] \<Longrightarrow> release sem = sem\<lparr>running := running sem - 1\<rparr>"
  by (simp add: release_def Let_def)

lemma collectOddsBody_returns:
  assumes ne: "neverEmpty e" and fuel: "3 \<le> fuel"
    and rel: "\<And>x. collectingSemaphore (rel x) = collectingSemaphore x \<or>
                   collectingSemaphore (rel x) = release (collectingSemaphore x)"
  shows "\<exists>r c'. collectOddsBody rel fuel e now rid c = Finished (r, c') \<and>
     (collectingSemaphore c' = collectingSemaphore c \<or>
      collectingSemaphore c' = release (collectingSemaphore c))"
proof -
  let ?c0 = "sleeps (dbSleeps (lookupFaults e)) c"
  from collectAll_total [OF ne fuel, of rid ?c0] obtain c1 where
    p: "collectAll fuel e rid ?c0 = Finished c1" "collectingSemaphore c1 = collectingSemaphore c"
    by auto
  have r1: "collectingSemaphore (rel ?c0) = collectingSemaphore c \<or>
      collectingSemaphore (rel ?c0) = release (collectingSemaphore c)"
    using rel [of ?c0] by simp
  have r2: "collectingSemaphore (rel ((sleeps m c1)\<lparr>db := s\<rparr>)) = collectingSemaphore c \<or>
      collectingSemaphore (rel ((sleeps m c1)\<lparr>db := s\<rparr>)) = release (collectingSemaphore c)" for s m
    using rel [of "(sleeps m c1)\<lparr>db := s\<rparr>"] p(2) by simp
  show ?thesis
    using p r1 r2
    by (auto simp: collectOddsBody_def Let_def split: option.splits)
qed

lemma collectOdds_returns:
  assumes ne: "neverEmpty e" and fuel: "3 \<le> fuel" and idle: "idle c"
  shows "\<exists>r c'. collectOdds fuel e now rid c = Finished (r, c') \<and> idle c'"
proof -
  let ?sem = "(collectingSemaphore c)\<lparr>running := running (collectingSemaphore c) + 1\<rparr>"
  let ?c0 = "c\<lparr>collectingSemaphore := ?sem\<rparr>"
  have acq: "acquire rid (collectingSemaphore c) = (True, ?sem)"
    using idle by (simp add: idle_def acquire_def)
  have rel: "collectingSemaphore (releaseSemaphore x) = collectingSemaphore x \<or>
      collectingSemaphore (releaseSemaphore x) = release (collectingSemaphore x)" for x
    by (simp add: releaseSemaphore_def)
  from collectOddsBody_returns [OF ne fuel rel, of now rid ?c0] obtain r c1 where
    b: "collectOddsBody releaseSemaphore fuel e now rid ?c0 = Finished (r, c1)"
       "collectingSemaphore c1 = ?sem \<or> collectingSemaphore c1 = release ?sem"
    by auto
  have run: "collectOdds fuel e now rid c = Finished (r, releaseSemaphore c1)"
    by (simp add: collectOdds_def acq b(1))
  have "idle (releaseSemaphore c1)"
    using b(2) idle by (auto simp: idle_def releaseSemaphore_def release_idle)
  with run show ?thesis by blast
qed

lemma collectOdds_daily_returns:
  assumes ne: "neverEmpty e" and fuel: "3 \<le> fuel"
  shows "\<exists>r c'. collectOdds_daily fuel e now rid c = Finished (r, c') \<and>
     collectingSemaphore c' = collectingSemaphore c"
proof -
  let ?c0 = "sleeps (dbSleeps (lookupFaults e)) c"
  from collectAll_total [OF ne fuel, of rid ?c0] obtain c1 where
    p: "collectAll fuel e rid ?c0 = Finished c1" "collectingSemaphore c1 = collectingSemaphore c"
    by auto
  then show ?thesis
    by (auto simp: collectOdds_daily_def collectOddsBody_def Let_def split: option.splits)
qed

lemma collectOddsOf_returns:
  assumes ne: "neverEmpty e" and fuel: "3 \<le> fuel" and idle: "idle c"
  shows "\<exists>r c'. collectOddsOf v fuel e now rid c = Finished (r, c') \<and> idle c'"
proof (cases v)
  case Daily
  from collectOdds_daily_returns [OF ne fuel, of now rid c] obtain r c' where
    "collectOdds_daily fuel e now rid c = Finished (r, c')"
    "collectingSemaphore c' = collectingSemaphore c" by blast
  with idle Daily show ?thesis by (auto simp: collectOddsOf_def idle_def)
next
  case Supervisor
  with collectOdds_returns [OF ne fuel idle, of now rid] show ?thesis
    by (simp add: collectOddsOf_def)
qed

lemma schedule_returns:
  assumes ne: "neverEmpty e" and fuel: "3 \<le> fuel" and idle: "idle (collectorOf sch)"
  shows "\<exists>sch'. scheduleOddsCollection v tz e fuel now race sch = Finished sch' \<and>
     idle (collectorOf sch') \<and> activeJobs sch' = (activeJobs sch)(raceInfo_id race \<mapsto> race)"
proof (cases "initialCollection race (collectionStartOf v tz race) now")
  case False
  with idle show ?thesis by (simp add: scheduleOddsCollection_def Let_def)
next
  case True
  from collectOddsOf_returns [OF ne fuel idle, of v now "raceInfo_id race"] obtain r c' where
    "collectOddsOf v fuel e now (raceInfo_id race) (collectorOf sch) = Finished (r, c')" "idle c'"
    by blast
  with True show ?thesis by (simp add: scheduleOddsCollection_def Let_def)
qed

lemma restoreLoop_returns:
  assumes ne: "worldNeverEmpty w" and fuel: "3 \<le> fuel"
  shows "idle (collectorOf sch) \<Longrightarrow>
    \<exists>sch'. restoreLoop v tz w fuel now rs sch = Finished sch' \<and> idle (collectorOf sch') \<and>
      (\<forall>rid. activeJobs sch' rid =
         (case activeJobs sch rid of
            Some job \<Rightarrow> Some job
          | None \<Rightarrow> map_option (restoredRaceInfo v) (find (\<lambda>r. r_id r = rid) rs)))"
proof (induction rs arbitrary: sch)
  case Nil
  then show ?case by (auto split: option.splits)
next
  case (Cons race rs)
  show ?case
  proof (cases "activeJobs sch (r_id race) \<noteq> None")
    case True
    from Cons.IH [OF Cons.prems] obtain sch' where
      s: "restoreLoop v tz w fuel now rs sch = Finished sch'" "idle (collectorOf sch')"
        "\<forall>rid. activeJobs sch' rid =
         (case activeJobs sch rid of
            Some job \<Rightarrow> Some job
          | None \<Rightarrow> map_option (restoredRaceInfo v) (find (\<lambda>r. r_id r = rid) rs))"
      by blast
    have "restoreLoop v tz w fuel now (race # rs) sch = Finished sch'"
      using True s(1) by simp
    moreover have "\<forall>rid. activeJobs sch' rid =
         (case activeJobs sch rid of
            Some job \<Rightarrow> Some job
          | None \<Rightarrow> map_option (restoredRaceInfo v) (find (\<lambda>r. r_id r = rid) (race # rs)))"
      using s(3) True by (auto split: option.splits)
    ultimately show ?thesis using s(2) by blast
  next
    case False
    from ne have e: "neverEmpty (envOf w (r_id race))" by (simp add: worldNeverEmpty_def)
    from schedule_returns [OF e fuel Cons.prems, of v tz now "restoredRaceInfo v race"]
    obtain sch1 where
      s1: "scheduleOddsCollection v tz (envOf w (r_id race)) fuel now (restoredRaceInfo v race) sch
            = Finished sch1" "idle (collectorOf sch1)"
          "activeJobs sch1 = (activeJobs sch)(r_id race \<mapsto> restoredRaceInfo v race)"
      by (auto simp: restoredRaceInfo_def)
    from Cons.IH [OF s1(2)] obtain sch' where
      s: "restoreLoop v tz w fuel now rs sch1 = Finished sch'" "idle (collectorOf sch')"
        "\<forall>rid. activeJobs sch' rid =
         (case activeJobs sch1 rid of
            Some job \<Rightarrow> Some job
          | None \<Rightarrow> map_option (restoredRaceInfo v) (find (\<lambda>r. r_id r = rid) rs))"
      by blast
    have "restoreLoop v tz w fuel now (race # rs) sch = Finished sch'"
      using False s1(1) s(1) by simp
    moreover have "\<forall>rid. activeJobs sch' rid =
         (case activeJobs sch rid of
            Some job \<Rightarrow> Some job
          | None \<Rightarrow> map_option (restoredRaceInfo v) (find (\<lambda>r. r_id r = rid) (race # rs)))"
      using s(3) s1(3) False by (auto split: option.splits)
    ultimately show ?thesis using s(2) by blast
  qed
qed

lemma find_distinct:
  "distinct (map f xs) \<Longrightarrow> x \<in> set (filter P xs) \<Longrightarrow>
   find (\<lambda>y. f y = f x) (filter P xs) = Some x"
proof (induction xs)
  case Nil
  then show ?case by simp
next
  case (Cons a xs)
  show ?case
  proof (cases "a = x")
    case True
    with Cons.prems show ?thesis by (auto split: if_splits)
  next
    case False
    with Cons.prems have x: "x \<in> set (filter P xs)" by (auto split: if_splits)
    then have "x \<in> set xs" by simp
    with Cons.prems(1) have "f a \<noteq> f x" by auto
    moreover have "find (\<lambda>y. f y = f x) (filter P xs) = Some x"
      using Cons.IH Cons.prems(1) x by simp
    ultimately show ?thesis by simp
  qed
qed

lemma schedule_jobs:
  "scheduleOddsCollection v tz e fuel now race sch = Finished sch' \<Longrightarrow>
     activeJobs sch' = (activeJobs sch)(raceInfo_id race \<mapsto> race)"
  by (auto simp: scheduleOddsCollection_def Let_def dest!: bindRun_Finished split: if_splits)

lemma restoreLoop_finished:
  "restoreLoop v tz w fuel now rs sch = Finished sch' \<Longrightarrow>
     \<forall>rid. activeJobs sch' rid =
        (case activeJobs sch rid of
           Some job \<Rightarrow> Some job
         | None \<Rightarrow> map_option (restoredRaceInfo v) (find (\<lambda>r. r_id r = rid) rs))"
proof (induction rs arbitrary: sch)
  case Nil
  then show ?case by (auto split: option.splits)
next
  case (Cons race rs)
  show ?case
  proof (cases "activeJobs sch (r_id race) \<noteq> None")
    case True
    with Cons.prems have "restoreLoop v tz w fuel now rs sch = Finished sch'" by simp
    from Cons.IH [OF this] True show ?thesis by (auto split: option.splits)
  next
    case False
    with Cons.prems obtain sch1 where
      s1: "scheduleOddsCollection v tz (envOf w (r_id race)) fuel now (restoredRaceInfo v race) sch
            = Finished sch1"
        "restoreLoop v tz w fuel now rs sch1 = Finished sch'"
      by (auto dest!: bindRun_Finished)
    from schedule_jobs [OF s1(1)] have
      j: "activeJobs sch1 = (activeJobs sch)(r_id race \<mapsto> restoredRaceInfo v race)"
      by (simp add: restoredRaceInfo_def)
    from Cons.IH [OF s1(2)] j False show ?thesis by (auto split: option.splits)
  qed
qed

lemma restored_jobs:
  assumes s: "\<forall>rid. activeJobs sch' rid =
        (case activeJobs sch rid of
           Some job \<Rightarrow> Some job
         | None \<Rightarrow> map_option (restoredRaceInfo v) (find (\<lambda>r. r_id r = rid) (upcomingRaces st)))"
  shows "(\<forall>race \<in> set (upcomingRaces st).
           activeJobs sch' (r_id race) \<noteq> None \<and>
           (activeJobs sch (r_id race) = None \<and> distinct (map r_id (races st)) \<longrightarrow>
              activeJobs sch' (r_id race) = Some (restoredRaceInfo v race))) \<and>
        (\<forall>rid. activeJobs sch rid \<noteq> None \<longrightarrow> activeJobs sch' rid = activeJobs sch rid)"
proof -
  let ?rs = "upcomingRaces st"
  have kept: "\<forall>rid. activeJobs sch rid \<noteq> None \<longrightarrow> activeJobs sch' rid = activeJobs sch rid"
    using s by (auto split: option.splits)
  have each: "activeJobs sch' (r_id race) \<noteq> None \<and>
         (activeJobs sch (r_id race) = None \<and> distinct (map r_id (races st)) \<longrightarrow>
            activeJobs sch' (r_id race) = Some (restoredRaceInfo v race))"
    if m: "race \<in> set ?rs" for race
  proof -
    from m have "find (\<lambda>r. r_id r = r_id race) ?rs \<noteq> None"
      by (auto simp: find_None_iff)
    then have a: "activeJobs sch' (r_id race) \<noteq> None"
      using s by (auto split: option.splits)
    have b: "activeJobs sch' (r_id race) = Some (restoredRaceInfo v race)"
      if "activeJobs sch (r_id race) = None" "distinct (map r_id (races st))"
    proof -
      from that(2) m have "find (\<lambda>r. r_id r = r_id race) ?rs = Some race"
        unfolding upcomingRaces_def by (rule find_distinct)
      with s that(1) show ?thesis by simp
    qed
    from a b show ?thesis by blast
  qed
  from each kept show ?thesis by blast
qed

lemma sleepsOf_simps [simp]:
  "activeJobs (sleepsOf n sch) = activeJobs sch"
  "db (collectorOf (sleepsOf n sch)) = db (collectorOf sch)"
  "idle (collectorOf (sleepsOf n sch)) = idle (collectorOf sch)"
  "sleepsOf 0 sch = sch"
  by (simp_all add: sleepsOf_def idle_def)

lemma afterRestart_facts:
  "idle (collectorOf afterRestart)" "upcomingRaces (db (collectorOf afterRestart)) = [morningRow]"
  "activeJobs afterRestart 202506020101 = None" "r_id morningRow = 202506020101"
  "distinct (map r_id (races (db (collectorOf afterRestart))))"
  "\<not> findManyFails failingWorld" "worldNeverEmpty failingWorld"
  "dbSleeps (findManyFaults failingWorld) = 0"
  by (simp_all add: afterRestart_def newScheduler_def newCollector_def idle_def maxConcurrent_def
      upcomingRaces_def emptyStore_def morningRow_def failingWorld_def worldNeverEmpty_def
      neverEmpty_def alwaysNotEmpty_def notEmpty_def failingEnv_def findManyFails_def)

text \<open>
  C8, as the code has it. Take a run of \<open>checkAndRestoreRaceJobs\<close> in which the
  query for the upcoming races succeeds, no scraper call returns an empty list,
  and the semaphore at the start has a free slot and nobody waiting (the loop
  awaits the immediate collection of each race that it restores, so these are the
  conditions under which it gets to the next race; the fuel is three passes of each
  retry loop). The run returns, and then the job map is the old one extended by a
  job for each upcoming race that had none: every upcoming race has a job, a race
  that had one keeps it, and a race that had none (race keys being unique) has the
  job of the \<open>RaceInfo\<close> built from its row. The daily variant builds the
  \<open>RaceInfo\<close> with the grade flag set; the supervisor variant derives the flag from
  the stored name: set exactly when the name contains \<open>G1\<close>, \<open>G2\<close> or \<open>G3\<close>.
\<close>

theorem restoration:
  "(\<not> findManyFails w \<and> worldNeverEmpty w \<and> 3 \<le> fuel \<and> idle (collectorOf sch) \<longrightarrow>
     (\<exists>sch'. checkAndRestoreRaceJobs v tz w fuel now sch = Finished sch' \<and>
        (\<forall>rid. activeJobs sch' rid =
           (case activeJobs sch rid of
              Some job \<Rightarrow> Some job
            | None \<Rightarrow> map_option (restoredRaceInfo v)
                (find (\<lambda>r. r_id r = rid) (upcomingRaces (db (collectorOf sch)))))) \<and>
        (\<forall>race \<in> set (upcomingRaces (db (collectorOf sch))).
           activeJobs sch' (r_id race) \<noteq> None \<and>
           (activeJobs sch (r_id race) = None \<and>
            distinct (map r_id (races (db (collectorOf sch)))) \<longrightarrow>
              activeJobs sch' (r_id race) = Some (restoredRaceInfo v race))) \<and>
        (\<forall>rid. activeJobs sch rid \<noteq> None \<longrightarrow> activeJobs sch' rid = activeJobs sch rid))) \<and>
   isGrade (restoredRaceInfo Daily row) \<and>
   isGrade (restoredRaceInfo Supervisor row) =
     (includes_str (r_name row) ''G1'' \<or> includes_str (r_name row) ''G2'' \<or>
      includes_str (r_name row) ''G3'')"
proof -
  have g: "isGrade (restoredRaceInfo Daily row)"
    "isGrade (restoredRaceInfo Supervisor row) =
     (includes_str (r_name row) ''G1'' \<or> includes_str (r_name row) ''G2'' \<or>
      includes_str (r_name row) ''G3'')"
    by (simp_all add: restoredRaceInfo_def)
  have a: "\<exists>sch'. checkAndRestoreRaceJobs v tz w fuel now sch = Finished sch' \<and>
        (\<forall>rid. activeJobs sch' rid =
           (case activeJobs sch rid of
              Some job \<Rightarrow> Some job
            | None \<Rightarrow> map_option (restoredRaceInfo v)
                (find (\<lambda>r. r_id r = rid) (upcomingRaces (db (collectorOf sch)))))) \<and>
        (\<forall>race \<in> set (upcomingRaces (db (collectorOf sch))).
           activeJobs sch' (r_id race) \<noteq> None \<and>
           (activeJobs sch (r_id race) = None \<and>
            distinct (map r_id (races (db (collectorOf sch)))) \<longrightarrow>
              activeJobs sch' (r_id race) = Some (restoredRaceInfo v race))) \<and>
        (\<forall>rid. activeJobs sch rid \<noteq> None \<longrightarrow> activeJobs sch' rid = activeJobs sch rid)"
    if h: "\<not> findManyFails w" and t1: "worldNeverEmpty w" and t2: "3 \<le> fuel"
      and t3: "idle (collectorOf sch)"
  proof -
    let ?sch0 = "sleepsOf (dbSleeps (findManyFaults w)) sch"
    let ?rs = "upcomingRaces (db (collectorOf sch))"
    from t3 have "idle (collectorOf ?sch0)" by simp
    from restoreLoop_returns [OF t1 t2 this, of v tz now ?rs] obtain sch' where
      r: "restoreLoop v tz w fuel now ?rs ?sch0 = Finished sch'"
      and j: "\<forall>rid. activeJobs sch' rid =
           (case activeJobs sch rid of
              Some job \<Rightarrow> Some job
            | None \<Rightarrow> map_option (restoredRaceInfo v) (find (\<lambda>r. r_id r = rid) ?rs))"
      by auto
    from r h have "checkAndRestoreRaceJobs v tz w fuel now sch = Finished sch'"
      by (simp add: checkAndRestoreRaceJobs_def Let_def)
    with j restored_jobs [OF j] show ?thesis by blast
  qed
  from a g show ?thesis by blast
qed

text \<open>
  After a restart with the morning race stored as upcoming and no job: both
  variants restore its job, the daily one as a grade race.
\<close>

theorem restoration_witness:
  "(\<exists>sch'. checkAndRestoreRaceJobs Daily 0 failingWorld 3 1740870000000 afterRestart = Finished sch' \<and>
      map_option isGrade (activeJobs sch' 202506020101) = Some True) \<and>
   (\<exists>sch'. checkAndRestoreRaceJobs Supervisor 0 failingWorld 3 1740870000000 afterRestart = Finished sch' \<and>
      activeJobs sch' 202506020101 = Some (restoredRaceInfo Supervisor morningRow))"
proof -
  note d = restoration [of failingWorld 3 afterRestart Daily 0 1740870000000 morningRow]
  note s = restoration [of failingWorld 3 afterRestart Supervisor 0 1740870000000 morningRow]
  from d afterRestart_facts obtain sch' where
    r: "checkAndRestoreRaceJobs Daily 0 failingWorld 3 1740870000000 afterRestart = Finished sch'"
      "activeJobs sch' 202506020101 = Some (restoredRaceInfo Daily morningRow)"
    by auto
  then have a: "\<exists>sch'. checkAndRestoreRaceJobs Daily 0 failingWorld 3 1740870000000 afterRestart = Finished sch' \<and>
      map_option isGrade (activeJobs sch' 202506020101) = Some True"
    by (simp add: restoredRaceInfo_def)
  from s afterRestart_facts obtain sch2 where
    "checkAndRestoreRaceJobs Supervisor 0 failingWorld 3 1740870000000 afterRestart = Finished sch2"
    "activeJobs sch2 202506020101 = Some (restoredRaceInfo Supervisor morningRow)"
    by auto
  then have b: "\<exists>sch'. checkAndRestoreRaceJobs Supervisor 0 failingWorld 3 1740870000000 afterRestart = Finished sch' \<and>
      activeJobs sch' 202506020101 = Some (restoredRaceInfo Supervisor morningRow)"
    by blast
  from a b show ?thesis by blast
qed

text \<open>
  C8 as stated fails in the supervisor variant: the restored job of the morning
  race, whose stored name is \<open>Maiden\<close>, is not a grade job.
\<close>

theorem restoration_counterexample:
  "(case checkAndRestoreRaceJobs Supervisor 0 failingWorld 3 1740870000000 afterRestart of
      Finished sch' \<Rightarrow> map_option isGrade (activeJobs sch' 202506020101) = Some False
    | OutOfFuel es \<Rightarrow> False
    | Queued q \<Rightarrow> False)"
proof -
  have g: "\<not> isGrade (restoredRaceInfo Supervisor morningRow)"
    by (simp add: restoredRaceInfo_def morningRow_def)
  have "\<exists>sch'. checkAndRestoreRaceJobs Supervisor 0 failingWorld 3 1740870000000 afterRestart = Finished sch' \<and>
      activeJobs sch' 202506020101 = Some (restoredRaceInfo Supervisor morningRow)"
  proof -
    let ?rs = "upcomingRaces (db (collectorOf afterRestart))"
    from restoreLoop_returns [OF afterRestart_facts(7) order_refl afterRestart_facts(1),
        of Supervisor 0 1740870000000 ?rs]
    obtain sch' where
      s: "restoreLoop Supervisor 0 failingWorld 3 1740870000000 ?rs afterRestart = Finished sch'"
         "\<forall>rid. activeJobs sch' rid =
           (case activeJobs afterRestart rid of
              Some job \<Rightarrow> Some job
            | None \<Rightarrow> map_option (restoredRaceInfo Supervisor) (find (\<lambda>r. r_id r = rid) ?rs))"
      by blast
    from s(2) have "activeJobs sch' 202506020101 = Some (restoredRaceInfo Supervisor morningRow)"
      by (simp add: afterRestart_facts)
    with s(1) show ?thesis
      by (simp add: checkAndRestoreRaceJobs_def afterRestart_facts)
  qed
  then obtain sch' where
    "checkAndRestoreRaceJobs Supervisor 0 failingWorld 3 1740870000000 afterRestart = Finished sch'"
    "activeJobs sch' 202506020101 = Some (restoredRaceInfo Supervisor morningRow)"
    by blast
  with g show ?thesis by simp
qed

section \<open>Retiring jobs\<close>

lemma retire_decision:
  "\<not> gateClosed race gate now \<Longrightarrow> startTime race - now \<le> - FINAL_ODDS_WINDOW \<Longrightarrow>
     firingDecision tz race gate now = Retire"
  by (simp add: firingDecision_def Let_def)

lemma findRace_setRaceStatus_None:
  "findRace rid s = None \<Longrightarrow> findRace rid (setRaceStatus rid st s) = None"
  by (auto simp: findRace_def setRaceStatus_def find_None_iff)

text \<open>
  C9, as the code has it. A firing whose gate is open and whose race started five
  minutes ago or earlier removes the race's job from the map, leaves every other
  job, and, when the lookup and the update succeed, leaves the race not
  \<open>upcoming\<close>. No other firing changes the job map, and neither does the
  calendar scrape when it marks a started race \<open>done\<close>: a race that
  \<open>collectOdds\<close> or the calendar scrape marked \<open>done\<close> keeps its timer until
  that firing.
\<close>

theorem job_retired:
  "(\<not> gateClosed race (collectionStartOf v tz race) now \<and>
    startTime race - now \<le> - FINAL_ODDS_WINDOW \<longrightarrow>
     (\<exists>sch'. scheduledJob v tz e fuel now race sch = Finished sch' \<and>
        activeJobs sch' (raceInfo_id race) = None \<and>
        (\<forall>rid. rid \<noteq> raceInfo_id race \<longrightarrow> activeJobs sch' rid = activeJobs sch rid) \<and>
        (\<not> lookupFails e \<and> \<not> updateFails e \<longrightarrow>
           map_option r_status (findRace (raceInfo_id race) (db (collectorOf sch')))
             \<noteq> Some ''upcoming''))) \<and>
   (\<forall>sch'. firingDecision tz race (collectionStartOf v tz race) now \<noteq> Retire \<and>
      scheduledJob v tz e fuel now race sch = Finished sch' \<longrightarrow>
      activeJobs sch' = activeJobs sch) \<and>
   activeJobs (raceAlreadyStarted rid sch) = activeJobs sch"
proof -
  have a: "\<exists>sch'. scheduledJob v tz e fuel now race sch = Finished sch' \<and>
        activeJobs sch' (raceInfo_id race) = None \<and>
        (\<forall>rid. rid \<noteq> raceInfo_id race \<longrightarrow> activeJobs sch' rid = activeJobs sch rid) \<and>
        (\<not> lookupFails e \<and> \<not> updateFails e \<longrightarrow>
           map_option r_status (findRace (raceInfo_id race) (db (collectorOf sch')))
             \<noteq> Some ''upcoming'')"
    if h: "\<not> gateClosed race (collectionStartOf v tz race) now"
      "startTime race - now \<le> - FINAL_ODDS_WINDOW"
  proof -
    have d: "firingDecision tz race (collectionStartOf v tz race) now = Retire"
      using h by (rule retire_decision)
    show ?thesis
    proof (cases "findRace (raceInfo_id race) (db (collectorOf sch))")
      case None
      then show ?thesis by (simp add: scheduledJob_def d Let_def)
    next
      case (Some currentRace)
      then show ?thesis
        by (simp add: scheduledJob_def d Let_def findRace_setRaceStatus)
    qed
  qed
  have b: "activeJobs sch' = activeJobs sch"
    if "firingDecision tz race (collectionStartOf v tz race) now \<noteq> Retire"
      "scheduledJob v tz e fuel now race sch = Finished sch'" for sch'
    using that
    by (cases "firingDecision tz race (collectionStartOf v tz race) now")
      (auto simp: scheduledJob_def dest!: bindRun_Finished)
  have c: "activeJobs (raceAlreadyStarted rid sch) = activeJobs sch"
    by (simp add: raceAlreadyStarted_def)
  from a b c show ?thesis by blast
qed

lemma registered_store: "registerRace afternoonRace emptyStore = db oneRace"
  by (simp add: registerRace_def findRace_def emptyStore_def afternoonRace_def afternoonRow_def
      oneRace_def newCollector_def)

lemma scheduled_facts:
  "findRace 202506020111 (db (collectorOf scheduled)) = Some afternoonRow"
  "raceInfo_id afternoonRace = 202506020111"
  "\<not> gateClosed afternoonRace (collectionStartOf Supervisor 0 afternoonRace) 1740898200000"
  "startTime afternoonRace - 1740898200000 \<le> - FINAL_ODDS_WINDOW"
  "\<not> lookupFails failingEnv" "\<not> updateFails failingEnv"
  by (simp_all add: scheduled_def oneRace_def newCollector_def emptyStore_def findRace_def
      afternoonRow_def afternoonRace_def gateClosed_def collectionStartOf_def
      collectionStartTimeUTC_def previousDayAtHour_def JST_OFFSET_def DAY_def HOUR_def
      FINAL_ODDS_WINDOW_def no_faults Let_def)

text \<open>
  The afternoon race with its job, fired ten minutes after the start: the job is
  gone and the race is no longer upcoming.
\<close>

theorem job_retired_witness:
  "\<exists>sch'. scheduledJob Supervisor 0 failingEnv 3 1740898200000 afternoonRace scheduled = Finished sch' \<and>
     activeJobs sch' 202506020111 = None \<and>
     map_option r_status (findRace 202506020111 (db (collectorOf sch'))) \<noteq> Some ''upcoming''"
  using job_retired [of afternoonRace Supervisor 0 1740898200000 failingEnv 3 scheduled 7]
    scheduled_facts
  by auto

text \<open>
  C9 as stated fails. The afternoon race is registered two minutes after its start:
  the immediate collection is the terminal pass, which marks the race \<open>done\<close>,
  and the job just created stays in the map. The calendar scrape marks a started
  race \<open>done\<close> and leaves its job in the map too.
\<close>

theorem done_race_keeps_timer:
  "(case scheduleOddsCollection Supervisor 0 failingEnv 3 1740897720000 afternoonRace tracked of
      Finished sch' \<Rightarrow>
        map_option r_status (findRace 202506020111 (db (collectorOf sch'))) = Some ''done'' \<and>
        activeJobs sch' 202506020111 = Some afternoonRace
    | OutOfFuel es \<Rightarrow> False
    | Queued q \<Rightarrow> False) \<and>
   map_option r_status
     (findRace 202506020111 (db (collectorOf (raceAlreadyStarted 202506020111 scheduled))))
     = Some ''done'' \<and>
   activeJobs (raceAlreadyStarted 202506020111 scheduled) 202506020111 = Some afternoonRace"
proof -
  have free: "running (collectingSemaphore oneRace) < maxConcurrent"
    by (simp add: oneRace_def newCollector_def maxConcurrent_def)
  have ne: "neverEmpty failingEnv"
    by (simp add: neverEmpty_def alwaysNotEmpty_def notEmpty_def failingEnv_def)
  have found: "findRace 202506020111 (db oneRace) = Some afternoonRow"
    by (simp add: findRace_def oneRace_def newCollector_def emptyStore_def afternoonRow_def)
  have row: "r_status afternoonRow = ''upcoming''" "r_startTime afternoonRow < 1740897720000"
    by (simp_all add: afternoonRow_def)
  from collectOdds_terminal [OF free scheduled_facts(5,6) found row ne order_refl]
  obtain c' where
    c: "collectOdds 3 failingEnv 1740897720000 202506020111 oneRace = Finished (Normal, c')"
       "map_option r_status (findRace 202506020111 (db c')) = Some ''done''"
    by blast
  have i: "initialCollection afternoonRace (collectionStartOf Supervisor 0 afternoonRace) 1740897720000"
    by (simp add: initialCollection_def afternoonRace_def collectionStartOf_def
        collectionStartTimeUTC_def previousDayAtHour_def JST_OFFSET_def DAY_def HOUR_def Let_def)
  have a: "scheduleOddsCollection Supervisor 0 failingEnv 3 1740897720000 afternoonRace tracked
      = Finished (tracked\<lparr>activeJobs := [202506020111 \<mapsto> afternoonRace], collectorOf := c'\<rparr>)"
    using c(1) i
    by (simp add: scheduleOddsCollection_def collectOddsOf_def tracked_def scheduled_facts(2) Let_def)
  have b: "map_option r_status
     (findRace 202506020111 (db (collectorOf (raceAlreadyStarted 202506020111 scheduled))))
     = Some ''done''"
    using findRace_setRaceStatus [OF scheduled_facts(1), of "''done''"]
    by (simp add: raceAlreadyStarted_def)
  have d: "activeJobs (raceAlreadyStarted 202506020111 scheduled) 202506020111 = Some afternoonRace"
    by (simp add: raceAlreadyStarted_def scheduled_def)
  from a c(2) b d show ?thesis by simp
qed

section \<open>The collection-start gate\<close>

lemma supervisor_gate_utc:
  "isGrade race \<Longrightarrow>
     collectionStartOf Supervisor 0 race = Some (spec_collectionStart (startTime race))"
  by (simp add: collectionStartOf_def collectionStartTimeUTC_def spec_collectionStart_def
      previousDayAtHour_def Let_def)

lemma same_day:
  fixes s :: int
  assumes "32400000 \<le> (s + 32400000) mod 86400000"
  shows "s div 86400000 = (s + 32400000) div 86400000"
proof -
  let ?q = "(s + 32400000) div 86400000"
  let ?r = "(s + 32400000) mod 86400000"
  have "s + 32400000 = 86400000 * ?q + ?r" by simp
  then have "s = 86400000 * ?q + (?r - 32400000)" by linarith
  moreover have "0 \<le> ?r - 32400000" using assms by linarith
  moreover have "?r < 86400000" by simp
  then have "?r - 32400000 < 86400000" by linarith
  ultimately show ?thesis by (rule int_div_pos_eq)
qed

lemma daily_gate_utc:
  assumes "isGrade race" "9 * HOUR \<le> (startTime race + JST_OFFSET) mod DAY"
  shows "collectionStartOf Daily 0 race = Some (spec_collectionStart (startTime race) + 10 * HOUR)"
proof -
  have "startTime race div 86400000 = (startTime race + 32400000) div 86400000"
    using assms(2) unfolding HOUR_def JST_OFFSET_def DAY_def by (intro same_day) simp
  with assms(1) show ?thesis
    by (simp add: collectionStartOf_def collectionStartTime_daily_def spec_collectionStart_def
        previousDayAtHour_def Let_def HOUR_def JST_OFFSET_def DAY_def)
qed

lemma gate_blocks:
  assumes "isGrade race" "collectionStartOf v tz race = Some g" "now < g"
  shows "scheduledJob v tz e fuel now race sch = Finished sch"
    "scheduleOddsCollection v tz e fuel now race sch =
       Finished (sch\<lparr>activeJobs := (activeJobs sch)(raceInfo_id race \<mapsto> race)\<rparr>)"
  using assms
  by (simp_all add: scheduledJob_def scheduleOddsCollection_def firingDecision_def gateClosed_def
      initialCollection_def Let_def)

text \<open>
  C7, as the code has it. For a grade race, while the current time precedes the gate
  that \<open>scheduleOddsCollection\<close> computed, a firing of the race's timer returns with
  nothing collected and nothing changed, and registration stores the job and skips
  the immediate collection. On a host whose zone is UTC the gate of the supervisor
  variant is 09:00 JST on the day before the Japanese day of the race start, and the
  gate of the daily variant, for a race that starts at or after 09:00 JST, is 19:00
  JST on that day before, ten hours later.
\<close>

theorem collection_gate:
  "isGrade race \<longrightarrow>
     collectionStartOf Supervisor 0 race = Some (spec_collectionStart (startTime race)) \<and>
     (9 * HOUR \<le> (startTime race + JST_OFFSET) mod DAY \<longrightarrow>
        collectionStartOf Daily 0 race = Some (spec_collectionStart (startTime race) + 10 * HOUR)) \<and>
     ((\<exists>g. collectionStartOf v tz race = Some g \<and> now < g) \<longrightarrow>
        scheduledJob v tz e fuel now race sch = Finished sch \<and>
        scheduleOddsCollection v tz e fuel now race sch =
          Finished (sch\<lparr>activeJobs := (activeJobs sch)(raceInfo_id race \<mapsto> race)\<rparr>)) \<and>
     (now < spec_collectionStart (startTime race) \<longrightarrow>
        scheduledJob Supervisor 0 e fuel now race sch = Finished sch \<and>
        scheduleOddsCollection Supervisor 0 e fuel now race sch =
          Finished (sch\<lparr>activeJobs := (activeJobs sch)(raceInfo_id race \<mapsto> race)\<rparr>)) \<and>
     (9 * HOUR \<le> (startTime race + JST_OFFSET) mod DAY \<and>
      now < spec_collectionStart (startTime race) + 10 * HOUR \<longrightarrow>
        scheduledJob Daily 0 e fuel now race sch = Finished sch \<and>
        scheduleOddsCollection Daily 0 e fuel now race sch =
          Finished (sch\<lparr>activeJobs := (activeJobs sch)(raceInfo_id race \<mapsto> race)\<rparr>))"
proof
  assume grade: "isGrade race"
  note a = supervisor_gate_utc [OF grade]
  have b: "9 * HOUR \<le> (startTime race + JST_OFFSET) mod DAY \<longrightarrow>
        collectionStartOf Daily 0 race = Some (spec_collectionStart (startTime race) + 10 * HOUR)"
    using daily_gate_utc [OF grade] by blast
  have c: "(\<exists>g. collectionStartOf v tz race = Some g \<and> now < g) \<longrightarrow>
        scheduledJob v tz e fuel now race sch = Finished sch \<and>
        scheduleOddsCollection v tz e fuel now race sch =
          Finished (sch\<lparr>activeJobs := (activeJobs sch)(raceInfo_id race \<mapsto> race)\<rparr>)"
    using gate_blocks [OF grade] by blast
  have d: "now < spec_collectionStart (startTime race) \<longrightarrow>
        scheduledJob Supervisor 0 e fuel now race sch = Finished sch \<and>
        scheduleOddsCollection Supervisor 0 e fuel now race sch =
          Finished (sch\<lparr>activeJobs := (activeJobs sch)(raceInfo_id race \<mapsto> race)\<rparr>)"
    using gate_blocks [OF grade a] by blast
  have e: "9 * HOUR \<le> (startTime race + JST_OFFSET) mod DAY \<and>
      now < spec_collectionStart (startTime race) + 10 * HOUR \<longrightarrow>
        scheduledJob Daily 0 e fuel now race sch = Finished sch \<and>
        scheduleOddsCollection Daily 0 e fuel now race sch =
          Finished (sch\<lparr>activeJobs := (activeJobs sch)(raceInfo_id race \<mapsto> race)\<rparr>)"
    using gate_blocks [OF grade daily_gate_utc [OF grade]] by blast
  from a b c d e show "collectionStartOf Supervisor 0 race = Some (spec_collectionStart (startTime race)) \<and>
     (9 * HOUR \<le> (startTime race + JST_OFFSET) mod DAY \<longrightarrow>
        collectionStartOf Daily 0 race = Some (spec_collectionStart (startTime race) + 10 * HOUR)) \<and>
     ((\<exists>g. collectionStartOf v tz race = Some g \<and> now < g) \<longrightarrow>
        scheduledJob v tz e fuel now race sch = Finished sch \<and>
        scheduleOddsCollection v tz e fuel now race sch =
          Finished (sch\<lparr>activeJobs := (activeJobs sch)(raceInfo_id race \<mapsto> race)\<rparr>)) \<and>
     (now < spec_collectionStart (startTime race) \<longrightarrow>
        scheduledJob Supervisor 0 e fuel now race sch = Finished sch \<and>
        scheduleOddsCollection Supervisor 0 e fuel now race sch =
          Finished (sch\<lparr>activeJobs := (activeJobs sch)(raceInfo_id race \<mapsto> race)\<rparr>)) \<and>
     (9 * HOUR \<le> (startTime race + JST_OFFSET) mod DAY \<and>
      now < spec_collectionStart (startTime race) + 10 * HOUR \<longrightarrow>
        scheduledJob Daily 0 e fuel now race sch = Finished sch \<and>
        scheduleOddsCollection Daily 0 e fuel now race sch =
          Finished (sch\<lparr>activeJobs := (activeJobs sch)(raceInfo_id race \<mapsto> race)\<rparr>))"
    by (intro conjI)
qed


lemma afternoon_gate_facts:
  "isGrade afternoonRace" "raceInfo_id afternoonRace = 202506020111"
  "spec_collectionStart (startTime afternoonRace) = 1740787200000"
  "9 * HOUR \<le> (startTime afternoonRace + JST_OFFSET) mod DAY"
  "10 * HOUR = 36000000"
  "tracked\<lparr>activeJobs := (activeJobs tracked)(202506020111 \<mapsto> afternoonRace)\<rparr> = scheduled"
  "scheduled\<lparr>activeJobs := (activeJobs scheduled)(202506020111 \<mapsto> afternoonRace)\<rparr> = scheduled"
  by (simp_all add: afternoonRace_def spec_collectionStart_def JST_OFFSET_def DAY_def HOUR_def
      tracked_def scheduled_def)

text \<open>
  The afternoon race on a UTC host. The gates are 00:00 UTC (09:00 JST) and 10:00 UTC
  (19:00 JST) on 1 March. In the supervisor variant at 15:00 UTC on 28 February, and
  in the daily variant at 01:00 UTC on 1 March, a firing leaves the scheduler as it
  was and registration only stores the job.
\<close>

theorem collection_gate_witness:
  "collectionStartOf Supervisor 0 afternoonRace = Some 1740787200000 \<and>
   collectionStartOf Daily 0 afternoonRace = Some 1740823200000 \<and>
   scheduledJob Supervisor 0 failingEnv 3 1740754800000 afternoonRace scheduled = Finished scheduled \<and>
   scheduleOddsCollection Supervisor 0 failingEnv 3 1740754800000 afternoonRace tracked
     = Finished scheduled \<and>
   scheduledJob Daily 0 failingEnv 3 1740790800000 afternoonRace scheduled = Finished scheduled \<and>
   scheduleOddsCollection Daily 0 failingEnv 3 1740790800000 afternoonRace tracked
     = Finished scheduled"
proof -
  note f = afternoon_gate_facts
  from collection_gate [of afternoonRace Supervisor 0 1740754800000 failingEnv 3 scheduled] f
  have a: "collectionStartOf Supervisor 0 afternoonRace = Some 1740787200000"
    "collectionStartOf Daily 0 afternoonRace = Some 1740823200000"
    "scheduledJob Supervisor 0 failingEnv 3 1740754800000 afternoonRace scheduled = Finished scheduled"
    by simp_all
  from collection_gate [of afternoonRace Supervisor 0 1740754800000 failingEnv 3 tracked] f
  have b: "scheduleOddsCollection Supervisor 0 failingEnv 3 1740754800000 afternoonRace tracked
     = Finished scheduled"
    by simp
  from collection_gate [of afternoonRace Daily 0 1740790800000 failingEnv 3 scheduled] f
  have c: "scheduledJob Daily 0 failingEnv 3 1740790800000 afternoonRace scheduled = Finished scheduled"
    by simp
  from collection_gate [of afternoonRace Daily 0 1740790800000 failingEnv 3 tracked] f
  have d: "scheduleOddsCollection Daily 0 failingEnv 3 1740790800000 afternoonRace tracked
     = Finished scheduled"
    by simp
  from a b c d show ?thesis by simp
qed


lemma morning_collect:
  "collectOdds 3 failingEnv 1740758400000 202506020101 (collectorOf afterRestart)
     = Finished (Normal, (collectorOf afterRestart)\<lparr>events :=
         [Scrape tanpuku, Sleep RETRY_DELAY, Scrape tanpuku, Sleep RETRY_DELAY, Scrape tanpuku,
          Scrape wakuren, Sleep RETRY_DELAY, Scrape wakuren, Sleep RETRY_DELAY, Scrape wakuren,
          Scrape umaren, Sleep RETRY_DELAY, Scrape umaren, Sleep RETRY_DELAY, Scrape umaren,
          Scrape wide, Sleep RETRY_DELAY, Scrape wide, Sleep RETRY_DELAY, Scrape wide,
          Scrape umatan, Sleep RETRY_DELAY, Scrape umatan, Sleep RETRY_DELAY, Scrape umatan,
          Scrape fuku3, Sleep RETRY_DELAY, Scrape fuku3, Sleep RETRY_DELAY, Scrape fuku3,
          Scrape tan3, Sleep RETRY_DELAY, Scrape tan3, Sleep RETRY_DELAY, Scrape tan3]\<rparr>)"
  by (simp add: collectOdds_def collectOddsBody_def failing_pass no_faults acquire_def release_def
      releaseSemaphore_def maxConcurrent_def afterRestart_def newScheduler_def newCollector_def
      findRace_def emptyStore_def morningRow_def Let_def)

lemma three_each:
  "attempts [3, 3, 3, 3, 3, 3, 3] oddsTypes =
     [tanpuku, tanpuku, tanpuku, wakuren, wakuren, wakuren, umaren, umaren, umaren,
      wide, wide, wide, umatan, umatan, umatan, fuku3, fuku3, fuku3, tan3, tan3, tan3]"
  by (simp add: oddsTypes_def numeral_3_eq_3)

text \<open>
  C7 as stated fails. In the daily variant on a UTC host the gate of the afternoon
  race is not 09:00 JST on the day before but ten hours later, and the firing at
  10:00 JST on that day still waits. In the supervisor variant on a host whose zone
  is JST, the firing for the morning race at 16:00 UTC on 28 February (01:00 JST
  on 1 March), eight hours before 09:00 JST on the day before the race, scrapes
  every bet type, and so does registration at that time.
\<close>

theorem collection_gate_counterexample:
  "isGrade afternoonRace \<and>
   spec_collectionStart (startTime afternoonRace) \<le> 1740790800000 \<and>
   collectionStartOf Daily 0 afternoonRace
     = Some (spec_collectionStart (startTime afternoonRace) + 10 * HOUR) \<and>
   scheduledJob Daily 0 failingEnv 3 1740790800000 afternoonRace scheduled = Finished scheduled \<and>
   isGrade morningRace \<and>
   1740758400000 < spec_collectionStart (startTime morningRace) \<and>
   (case scheduledJob Supervisor JST_OFFSET failingEnv 3 1740758400000 morningRace afterRestart of
      Finished sch' \<Rightarrow>
        scraped (events (collectorOf sch')) = attempts [3, 3, 3, 3, 3, 3, 3] oddsTypes
    | OutOfFuel es \<Rightarrow> False
    | Queued q \<Rightarrow> False) \<and>
   (case scheduleOddsCollection Supervisor JST_OFFSET failingEnv 3 1740758400000 morningRace
           afterRestart of
      Finished sch' \<Rightarrow>
        scraped (events (collectorOf sch')) = attempts [3, 3, 3, 3, 3, 3, 3] oddsTypes
    | OutOfFuel es \<Rightarrow> False
    | Queued q \<Rightarrow> False)"
proof -
  have a: "isGrade afternoonRace"
    "spec_collectionStart (startTime afternoonRace) \<le> 1740790800000"
    "collectionStartOf Daily 0 afternoonRace
      = Some (spec_collectionStart (startTime afternoonRace) + 10 * HOUR)"
    "isGrade morningRace"
    "1740758400000 < spec_collectionStart (startTime morningRace)"
    by (simp_all add: afternoonRace_def morningRace_def collectionStartOf_def
        collectionStartTime_daily_def spec_collectionStart_def previousDayAtHour_def
        JST_OFFSET_def DAY_def HOUR_def Let_def)
  have b: "scheduledJob Daily 0 failingEnv 3 1740790800000 afternoonRace scheduled = Finished scheduled"
    by (simp add: scheduledJob_def firingDecision_def gateClosed_def afternoonRace_def
        collectionStartOf_def collectionStartTime_daily_def previousDayAtHour_def
        JST_OFFSET_def DAY_def HOUR_def Let_def)
  have d: "firingDecision JST_OFFSET morningRace (collectionStartOf Supervisor JST_OFFSET morningRace)
      1740758400000 = Collect"
    "initialCollection morningRace (collectionStartOf Supervisor JST_OFFSET morningRace) 1740758400000"
    "raceInfo_id morningRace = 202506020101"
    by (simp_all add: morningRace_def collectionStartOf_def collectionStartTimeUTC_def
        previousDayAtHour_def firingDecision_def gateClosed_def initialCollection_def
        shouldCollect_def getMinutes_def FINAL_ODDS_WINDOW_def JST_OFFSET_def DAY_def HOUR_def
        MINUTE_def Let_def)
  have c: "case scheduledJob Supervisor JST_OFFSET failingEnv 3 1740758400000 morningRace afterRestart of
      Finished sch' \<Rightarrow>
        scraped (events (collectorOf sch')) = attempts [3, 3, 3, 3, 3, 3, 3] oddsTypes
    | OutOfFuel es \<Rightarrow> False
    | Queued q \<Rightarrow> False"
    by (simp add: scheduledJob_def d collectOddsOf_def morning_collect three_each)
  have e: "case scheduleOddsCollection Supervisor JST_OFFSET failingEnv 3 1740758400000 morningRace
           afterRestart of
      Finished sch' \<Rightarrow>
        scraped (events (collectorOf sch')) = attempts [3, 3, 3, 3, 3, 3, 3] oddsTypes
    | OutOfFuel es \<Rightarrow> False
    | Queued q \<Rightarrow> False"
    by (simp add: scheduleOddsCollection_def d collectOddsOf_def morning_collect three_each
        Let_def)
  from a b c e show ?thesis by simp
qed

end
